(* ===== verification/Layout_Prelude.thy ===== *)
theory Layout_Prelude
  imports Complex_Main "HOL-Library.Multiset"
begin

text \<open>
  Shared vocabulary of the layout model: the types that name the quantities of
  \<open>src/libmscore/layout.cpp\<close> (ticks, staff lines, lengths in points), the
  C++ integer operations whose rounding differs from HOL's, and the generic lemmas on
  lists and sums that the component theories use.  Lengths (\<open>qreal\<close>, a C++
  \<open>double\<close>) are modelled as \<open>real\<close>: the model is exact arithmetic and
  says nothing about floating-point rounding.
\<close>

named_theorems layout_simps "evaluation rules shared by the layout components"

type_synonym tick = int
type_synonym staff_line = int
type_synonym qreal = real

text \<open>\<open>VOICES\<close> of \<open>mscore.h\<close>: the number of tracks per staff.\<close>

abbreviation VOICES :: nat where
  "VOICES \<equiv> 4"

text \<open>
  C++ \<open>%\<close> on \<open>int\<close> truncates towards zero: the result has the sign of
  the dividend.  HOL's \<open>mod\<close> rounds towards minus infinity.  Division by zero
  is undefined in C++; the model returns 0 there and no caller divides by zero.
\<close>

definition cxx_mod :: "int \<Rightarrow> int \<Rightarrow> int" where
  "cxx_mod a b = (if b = 0 then 0 else sgn a * (\<bar>a\<bar> mod \<bar>b\<bar>))"

definition cxx_div :: "int \<Rightarrow> int \<Rightarrow> int" where
  "cxx_div a b = (if b = 0 then 0 else sgn a * sgn b * (\<bar>a\<bar> div \<bar>b\<bar>))"

lemma cxx_mod_nonneg [layout_simps]:
  "0 \<le> a \<Longrightarrow> 0 < b \<Longrightarrow> cxx_mod a b = a mod b"
  by (cases "a = 0") (auto simp: cxx_mod_def sgn_if)

lemma cxx_div_nonneg [layout_simps]:
  "0 \<le> a \<Longrightarrow> 0 < b \<Longrightarrow> cxx_div a b = a div b"
  by (cases "a = 0") (auto simp: cxx_div_def sgn_if)

lemma cxx_mod_neg:
  "a < 0 \<Longrightarrow> 0 < b \<Longrightarrow> cxx_mod a b = - ((- a) mod b)"
  by (simp add: cxx_mod_def)

subsection \<open>Sums over lists\<close>

lemma sum_list_map_mset:
  fixes f :: "'a \<Rightarrow> 'b::comm_monoid_add"
  assumes "mset xs = mset ys"
  shows "sum_list (map f xs) = sum_list (map f ys)"
proof -
  have "mset (map f xs) = mset (map f ys)"
    using assms by (simp only: mset_map)
  then have "sum_mset (mset (map f xs)) = sum_mset (mset (map f ys))"
    by simp
  then show ?thesis
    by (simp only: sum_mset_sum_list)
qed

lemma sum_list_upt_Suc:
  "(\<Sum>j\<leftarrow>[0..<Suc i]. f j) = (\<Sum>j\<leftarrow>[0..<i]. f j) + (f i :: 'a::comm_monoid_add)"
  by (simp add: add.commute)

subsection \<open>Association lists used as C++ arrays\<close>

text \<open>
  A C++ array written by index (\<open>a[i] = v\<close>) is a HOL list updated with
  \<open>xs[i := v]\<close>; the writes of a loop are a fold of updates.
\<close>

lemma fold_update_nth_other:
  "i \<notin> set (map fst ws) \<Longrightarrow>
   fold (\<lambda>(j, v) xs. xs[j := v]) ws xs ! i = xs ! i"
  by (induction ws arbitrary: xs) (auto simp: nth_list_update)

lemma length_fold_update [simp]:
  "length (fold (\<lambda>(j, v) xs. xs[j := v]) ws xs) = length xs"
  by (induction ws arbitrary: xs) auto

lemma fold_update_nth:
  "distinct (map fst ws) \<Longrightarrow> (j, v) \<in> set ws \<Longrightarrow> j < length xs \<Longrightarrow>
   fold (\<lambda>(j, v) xs. xs[j := v]) ws xs ! j = v"
proof (induction ws arbitrary: xs)
  case Nil
  then show ?case by simp
next
  case (Cons w ws)
  obtain i u where w: "w = (i, u)" by fastforce
  show ?case
  proof (cases "(j, v) = w")
    case True
    with Cons.prems w have "j \<notin> set (map fst ws)" by auto
    with True w Cons.prems(3) show ?thesis by (simp add: fold_update_nth_other)
  next
    case False
    with Cons.prems have "(j, v) \<in> set ws" by auto
    with Cons.prems w show ?thesis by (simp add: Cons.IH)
  qed
qed

text \<open>
  A field that no step of a loop changes is the same after the loop; removing from a
  list the elements of a filter of it leaves the complementary filter.
\<close>

lemma foldl_keeps:
  assumes "\<And>st x. g (f st x) = g st"
  shows "g (foldl f st xs) = g st"
  using assms by (induction xs arbitrary: st) simp_all

lemma mset_minus_filter:
  "mset xs - mset (filter P xs) = mset (filter (\<lambda>x. \<not> P x) xs)"
proof -
  have "mset xs = mset (filter P xs) + mset (filter (\<lambda>x. \<not> P x) xs)"
    by (simp add: mset_filter multiset_partition [symmetric])
  then show ?thesis by (metis add_diff_cancel_left')
qed

text \<open>
  Counting the calls in a trace built by nested loops: a count over a concatenation is a
  sum, two nested sums can be swapped, and a sum over \<open>enumerate\<close> is a sum over indices.
\<close>

lemma count_list_concat: "count_list (concat xss) x = sum_list (map (\<lambda>xs. count_list xs x) xss)"
  by (induction xss) simp_all

lemma count_list_if: "count_list (if P then xs else ys) z = (if P then count_list xs z else count_list ys z)"
  by simp

lemma sum_list_swap:
  fixes f :: "'a \<Rightarrow> 'b \<Rightarrow> nat"
  shows "sum_list (map (\<lambda>i. sum_list (map (f i) ys)) xs) = sum_list (map (\<lambda>y. sum_list (map (\<lambda>i. f i y) xs)) ys)"
  by (induction xs) (simp_all add: sum_list_addf)

lemma sum_list_enumerate:
  "sum_list (map (\<lambda>(i, e). f i e) (enumerate 0 xs)) = sum_list (map (\<lambda>i. f i (xs ! i)) [0..<length xs])"
proof (induction xs rule: rev_induct)
  case (snoc x xs)
  have eq: "sum_list (map (\<lambda>i. f i ((xs @ [x]) ! i)) [0..<length xs]) = sum_list (map (\<lambda>i. f i (xs ! i)) [0..<length xs])"
    by (rule arg_cong [where f = sum_list], rule map_cong) (simp_all add: nth_append)
  show ?case
    using snoc by (simp add: enumerate_append_eq eq)
qed simp

end
