(* ===== verification/Springs.thy ===== *)
theory Springs
  imports Layout_Prelude
begin

text \<open>
  The spring model of horizontal spacing (\<open>layout.cpp\<close>: \<open>struct Spring\<close>,
  \<open>SpringMap\<close>, \<open>sff2\<close>, \<open>Score::respace\<close>).  Every gap between two
  consecutive chord/rest segments is a spring with a minimum length \<open>fix\<close> and a
  stretch coefficient; the springs sit in a \<open>std::multimap\<close> keyed by
  \<open>fix / stretch\<close>, modelled as a list kept sorted by key with the multimap's
  insertion rule (a new key goes after the keys equal to it).  \<open>sff2\<close> sweeps the
  map to find the force that makes the springs fill a target width; \<open>respace\<close>
  gives every gap \<open>max (force * stretch) fix\<close> and moves the chord/rests.
  The main result is conservation of width: when the target is wider than the sum of
  the minimum lengths, the distributed gaps add up to the target exactly.
\<close>

subsection \<open>Springs and the spring map\<close>

record spring =
  spring_seg :: nat
  spring_stretch :: qreal
  spring_fix :: qreal

type_synonym spring_map = "(qreal \<times> spring) list"

text \<open>\<open>std::multimap::insert\<close>: after every element whose key is not greater.\<close>

fun spring_insert :: "qreal \<times> spring \<Rightarrow> spring_map \<Rightarrow> spring_map" where
  "spring_insert x [] = [x]"
| "spring_insert x (y # ys) =
     (if fst x < fst y then x # y # ys else y # spring_insert x ys)"

text \<open>
  The loop of \<open>sff2\<close>: \<open>xMin\<close> is the sum of the minimum lengths of the springs
  not yet stretched, \<open>c\<close> the sum of the stretch coefficients of the springs
  stretched so far, the current one included.  On an empty map the loop body never runs
  and the initial \<open>f = 0.0\<close> is returned.
\<close>

fun sff2_loop :: "qreal \<Rightarrow> qreal \<Rightarrow> qreal \<Rightarrow> spring_map \<Rightarrow> qreal" where
  "sff2_loop width xMin c [] = 0"
| "sff2_loop width xMin c (i # rest) =
     (let xMin' = xMin - spring_fix (snd i);
          f = (width - xMin') / c
      in case rest of
           [] \<Rightarrow> f
         | j # _ \<Rightarrow> if f \<le> fst j then f
                    else sff2_loop width xMin' (c + spring_stretch (snd j)) rest)"

text \<open>
  \<open>sff2\<close> dereferences \<open>springs.begin()\<close> once the early return is passed; on
  an empty map that is undefined behaviour, the \<open>None\<close> of the model.  A first
  coefficient of 0 is replaced by 1.1 (the \<open>//DEBUG\<close> line).
\<close>

definition sff2 :: "qreal \<Rightarrow> qreal \<Rightarrow> spring_map \<Rightarrow> qreal option" where
  "sff2 width xMin springs =
     (if width \<le> xMin then Some 0
      else case springs of
             [] \<Rightarrow> None
           | i # _ \<Rightarrow>
               Some (sff2_loop width xMin
                       (if spring_stretch (snd i) = 0 then 1.1 else spring_stretch (snd i))
                       springs))"

text \<open>The width \<open>respace\<close> gives one spring under a force.\<close>

definition spring_width :: "qreal \<Rightarrow> spring \<Rightarrow> qreal" where
  "spring_width force s =
     (let stretch = force * spring_stretch s
      in if stretch < spring_fix s then spring_fix s else stretch)"

definition spring_distribute :: "qreal \<Rightarrow> spring_map \<Rightarrow> qreal list \<Rightarrow> qreal list" where
  "spring_distribute force springs ws =
     fold (\<lambda>(j, v) xs. xs[j := v])
       (map (\<lambda>(k, s). (spring_seg s, spring_width force s)) springs) ws"

subsection \<open>respace\<close>

text \<open>
  The chord/rests that \<open>respace\<close> reads: the x position of the segment, the
  chord/rest's own offset \<open>rxpos\<close> (what \<open>respace\<close> writes), its duration in
  ticks and its shape.  Shapes are a type parameter: the only operation on them is
  \<open>Shape::minHorizontalDistance\<close>, given as the argument \<open>mhd\<close>.
\<close>

record 's respace_cr =
  cr_seg_x :: qreal
  cr_rxpos :: qreal
  cr_ticks :: tick
  cr_shape :: 's

definition respace_widths :: "('s \<Rightarrow> 's \<Rightarrow> qreal) \<Rightarrow> 's respace_cr list \<Rightarrow> qreal list" where
  "respace_widths mhd crs =
     map (\<lambda>(cr, ncr). mhd (cr_shape cr) (cr_shape ncr)) (zip crs (tl crs))"

definition respace_min_tick :: "tick list \<Rightarrow> tick" where
  "respace_min_tick ts = foldl min 100000 ts"

definition stretch_coeff :: "tick \<Rightarrow> tick \<Rightarrow> qreal" where
  "stretch_coeff t minTick = 1 + 0.865617 * ln (real_of_int t / real_of_int minTick)"

definition respace_spring :: "qreal list \<Rightarrow> qreal list \<Rightarrow> nat \<Rightarrow> qreal \<times> spring" where
  "respace_spring ws strs i =
     (ws ! i / strs ! i,
      \<lparr>spring_seg = i, spring_stretch = strs ! i, spring_fix = ws ! i\<rparr>)"

definition respace_springs :: "qreal list \<Rightarrow> qreal list \<Rightarrow> spring_map" where
  "respace_springs ws strs =
     foldl (\<lambda>m i. spring_insert (respace_spring ws strs i) m) [] [0..<length ws]"

text \<open>The final loop: \<open>x += width[i-1]\<close>, then the chord/rest moves by \<open>x - segment x\<close>.\<close>

fun respace_place :: "qreal \<Rightarrow> qreal list \<Rightarrow> 's respace_cr list \<Rightarrow> 's respace_cr list" where
  "respace_place x (w # ws) (cr # crs) =
     (let x' = x + w
      in cr\<lparr>cr_rxpos := cr_rxpos cr + (x' - cr_seg_x cr)\<rparr> # respace_place x' ws crs)"
| "respace_place x _ _ = []"

definition respace :: "('s \<Rightarrow> 's \<Rightarrow> qreal) \<Rightarrow> 's respace_cr list \<Rightarrow> 's respace_cr list option" where
  "respace mhd crs =
     (if crs = [] then None
      else
        let x1 = cr_seg_x (hd crs);
            x2 = cr_seg_x (last crs);
            ws = respace_widths mhd crs;
            ts = map cr_ticks (butlast crs);
            minTick = respace_min_tick ts;
            strs = map (\<lambda>t. stretch_coeff t minTick) ts;
            springs = respace_springs ws strs;
            minimum = sum_list ws
        in case sff2 (x2 - x1) minimum springs of
             None \<Rightarrow> None
           | Some force \<Rightarrow>
               let ws' = spring_distribute force springs ws
               in Some (if length crs < 2 then crs
                        else hd crs # respace_place x1 ws' (butlast (tl crs)) @ [last crs]))"

text \<open>
  A map entry is keyed as \<open>respace\<close> keys it: the key is \<open>fix / stretch\<close>
  (so \<open>key * stretch = fix\<close>) and the coefficient is positive.
\<close>

definition spring_keyed :: "qreal \<times> spring \<Rightarrow> bool" where
  "spring_keyed ks \<longleftrightarrow> fst ks * spring_stretch (snd ks) = spring_fix (snd ks) \<and> 0 < spring_stretch (snd ks)"

subsection \<open>The spring map is sorted and holds every spring once\<close>

lemma mset_spring_insert [simp]: "mset (spring_insert x xs) = add_mset x (mset xs)"
  by (induction xs) auto

lemma set_spring_insert [simp]: "set (spring_insert x xs) = insert x (set xs)"
  by (induction xs) auto

lemma sorted_spring_insert [layout_simps]:
  "sorted (map fst xs) \<Longrightarrow> sorted (map fst (spring_insert x xs))"
  by (induction xs) auto

lemma mset_respace_springs:
  "mset (respace_springs ws strs) = mset (map (respace_spring ws strs) [0..<length ws])"
proof -
  have "\<And>n. mset (foldl (\<lambda>m i. spring_insert (respace_spring ws strs i) m) [] [0..<n]) =
            mset (map (respace_spring ws strs) [0..<n])"
  proof -
    fix n show "mset (foldl (\<lambda>m i. spring_insert (respace_spring ws strs i) m) [] [0..<n]) =
                mset (map (respace_spring ws strs) [0..<n])"
      by (induction n) auto
  qed
  then show ?thesis by (simp add: respace_springs_def)
qed

lemma sorted_respace_springs: "sorted (map fst (respace_springs ws strs))"
proof -
  have "\<And>n. sorted (map fst (foldl (\<lambda>m i. spring_insert (respace_spring ws strs i) m) [] [0..<n]))"
  proof -
    fix n show "sorted (map fst (foldl (\<lambda>m i. spring_insert (respace_spring ws strs i) m) [] [0..<n]))"
      by (induction n) (auto simp: sorted_spring_insert)
  qed
  then show ?thesis by (simp add: respace_springs_def)
qed

lemma spring_width_stretched:
  "spring_keyed (k, s) \<Longrightarrow> k \<le> f \<Longrightarrow> spring_width f s = f * spring_stretch s"
  unfolding spring_keyed_def spring_width_def Let_def
  using mult_right_mono [of k f "spring_stretch s"] by auto

lemma spring_width_fixed:
  "spring_keyed (k, s) \<Longrightarrow> f \<le> k \<Longrightarrow> spring_width f s = spring_fix s"
proof -
  assume a: "spring_keyed (k, s)" "f \<le> k"
  then have "f * spring_stretch s \<le> spring_fix s"
    unfolding spring_keyed_def using mult_right_mono [of f k "spring_stretch s"] by auto
  then show ?thesis unfolding spring_width_def Let_def by auto
qed

lemma sum_spring_width_fixed:
  "\<forall>x \<in> set xs. spring_keyed x \<and> f \<le> fst x \<Longrightarrow>
   (\<Sum>x\<leftarrow>xs. spring_width f (snd x)) = (\<Sum>x\<leftarrow>xs. spring_fix (snd x))"
proof (induction xs)
  case Nil
  then show ?case by simp
next
  case (Cons x xs)
  then have "spring_width f (snd x) = spring_fix (snd x)"
    using spring_width_fixed [of "fst x" "snd x" f] by simp
  with Cons show ?case by simp
qed

lemma sff2_loop_fills:
  assumes "sorted (map fst ((k, s) # rest))"
    and "\<forall>x \<in> set ((k, s) # rest). spring_keyed x"
    and "0 \<le> C" and "k * C \<le> width - xm"
    and "xm = (\<Sum>x\<leftarrow>(k, s) # rest. spring_fix (snd x))"
  shows "k \<le> sff2_loop width xm (C + spring_stretch s) ((k, s) # rest) \<and>
         sff2_loop width xm (C + spring_stretch s) ((k, s) # rest) * C +
         (\<Sum>x\<leftarrow>(k, s) # rest. spring_width (sff2_loop width xm (C + spring_stretch s) ((k, s) # rest)) (snd x))
           = width"
  using assms
proof (induction rest arbitrary: k s xm C)
  case Nil
  let ?f = "(width - (xm - spring_fix s)) / (C + spring_stretch s)"
  have ks: "spring_keyed (k, s)" using Nil.prems(2) by simp
  then have pos: "0 < C + spring_stretch s" using Nil.prems(3) unfolding spring_keyed_def by simp
  have xm: "xm = spring_fix s" using Nil.prems(5) by simp
  have fC: "?f * (C + spring_stretch s) = width" using pos xm by simp
  have "k * (C + spring_stretch s) \<le> width - (xm - spring_fix s)"
    using Nil.prems(4) ks unfolding spring_keyed_def by (simp add: distrib_left)
  then have kf: "k \<le> ?f" using pos by (simp add: pos_le_divide_eq)
  have "spring_width ?f s = ?f * spring_stretch s" using spring_width_stretched [OF ks kf] .
  then show ?case using kf fC by (simp add: distrib_left)
next
  case (Cons j rest)
  obtain k' s' where j: "j = (k', s')" by fastforce
  let ?f0 = "(width - (xm - spring_fix s)) / (C + spring_stretch s)"
  have ks: "spring_keyed (k, s)" using Cons.prems(2) by simp
  then have pos: "0 < C + spring_stretch s" using Cons.prems(3) unfolding spring_keyed_def by simp
  have f0C: "?f0 * (C + spring_stretch s) = width - xm + spring_fix s" using pos by simp
  have "k * (C + spring_stretch s) \<le> width - (xm - spring_fix s)"
    using Cons.prems(4) ks unfolding spring_keyed_def by (simp add: distrib_left)
  then have kf0: "k \<le> ?f0" using pos by (simp add: pos_le_divide_eq)
  have xm: "xm - spring_fix s = (\<Sum>x\<leftarrow>j # rest. spring_fix (snd x))" using Cons.prems(5) by simp
  define L where "L = (k', s') # rest"
  have jL: "j # rest = L" using j L_def by simp
  have xmL: "xm - spring_fix s = (\<Sum>x\<leftarrow>L. spring_fix (snd x))" using xm jL by simp
  have e0: "?f0 * C + ?f0 * spring_stretch s = width - xm + spring_fix s"
    using f0C by (simp only: distrib_left)
  show ?case
  proof (cases "?f0 \<le> k'")
    case True
    have loop: "sff2_loop width xm (C + spring_stretch s) ((k, s) # L) = ?f0"
      using True j jL [symmetric] by (simp add: Let_def)
    have "\<forall>x \<in> set L. spring_keyed x \<and> ?f0 \<le> fst x"
      using True Cons.prems(1,2) jL [symmetric] L_def by auto
    then have sw_rest: "(\<Sum>x\<leftarrow>L. spring_width ?f0 (snd x)) = xm - spring_fix s"
      unfolding xmL by (rule sum_spring_width_fixed)
    have sw_s: "spring_width ?f0 s = ?f0 * spring_stretch s" using spring_width_stretched [OF ks kf0] .
    have "sff2_loop width xm (C + spring_stretch s) ((k, s) # L) * C +
          (\<Sum>x\<leftarrow>(k, s) # L. spring_width (sff2_loop width xm (C + spring_stretch s) ((k, s) # L)) (snd x))
          = ?f0 * C + (?f0 * spring_stretch s + (xm - spring_fix s))"
      by (simp only: loop list.map sum_list.Cons snd_conv sw_s sw_rest)
    also have "\<dots> = width" using e0 by linarith
    finally show ?thesis using loop kf0 unfolding jL by simp
  next
    case False
    let ?f = "sff2_loop width (xm - spring_fix s) ((C + spring_stretch s) + spring_stretch s') L"
    have loop: "sff2_loop width xm (C + spring_stretch s) ((k, s) # L) = ?f"
      using False j jL [symmetric] by (simp add: Let_def)
    have "k' * (C + spring_stretch s) < width - (xm - spring_fix s)"
      using False pos by (simp add: not_le pos_less_divide_eq)
    moreover have "0 \<le> C + spring_stretch s" using pos by simp
    moreover have "sorted (map fst ((k', s') # rest))" using Cons.prems(1) j by simp
    moreover have "\<forall>x \<in> set ((k', s') # rest). spring_keyed x" using Cons.prems(2) j by simp
    ultimately have IH: "k' \<le> ?f \<and> ?f * (C + spring_stretch s) + (\<Sum>x\<leftarrow>L. spring_width ?f (snd x)) = width"
      using Cons.IH [of k' s' "C + spring_stretch s" "xm - spring_fix s"] xmL unfolding L_def by simp
    have "k \<le> k'" using Cons.prems(1) j by simp
    then have kf: "k \<le> ?f" using IH by simp
    have sw_s: "spring_width ?f s = ?f * spring_stretch s" using spring_width_stretched [OF ks kf] .
    have "sff2_loop width xm (C + spring_stretch s) ((k, s) # L) * C +
          (\<Sum>x\<leftarrow>(k, s) # L. spring_width (sff2_loop width xm (C + spring_stretch s) ((k, s) # L)) (snd x))
          = ?f * (C + spring_stretch s) + (\<Sum>x\<leftarrow>L. spring_width ?f (snd x))"
      by (simp only: loop list.map sum_list.Cons snd_conv sw_s) (simp only: distrib_left add.assoc)
    also have "\<dots> = width" using IH by simp
    finally show ?thesis using loop kf unfolding jL by simp
  qed
qed

lemma sff2_fills_width:
  assumes "sorted (map fst springs)" and "\<forall>x \<in> set springs. spring_keyed x"
    and "springs \<noteq> []" and "xMin = (\<Sum>x\<leftarrow>springs. spring_fix (snd x))" and "xMin < width"
  shows "\<exists>f. sff2 width xMin springs = Some f \<and> (\<Sum>x\<leftarrow>springs. spring_width f (snd x)) = width"
proof -
  obtain k s rest where sp: "springs = (k, s) # rest" using assms(3) by (cases springs) auto
  have "spring_keyed (k, s)" using assms(2) sp by simp
  then have pos: "0 < spring_stretch s" unfolding spring_keyed_def by simp
  have eq: "sff2 width xMin springs = Some (sff2_loop width xMin (0 + spring_stretch s) springs)"
    using assms(5) pos sp by (simp add: sff2_def)
  have "k \<le> sff2_loop width xMin (0 + spring_stretch s) ((k, s) # rest) \<and>
        sff2_loop width xMin (0 + spring_stretch s) ((k, s) # rest) * 0 +
        (\<Sum>x\<leftarrow>(k, s) # rest. spring_width (sff2_loop width xMin (0 + spring_stretch s) ((k, s) # rest)) (snd x))
          = width"
    using assms(1,2,4,5) sp by (intro sff2_loop_fills) auto
  with eq sp show ?thesis by auto
qed

lemma foldl_min_le_init: "foldl min (a::int) ts \<le> a"
proof (induction ts arbitrary: a)
  case Nil
  then show ?case by simp
next
  case (Cons u ts)
  have "foldl min (min a u) ts \<le> min a u" by (rule Cons.IH)
  then show ?case by simp
qed

lemma foldl_min_le: "t \<in> set ts \<Longrightarrow> foldl min (a::int) ts \<le> t"
proof (induction ts arbitrary: a)
  case Nil
  then show ?case by simp
next
  case (Cons u ts)
  show ?case
  proof (cases "t = u")
    case True
    have "foldl min (min a u) ts \<le> min a u" by (rule foldl_min_le_init)
    with True show ?thesis by simp
  next
    case False
    with Cons show ?thesis by simp
  qed
qed

lemma foldl_min_pos: "0 < (a::int) \<Longrightarrow> \<forall>t \<in> set ts. 0 < t \<Longrightarrow> 0 < foldl min a ts"
  by (induction ts arbitrary: a) auto

lemma stretch_coeff_ge_1: "0 < m \<Longrightarrow> m \<le> t \<Longrightarrow> 1 \<le> stretch_coeff t m"
proof -
  assume m: "0 < m" "m \<le> t"
  then have "1 \<le> real_of_int t / real_of_int m" by simp
  then have "0 \<le> ln (real_of_int t / real_of_int m)" by simp
  then show ?thesis unfolding stretch_coeff_def by simp
qed

lemma respace_strs_pos:
  assumes "\<forall>t \<in> set ts. 0 < t"
  shows "\<forall>x \<in> set (map (\<lambda>t. stretch_coeff t (respace_min_tick ts)) ts). 0 < x"
proof
  fix x assume "x \<in> set (map (\<lambda>t. stretch_coeff t (respace_min_tick ts)) ts)"
  then obtain t where t: "t \<in> set ts" "x = stretch_coeff t (respace_min_tick ts)" by auto
  have "0 < respace_min_tick ts" unfolding respace_min_tick_def using assms by (simp add: foldl_min_pos)
  moreover have "respace_min_tick ts \<le> t" unfolding respace_min_tick_def using t(1) by (rule foldl_min_le)
  ultimately have "1 \<le> x" using t(2) by (simp add: stretch_coeff_ge_1)
  then show "0 < x" by simp
qed

lemma respace_springs_keyed:
  assumes "length strs = length ws" and "\<forall>x \<in> set strs. 0 < x"
  shows "\<forall>x \<in> set (respace_springs ws strs). spring_keyed x"
proof
  fix x assume "x \<in> set (respace_springs ws strs)"
  then have "x \<in># mset (map (respace_spring ws strs) [0..<length ws])"
    by (simp only: mset_respace_springs [symmetric] in_multiset_in_set)
  then obtain i where i: "i < length ws" "x = respace_spring ws strs i" by auto
  have "0 < strs ! i" using assms i(1) by simp
  then show "spring_keyed x" using i(2) unfolding spring_keyed_def respace_spring_def by simp
qed

lemma respace_spring_segs:
  "map (\<lambda>(k, s). (spring_seg s, spring_width f s)) (map (respace_spring ws strs) [0..<n])
   = map (\<lambda>i. (i, spring_width f (snd (respace_spring ws strs i)))) [0..<n]"
  by (simp add: respace_spring_def)

lemma spring_distribute_respace:
  assumes "i < length ws"
  shows "spring_distribute f (respace_springs ws strs) ws ! i = spring_width f (snd (respace_spring ws strs i))"
proof -
  let ?ups = "map (\<lambda>(k, s). (spring_seg s, spring_width f s)) (respace_springs ws strs)"
  let ?ref = "map (\<lambda>i. (i, spring_width f (snd (respace_spring ws strs i)))) [0..<length ws]"
  have m: "mset ?ups = mset ?ref"
    by (simp only: mset_map mset_respace_springs respace_spring_segs [symmetric])
  have "mset (map fst ?ups) = image_mset fst (mset ?ups)" by (rule mset_map)
  also have "\<dots> = image_mset fst (mset ?ref)" by (simp only: m)
  also have "\<dots> = mset (map fst ?ref)" by (rule mset_map [symmetric])
  finally have "mset (map fst ?ups) = mset (map fst ?ref)" .
  moreover have "map fst ?ref = [0..<length ws]"
    by (simp add: comp_def)
  ultimately have "distinct (map fst ?ups)"
    using mset_eq_imp_distinct_iff by fastforce
  moreover have "(i, spring_width f (snd (respace_spring ws strs i))) \<in> set ?ref"
    using assms by simp
  then have "(i, spring_width f (snd (respace_spring ws strs i))) \<in> set ?ups"
    using mset_eq_setD [OF m] by simp
  ultimately show ?thesis unfolding spring_distribute_def using assms by (rule fold_update_nth)
qed

lemma spring_width_ge_fix: "spring_fix s \<le> spring_width f s"
  unfolding spring_width_def Let_def by simp

lemma spring_distribute_respace_list:
  "spring_distribute f (respace_springs ws strs) ws =
   map (\<lambda>i. spring_width f (snd (respace_spring ws strs i))) [0..<length ws]"
proof (rule nth_equalityI)
  show "length (spring_distribute f (respace_springs ws strs) ws) =
        length (map (\<lambda>i. spring_width f (snd (respace_spring ws strs i))) [0..<length ws])"
    by (simp add: spring_distribute_def)
next
  fix i assume "i < length (spring_distribute f (respace_springs ws strs) ws)"
  then have "i < length ws" by (simp add: spring_distribute_def)
  then show "spring_distribute f (respace_springs ws strs) ws ! i =
             map (\<lambda>i. spring_width f (snd (respace_spring ws strs i))) [0..<length ws] ! i"
    by (simp add: spring_distribute_respace)
qed

lemma sum_respace_springs:
  fixes g :: "spring \<Rightarrow> 'a::comm_monoid_add"
  shows "(\<Sum>x\<leftarrow>respace_springs ws strs. g (snd x)) = (\<Sum>i\<leftarrow>[0..<length ws]. g (snd (respace_spring ws strs i)))"
proof -
  have "(\<Sum>x\<leftarrow>respace_springs ws strs. g (snd x)) = (\<Sum>x\<leftarrow>map (respace_spring ws strs) [0..<length ws]. g (snd x))"
    by (rule sum_list_map_mset) (rule mset_respace_springs)
  then show ?thesis by (simp add: comp_def)
qed

lemma sum_respace_springs_fix:
  "(\<Sum>x\<leftarrow>respace_springs ws strs. spring_fix (snd x)) = sum_list ws"
proof -
  have "(\<Sum>i\<leftarrow>[0..<length ws]. spring_fix (snd (respace_spring ws strs i))) = sum_list (map (\<lambda>i. ws ! i) [0..<length ws])"
    by (simp add: respace_spring_def)
  also have "\<dots> = sum_list ws" by (simp add: map_nth)
  finally show ?thesis by (simp add: sum_respace_springs)
qed

lemma length_respace_place [simp]:
  "length (respace_place x ws crs) = min (length ws) (length crs)"
  by (induction x ws crs rule: respace_place.induct) (auto simp: Let_def)

lemma respace_place_nth:
  "i < length ws \<Longrightarrow> i < length crs \<Longrightarrow>
   respace_place x ws crs ! i =
     (crs ! i)\<lparr>cr_rxpos := cr_rxpos (crs ! i) + (x + sum_list (take (Suc i) ws) - cr_seg_x (crs ! i))\<rparr>"
proof (induction x ws crs arbitrary: i rule: respace_place.induct)
  case (1 x w ws cr crs)
  then show ?case by (cases i) (simp_all add: Let_def algebra_simps)
qed auto

lemma length_respace_widths [simp]: "length (respace_widths mhd crs) = length crs - 1"
  by (simp add: respace_widths_def)

lemma respace_Some:
  assumes "2 \<le> length crs"
    and "sff2 (cr_seg_x (last crs) - cr_seg_x (hd crs)) (sum_list (respace_widths mhd crs))
           (respace_springs (respace_widths mhd crs)
              (map (\<lambda>t. stretch_coeff t (respace_min_tick (map cr_ticks (butlast crs)))) (map cr_ticks (butlast crs))))
         = Some f"
  shows "respace mhd crs =
           Some (hd crs # respace_place (cr_seg_x (hd crs))
                   (spring_distribute f (respace_springs (respace_widths mhd crs)
                      (map (\<lambda>t. stretch_coeff t (respace_min_tick (map cr_ticks (butlast crs)))) (map cr_ticks (butlast crs))))
                    (respace_widths mhd crs))
                   (butlast (tl crs)) @ [last crs])"
proof -
  have ne: "(crs = []) = False" using assms(1) by auto
  have n2: "(length crs < 2) = False" using assms(1) by simp
  show ?thesis
    unfolding respace_def Let_def by (simp only: ne n2 if_False assms(2) option.case)
qed

text \<open>
  C1 (conservation of width, no collision).  When the segment of the last chord/rest
  lies further from the first than the sum of the minimum distances between
  neighbours, and every chord/rest but the last has a positive duration,
  \<open>respace\<close> returns; the gaps it distributes are each at least the minimum
  distance, they add up to exactly the distance from the first to the last segment,
  the first and the last chord/rest stay where they are, and every chord/rest in
  between is moved by the difference between its segment's position and the prefix sum
  of the gaps before it.
\<close>

theorem respace_conserves_width:
  assumes n: "2 \<le> length crs"
    and ticks: "\<forall>cr \<in> set (butlast crs). 0 < cr_ticks cr"
    and wide: "sum_list (respace_widths mhd crs) < cr_seg_x (last crs) - cr_seg_x (hd crs)"
  shows "\<exists>crs' ws'. respace mhd crs = Some crs' \<and> length crs' = length crs \<and>
           length ws' = length crs - 1 \<and>
           sum_list ws' = cr_seg_x (last crs) - cr_seg_x (hd crs) \<and>
           (\<forall>i < length crs - 1. respace_widths mhd crs ! i \<le> ws' ! i) \<and>
           hd crs' = hd crs \<and> last crs' = last crs \<and>
           (\<forall>i. 0 < i \<and> i < length crs - 1 \<longrightarrow>
              crs' ! i = (crs ! i)\<lparr>cr_rxpos := cr_rxpos (crs ! i) +
                 (cr_seg_x (hd crs) + sum_list (take i ws') - cr_seg_x (crs ! i))\<rparr>)"
proof -
  define x1 where "x1 = cr_seg_x (hd crs)"
  define x2 where "x2 = cr_seg_x (last crs)"
  define ws where "ws = respace_widths mhd crs"
  define ts where "ts = map cr_ticks (butlast crs)"
  define strs where "strs = map (\<lambda>t. stretch_coeff t (respace_min_tick ts)) ts"
  define springs where "springs = respace_springs ws strs"
  have lws: "length ws = length crs - 1" by (simp add: ws_def)
  have lstrs: "length strs = length ws" by (simp add: strs_def ts_def lws)
  have "\<forall>t \<in> set ts. 0 < t" using ticks by (simp add: ts_def)
  then have spos: "\<forall>x \<in> set strs. 0 < x" unfolding strs_def by (rule respace_strs_pos)
  have keyed: "\<forall>x \<in> set springs. spring_keyed x"
    unfolding springs_def using lstrs spos by (rule respace_springs_keyed)
  have "mset springs = mset (map (respace_spring ws strs) [0..<length ws])"
    by (simp add: springs_def mset_respace_springs)
  then have "length springs = length (map (respace_spring ws strs) [0..<length ws])"
    by (rule mset_eq_length)
  then have "length springs = length ws" by simp
  then have "springs \<noteq> []" using n lws by auto
  moreover have "sum_list ws = (\<Sum>x\<leftarrow>springs. spring_fix (snd x))"
    by (simp add: springs_def sum_respace_springs_fix)
  moreover have "sum_list ws < x2 - x1" using wide by (simp add: ws_def x1_def x2_def)
  moreover have "sorted (map fst springs)" by (simp add: springs_def sorted_respace_springs)
  ultimately obtain f where f: "sff2 (x2 - x1) (sum_list ws) springs = Some f"
      and fill: "(\<Sum>x\<leftarrow>springs. spring_width f (snd x)) = x2 - x1"
    using sff2_fills_width [of springs "sum_list ws" "x2 - x1"] keyed by auto
  define ws' where "ws' = spring_distribute f springs ws"
  have ws'_eq: "ws' = map (\<lambda>i. spring_width f (snd (respace_spring ws strs i))) [0..<length ws]"
    by (simp add: ws'_def springs_def spring_distribute_respace_list)
  have lws': "length ws' = length crs - 1" by (simp add: ws'_eq lws)
  have sum': "sum_list ws' = x2 - x1"
    using fill by (simp add: ws'_eq springs_def sum_respace_springs)
  have ge: "\<forall>i < length crs - 1. ws ! i \<le> ws' ! i"
    using lws by (simp add: ws'_eq respace_spring_def spring_width_def Let_def)
  define mid where "mid = respace_place x1 ws' (butlast (tl crs))"
  have res: "respace mhd crs = Some (hd crs # mid @ [last crs])"
    unfolding mid_def ws'_def springs_def strs_def ts_def ws_def x1_def
    by (rule respace_Some [OF n f [unfolded x1_def x2_def ws_def springs_def strs_def ts_def]])
  have lmid: "length mid = length crs - 2" by (simp add: mid_def lws')
  have pos: "(hd crs # mid @ [last crs]) ! i =
               (crs ! i)\<lparr>cr_rxpos := cr_rxpos (crs ! i) + (x1 + sum_list (take i ws') - cr_seg_x (crs ! i))\<rparr>"
    if i0: "0 < i" and i1: "i < length crs - 1" for i
  proof -
    obtain j where j: "i = Suc j" using i0 by (cases i) simp_all
    have "j < length mid" using i1 j lmid by simp
    then have "(hd crs # mid @ [last crs]) ! i = mid ! j" using j by (simp add: nth_append)
    also have "\<dots> = (butlast (tl crs) ! j)\<lparr>cr_rxpos := cr_rxpos (butlast (tl crs) ! j) +
                       (x1 + sum_list (take (Suc j) ws') - cr_seg_x (butlast (tl crs) ! j))\<rparr>"
      unfolding mid_def using i1 j lws' by (intro respace_place_nth) simp_all
    also have "butlast (tl crs) ! j = crs ! i"
      using i1 j by (simp add: nth_butlast nth_tl)
    finally show ?thesis using j by simp
  qed
  show ?thesis
  proof (intro exI conjI)
    show "respace mhd crs = Some (hd crs # mid @ [last crs])" by (rule res)
    show "length (hd crs # mid @ [last crs]) = length crs" using lmid n by simp
    show "length ws' = length crs - 1" by (rule lws')
    show "sum_list ws' = cr_seg_x (last crs) - cr_seg_x (hd crs)" using sum' by (simp add: x1_def x2_def)
    show "\<forall>i < length crs - 1. respace_widths mhd crs ! i \<le> ws' ! i" using ge by (simp add: ws_def)
    show "hd (hd crs # mid @ [last crs]) = hd crs" by simp
    show "last (hd crs # mid @ [last crs]) = last crs" by simp
    show "\<forall>i. 0 < i \<and> i < length crs - 1 \<longrightarrow>
            (hd crs # mid @ [last crs]) ! i = (crs ! i)\<lparr>cr_rxpos := cr_rxpos (crs ! i) +
                 (cr_seg_x (hd crs) + sum_list (take i ws') - cr_seg_x (crs ! i))\<rparr>"
      using pos by (simp add: x1_def)
  qed
qed

theorem respace_conserves_width_witness:
  "2 \<le> length [\<lparr>cr_seg_x = 0, cr_rxpos = 0, cr_ticks = 480, cr_shape = 0::real\<rparr>,
               \<lparr>cr_seg_x = 10, cr_rxpos = 0, cr_ticks = 480, cr_shape = 4\<rparr>,
               \<lparr>cr_seg_x = 30, cr_rxpos = 0, cr_ticks = 480, cr_shape = 8\<rparr>] \<and>
   (\<exists>crs' ws'. respace (\<lambda>a b. b - a)
      [\<lparr>cr_seg_x = 0, cr_rxpos = 0, cr_ticks = 480, cr_shape = 0::real\<rparr>,
       \<lparr>cr_seg_x = 10, cr_rxpos = 0, cr_ticks = 480, cr_shape = 4\<rparr>,
       \<lparr>cr_seg_x = 30, cr_rxpos = 0, cr_ticks = 480, cr_shape = 8\<rparr>] = Some crs' \<and>
      sum_list ws' = (30::real))"
proof -
  define crs where "crs = [\<lparr>cr_seg_x = 0, cr_rxpos = 0, cr_ticks = 480, cr_shape = 0::real\<rparr>,
               \<lparr>cr_seg_x = 10, cr_rxpos = 0, cr_ticks = 480, cr_shape = 4\<rparr>,
               \<lparr>cr_seg_x = 30, cr_rxpos = 0, cr_ticks = 480, cr_shape = 8\<rparr>]"
  have h1: "2 \<le> length crs" by (simp add: crs_def)
  have h2: "\<forall>cr \<in> set (butlast crs). 0 < cr_ticks cr" by (simp add: crs_def)
  have h3: "sum_list (respace_widths (\<lambda>a b. b - a) crs) < cr_seg_x (last crs) - cr_seg_x (hd crs)"
    by (simp add: crs_def respace_widths_def)
  obtain crs' ws' where "respace (\<lambda>a b. b - a) crs = Some crs'"
      and "sum_list ws' = cr_seg_x (last crs) - cr_seg_x (hd crs)"
    using respace_conserves_width [OF h1 h2 h3] by blast
  moreover have "cr_seg_x (last crs) - cr_seg_x (hd crs) = 30" by (simp add: crs_def)
  ultimately show ?thesis using h1 unfolding crs_def by auto
qed

end
