(* ===== verification/Chord_Mirror.thy ===== *)
theory Chord_Mirror
  imports Layout_Prelude
begin

text \<open>
  Notehead mirroring, \<open>Score::layoutChords2\<close> of \<open>layout.cpp\<close>.  The notes of
  all chords of one stem direction on one staff are laid out as one chord: they are
  visited bottom-up for up-stem chords and top-down for down-stem chords (the caller
  sorts them by descending line), and a note that is on the same or the adjacent line
  as the previous visible note on the same staff (a second or a unison) goes to the
  other side of the stem.  A note's side is whether its head is left of the stem:
  unmirrored heads of up-stem chords and mirrored heads of down-stem chords.  The loop
  variables of the C++ (\<open>ll\<close>, \<open>lvisible\<close>, \<open>mirror\<close>, \<open>isLeft\<close>,
  \<open>lmove\<close>, \<open>maxWidth\<close>) are the record \<open>lc2_state\<close>; one iteration is
  \<open>lc2_step\<close>.
\<close>

text \<open>\<open>MScore::DirectionH\<close>: the user's mirror property of a note.\<close>

datatype direction_h = DH_AUTO | DH_LEFT | DH_RIGHT

text \<open>
  The note fields the chord layout reads and writes; \<open>note_chord_up\<close> and
  \<open>note_staff_move\<close> are \<open>note->chord()->up()\<close> and
  \<open>note->chord()->staffMove()\<close>.
\<close>

record chord_note =
  note_line :: staff_line
  note_visible :: bool
  note_user_mirror :: direction_h
  note_head_width :: qreal
  note_chord_up :: bool
  note_staff_move :: int
  note_mirror :: bool
  note_hidden :: bool
  note_dots_hidden :: bool

record lc2_state =
  lc2_ll :: staff_line
  lc2_lvisible :: bool
  lc2_mirror :: bool
  lc2_is_left :: bool
  lc2_lmove :: int
  lc2_max_width :: qreal

definition lc2_step :: "lc2_state \<Rightarrow> 'a chord_note_scheme \<Rightarrow> lc2_state \<times> 'a chord_note_scheme" where
  "lc2_step st n =
     (let line = note_line n;
          up = note_chord_up n;
          move = note_staff_move n;
          conflict = \<bar>lc2_ll st - line\<bar> < 2 \<and> lc2_lmove st = move \<and> note_visible n \<and> lc2_lvisible st;
          isLeft = (if conflict \<or> up \<noteq> lc2_is_left st then \<not> lc2_is_left st else lc2_is_left st);
          nmirror = (up \<noteq> isLeft);
          mirror = (if note_user_mirror n = DH_AUTO then nmirror
                    else if note_user_mirror n = DH_LEFT then \<not> up else up);
          n' = n\<lparr>note_hidden := False, note_dots_hidden := False, note_mirror := mirror\<rparr>;
          maxWidth = (if \<not> mirror then max (lc2_max_width st) (note_head_width n) else lc2_max_width st)
      in (\<lparr>lc2_ll = line, lc2_lvisible = note_visible n, lc2_mirror = mirror,
           lc2_is_left = isLeft, lc2_lmove = move, lc2_max_width = maxWidth\<rparr>, n'))"

fun lc2_run :: "lc2_state \<Rightarrow> 'a chord_note_scheme list \<Rightarrow> lc2_state \<times> 'a chord_note_scheme list" where
  "lc2_run st [] = (st, [])"
| "lc2_run st (n # ns) =
     (let r = lc2_step st n;
          rest = lc2_run (fst r) ns
      in (fst rest, snd r # snd rest))"

text \<open>
  \<open>layoutChords2\<close> reads \<open>notes[startIdx]\<close> before the loop: on an empty list
  that is undefined behaviour (\<open>None\<close>); no caller passes one.  The first note's
  chord gives the initial side and staff move; \<open>ll = 1000\<close> and
  \<open>lvisible = false\<close> make the first note conflict-free.
\<close>

definition layoutChords2 :: "'a chord_note_scheme list \<Rightarrow> bool \<Rightarrow> (qreal \<times> 'a chord_note_scheme list) option" where
  "layoutChords2 notes up =
     (if notes = [] then None
      else
        let order = (if up then notes else rev notes);
            st0 = \<lparr>lc2_ll = 1000, lc2_lvisible = False, lc2_mirror = False,
                   lc2_is_left = note_chord_up (hd order), lc2_lmove = note_staff_move (hd order),
                   lc2_max_width = 0\<rparr>;
            (st, ns) = lc2_run st0 order
        in Some (lc2_max_width st, if up then ns else rev ns))"

text \<open>The side of the stem a laid-out head is on: \<open>True\<close> for the left.\<close>

definition note_side :: "'a chord_note_scheme \<Rightarrow> bool" where
  "note_side n \<longleftrightarrow> note_chord_up n \<noteq> note_mirror n"

definition lc2_conflict :: "'a chord_note_scheme \<Rightarrow> 'b chord_note_scheme \<Rightarrow> bool" where
  "lc2_conflict a b \<longleftrightarrow>
     \<bar>note_line a - note_line b\<bar> < 2 \<and> note_staff_move a = note_staff_move b \<and>
     note_visible a \<and> note_visible b"

text \<open>The visiting order: the note laid out just before note \<open>i\<close>, if any.\<close>

definition lc2_prev :: "nat \<Rightarrow> bool \<Rightarrow> nat \<Rightarrow> nat option" where
  "lc2_prev n up i =
     (if up then (if i = 0 then None else Some (i - 1))
      else (if Suc i < n then Some (Suc i) else None))"

subsection \<open>Properties\<close>

lemma length_lc2_run [simp]: "length (snd (lc2_run st ns)) = length ns"
  by (induction st ns rule: lc2_run.induct) (auto simp: Let_def)

lemma lc2_run_Cons_fst: "fst (lc2_run st (n # ns)) = fst (lc2_run (fst (lc2_step st n)) ns)"
  by (simp add: Let_def)

lemma lc2_run_Cons_snd: "snd (lc2_run st (n # ns)) = snd (lc2_step st n) # snd (lc2_run (fst (lc2_step st n)) ns)"
  by (simp add: Let_def)

text \<open>The state before the \<open>i\<close>-th note is the run over the notes before it.\<close>

lemma lc2_run_nth:
  "i < length ns \<Longrightarrow>
   snd (lc2_run st ns) ! i = snd (lc2_step (fst (lc2_run st (take i ns))) (ns ! i))"
proof (induction ns arbitrary: st i)
  case Nil
  then show ?case by simp
next
  case (Cons n ns)
  then show ?case
    by (cases i) (simp_all add: Let_def)
qed

lemma lc2_run_take_Suc:
  "i < length ns \<Longrightarrow>
   fst (lc2_run st (take (Suc i) ns)) = fst (lc2_step (fst (lc2_run st (take i ns))) (ns ! i))"
proof (induction ns arbitrary: st i)
  case Nil
  then show ?case by simp
next
  case (Cons n ns)
  then show ?case
    by (cases i) (simp_all add: Let_def)
qed

lemma lc2_step_fields:
  "lc2_ll (fst (lc2_step st n)) = note_line n"
  "lc2_lvisible (fst (lc2_step st n)) = note_visible n"
  "lc2_lmove (fst (lc2_step st n)) = note_staff_move n"
  by (simp_all add: lc2_step_def Let_def)

lemma lc2_step_auto_side:
  "note_user_mirror n = DH_AUTO \<Longrightarrow>
   note_side (snd (lc2_step st n)) = lc2_is_left (fst (lc2_step st n))"
  by (auto simp: lc2_step_def Let_def note_side_def)

lemma lc2_step_conflict_flips:
  "lc2_ll st = note_line a \<Longrightarrow> lc2_lvisible st = note_visible a \<Longrightarrow>
   lc2_lmove st = note_staff_move a \<Longrightarrow> lc2_conflict a b \<Longrightarrow>
   lc2_is_left (fst (lc2_step st b)) = (\<not> lc2_is_left st)"
  by (auto simp: lc2_step_def Let_def lc2_conflict_def)

lemma lc2_run_seconds_split:
  assumes "Suc i < length ns" and "lc2_conflict (ns ! i) (ns ! Suc i)"
    and "note_user_mirror (ns ! i) = DH_AUTO" and "note_user_mirror (ns ! Suc i) = DH_AUTO"
  shows "note_side (snd (lc2_run st ns) ! i) \<noteq> note_side (snd (lc2_run st ns) ! Suc i)"
proof -
  let ?s = "fst (lc2_run st (take i ns))"
  let ?s1 = "fst (lc2_step ?s (ns ! i))"
  have i: "i < length ns" using assms(1) by simp
  have a: "note_side (snd (lc2_run st ns) ! i) = lc2_is_left ?s1"
    using i assms(3) by (simp add: lc2_run_nth lc2_step_auto_side)
  have s1: "fst (lc2_run st (take (Suc i) ns)) = ?s1" using i by (rule lc2_run_take_Suc)
  have "note_side (snd (lc2_run st ns) ! Suc i) = lc2_is_left (fst (lc2_step ?s1 (ns ! Suc i)))"
    using assms(1,4) s1 by (simp add: lc2_run_nth lc2_step_auto_side)
  also have "\<dots> = (\<not> lc2_is_left ?s1)"
    using assms(2) by (intro lc2_step_conflict_flips) (simp_all add: lc2_step_fields)
  finally show ?thesis using a by simp
qed

lemma lc2_conflict_sym: "lc2_conflict a b = lc2_conflict b a"
  unfolding lc2_conflict_def by auto

text \<open>
  C2 (seconds are split).  Two notes that are laid out one after the other, are both
  visible, lie on the same staff and are less than two steps apart (a unison or a
  second), and have no user mirror setting, end up on opposite sides of the stem, for
  up-stem and down-stem groups alike.
\<close>

theorem layoutChords2_seconds_split:
  assumes "layoutChords2 notes up = Some (w, notes')"
    and "Suc i < length notes" and "lc2_conflict (notes ! i) (notes ! Suc i)"
    and "note_user_mirror (notes ! i) = DH_AUTO" and "note_user_mirror (notes ! Suc i) = DH_AUTO"
  shows "note_side (notes' ! i) \<noteq> note_side (notes' ! Suc i)"
proof -
  define order where "order = (if up then notes else rev notes)"
  define st0 where "st0 = \<lparr>lc2_ll = 1000, lc2_lvisible = False, lc2_mirror = False,
                   lc2_is_left = note_chord_up (hd order), lc2_lmove = note_staff_move (hd order),
                   lc2_max_width = 0\<rparr>"
  have ne: "notes \<noteq> []" using assms(2) by auto
  have res: "notes' = (if up then snd (lc2_run st0 order) else rev (snd (lc2_run st0 order)))"
    using assms(1) ne unfolding layoutChords2_def order_def st0_def
    by (auto simp: Let_def case_prod_beta)
  show ?thesis
  proof (cases up)
    case True
    then show ?thesis using res assms(2-5) lc2_run_seconds_split [of i order st0]
      by (simp add: order_def)
  next
    case False
    define n where "n = length notes"
    define j where "j = n - Suc (Suc i)"
    have j: "Suc j < length order" "order ! j = notes ! Suc i" "order ! Suc j = notes ! i"
      using assms(2) False by (simp_all add: order_def j_def n_def rev_nth Suc_diff_Suc)
    have "note_side (snd (lc2_run st0 order) ! j) \<noteq> note_side (snd (lc2_run st0 order) ! Suc j)"
      using j assms(3-5) lc2_conflict_sym [of "notes ! i" "notes ! Suc i"]
      by (intro lc2_run_seconds_split) simp_all
    moreover have "notes' ! i = snd (lc2_run st0 order) ! Suc j"
      using res False assms(2) by (simp add: rev_nth order_def j_def n_def Suc_diff_Suc)
    moreover have "notes' ! Suc i = snd (lc2_run st0 order) ! j"
      using res False assms(2) by (simp add: rev_nth order_def j_def n_def Suc_diff_Suc)
    ultimately show ?thesis by auto
  qed
qed

lemma lc2_step_frame:
  "note_line (snd (lc2_step st n)) = note_line n"
  "note_chord_up (snd (lc2_step st n)) = note_chord_up n"
  "note_head_width (snd (lc2_step st n)) = note_head_width n"
  "note_user_mirror (snd (lc2_step st n)) = note_user_mirror n"
  "note_visible (snd (lc2_step st n)) = note_visible n"
  "\<not> note_hidden (snd (lc2_step st n))"
  "\<not> note_dots_hidden (snd (lc2_step st n))"
  by (simp_all add: lc2_step_def Let_def)

lemma lc2_step_user_side:
  "note_user_mirror n \<noteq> DH_AUTO \<Longrightarrow>
   note_side (snd (lc2_step st n)) = (note_user_mirror n = DH_LEFT)"
  by (cases "note_user_mirror n") (auto simp: lc2_step_def Let_def note_side_def)

lemma lc2_step_no_conflict:
  "note_user_mirror n = DH_AUTO \<Longrightarrow>
   \<not> (\<bar>lc2_ll st - note_line n\<bar> < 2 \<and> lc2_lmove st = note_staff_move n \<and> note_visible n \<and> lc2_lvisible st) \<Longrightarrow>
   \<not> note_mirror (snd (lc2_step st n))"
  by (auto simp: lc2_step_def Let_def)

lemma layoutChords2_run:
  assumes "layoutChords2 notes up = Some (w, notes')"
  obtains st0 where "notes \<noteq> []"
    and "notes' = (if up then snd (lc2_run st0 notes) else rev (snd (lc2_run st0 (rev notes))))"
    and "w = lc2_max_width (fst (lc2_run st0 (if up then notes else rev notes)))"
    and "\<not> lc2_lvisible st0"
proof -
  have ne: "notes \<noteq> []" using assms by (auto simp: layoutChords2_def)
  define order where "order = (if up then notes else rev notes)"
  define st0 where "st0 = \<lparr>lc2_ll = 1000, lc2_lvisible = False, lc2_mirror = False,
                   lc2_is_left = note_chord_up (hd order), lc2_lmove = note_staff_move (hd order),
                   lc2_max_width = 0\<rparr>"
  have "Some (w, notes') = Some (lc2_max_width (fst (lc2_run st0 order)),
                                 if up then snd (lc2_run st0 order) else rev (snd (lc2_run st0 order)))"
    using assms ne unfolding layoutChords2_def order_def st0_def by (simp add: Let_def case_prod_beta)
  then have w: "w = lc2_max_width (fst (lc2_run st0 order))"
    and n': "notes' = (if up then snd (lc2_run st0 order) else rev (snd (lc2_run st0 order)))"
    by simp_all
  show ?thesis
  proof (rule that [of st0])
    show "notes \<noteq> []" by (rule ne)
    show "notes' = (if up then snd (lc2_run st0 notes) else rev (snd (lc2_run st0 (rev notes))))"
      using n' by (simp add: order_def)
    show "w = lc2_max_width (fst (lc2_run st0 (if up then notes else rev notes)))"
      using w by (simp add: order_def)
    show "\<not> lc2_lvisible st0" by (simp add: st0_def)
  qed
qed

lemma lc2_run_no_conflict:
  assumes "k < length ns" and "note_user_mirror (ns ! k) = DH_AUTO" and "\<not> lc2_lvisible st"
    and "k = 0 \<or> \<not> lc2_conflict (ns ! (k - 1)) (ns ! k)"
  shows "\<not> note_mirror (snd (lc2_run st ns) ! k)"
proof (cases k)
  case 0
  then show ?thesis using assms(1-3) by (simp add: lc2_run_nth lc2_step_no_conflict)
next
  case (Suc j)
  let ?s = "fst (lc2_run st (take j ns))"
  have j: "j < length ns" using assms(1) Suc by simp
  have s: "fst (lc2_run st (take k ns)) = fst (lc2_step ?s (ns ! j))"
    using j Suc by (simp add: lc2_run_take_Suc)
  have "\<not> lc2_conflict (ns ! j) (ns ! k)" using assms(4) Suc by simp
  then have "\<not> (\<bar>lc2_ll (fst (lc2_step ?s (ns ! j))) - note_line (ns ! k)\<bar> < 2 \<and>
               lc2_lmove (fst (lc2_step ?s (ns ! j))) = note_staff_move (ns ! k) \<and>
               note_visible (ns ! k) \<and> lc2_lvisible (fst (lc2_step ?s (ns ! j))))"
    by (auto simp: lc2_step_fields lc2_conflict_def)
  then show ?thesis using assms(1,2) s by (simp add: lc2_run_nth lc2_step_no_conflict)
qed

lemma lc2_run_max_width:
  "lc2_max_width (fst (lc2_run st ns)) =
   foldl max (lc2_max_width st) (map note_head_width (filter (\<lambda>n. \<not> note_mirror n) (snd (lc2_run st ns))))"
proof (induction st ns rule: lc2_run.induct)
  case (1 st)
  then show ?case by simp
next
  case (2 st n ns)
  have step: "lc2_max_width (fst (lc2_step st n)) =
              (if \<not> note_mirror (snd (lc2_step st n))
               then max (lc2_max_width st) (note_head_width (snd (lc2_step st n))) else lc2_max_width st)"
    by (simp add: lc2_step_def Let_def)
  show ?case using "2.IH" step by (simp add: Let_def)
qed

lemma foldl_max_Max: "foldl max (a::'a::linorder) xs = Max (insert a (set xs))"
proof -
  have c: "(\<lambda>x s. max s x) = (max :: 'a \<Rightarrow> 'a \<Rightarrow> 'a)"
    by (rule ext, rule ext) (rule max.commute)
  have "foldl max a xs = fold max xs a"
    by (simp only: foldl_conv_fold c)
  also have "\<dots> = Max (set (a # xs))" by (rule Max.set_eq_fold [symmetric])
  finally show ?thesis by simp
qed

lemma layoutChords2_Some: "notes \<noteq> [] \<Longrightarrow> \<exists>w notes'. layoutChords2 notes up = Some (w, notes')"
  by (simp add: layoutChords2_def Let_def case_prod_beta)

lemma layoutChords2_nth:
  assumes "layoutChords2 notes up = Some (w, notes')" and "i < length notes"
  shows "length notes' = length notes \<and> (\<exists>st. notes' ! i = snd (lc2_step st (notes ! i)))"
proof -
  obtain st0 where r: "notes' = (if up then snd (lc2_run st0 notes) else rev (snd (lc2_run st0 (rev notes))))"
    using assms(1) by (rule layoutChords2_run)
  show ?thesis
  proof (cases up)
    case True
    then show ?thesis using r assms(2) by (auto simp: lc2_run_nth)
  next
    case False
    let ?k = "length notes - Suc i"
    have "notes' ! i = snd (lc2_run st0 (rev notes)) ! ?k"
      using r False assms(2) by (simp add: rev_nth)
    also have "\<dots> = snd (lc2_step (fst (lc2_run st0 (take ?k (rev notes)))) (rev notes ! ?k))"
      using assms(2) by (simp add: lc2_run_nth)
    also have "rev notes ! ?k = notes ! i"
      using assms(2) by (simp add: rev_nth)
    finally show ?thesis using r False by auto
  qed
qed

theorem layoutChords2_frame:
  assumes "layoutChords2 notes up = Some (w, notes')" and "i < length notes"
  shows "notes' ! i = (notes ! i)\<lparr>note_hidden := False, note_dots_hidden := False,
                                  note_mirror := note_mirror (notes' ! i)\<rparr>"
proof -
  obtain st where "notes' ! i = snd (lc2_step st (notes ! i))"
    using layoutChords2_nth [OF assms] by blast
  then show ?thesis by (simp add: lc2_step_def Let_def)
qed

text \<open>
  User mirror wins.  A note whose user mirror property is LEFT or RIGHT ends up on
  that side of the stem, whatever its neighbours are.
\<close>

theorem layoutChords2_user_mirror:
  assumes "layoutChords2 notes up = Some (w, notes')" and "i < length notes"
    and "note_user_mirror (notes ! i) \<noteq> DH_AUTO"
  shows "note_side (notes' ! i) = (note_user_mirror (notes ! i) = DH_LEFT)"
proof -
  obtain st where "notes' ! i = snd (lc2_step st (notes ! i))"
    using layoutChords2_nth [OF assms(1,2)] by blast
  with assms(3) show ?thesis by (simp add: lc2_step_user_side)
qed

text \<open>
  C4 (no spurious mirroring).  A note without a user mirror setting that does not
  conflict with the note laid out before it (or is laid out first) is not mirrored: it
  stays on its stem's normal side.
\<close>

theorem layoutChords2_no_conflict_unmirrored:
  assumes "layoutChords2 notes up = Some (w, notes')" and "i < length notes"
    and "note_user_mirror (notes ! i) = DH_AUTO"
    and "case lc2_prev (length notes) up i of None \<Rightarrow> True | Some j \<Rightarrow> \<not> lc2_conflict (notes ! j) (notes ! i)"
  shows "\<not> note_mirror (notes' ! i)"
proof -
  obtain st0 where r: "notes' = (if up then snd (lc2_run st0 notes) else rev (snd (lc2_run st0 (rev notes))))"
    and v: "\<not> lc2_lvisible st0"
    using assms(1) by (rule layoutChords2_run)
  show ?thesis
  proof (cases up)
    case True
    have "i = 0 \<or> \<not> lc2_conflict (notes ! (i - 1)) (notes ! i)"
      using assms(4) True by (auto simp: lc2_prev_def split: if_splits)
    then show ?thesis using r True assms(2,3) v by (simp add: lc2_run_no_conflict)
  next
    case False
    let ?k = "length notes - Suc i"
    have k: "?k < length (rev notes)" "rev notes ! ?k = notes ! i" using assms(2) by (simp_all add: rev_nth)
    have "?k = 0 \<or> \<not> lc2_conflict (rev notes ! (?k - 1)) (rev notes ! ?k)"
    proof (cases "Suc i < length notes")
      case True
      then have "\<not> lc2_conflict (notes ! Suc i) (notes ! i)" using assms(4) False by (simp add: lc2_prev_def)
      moreover have "rev notes ! (?k - 1) = notes ! Suc i" using True by (simp add: rev_nth Suc_diff_Suc)
      ultimately show ?thesis using k(2) by simp
    next
      case False
      then show ?thesis by simp
    qed
    then have "\<not> note_mirror (snd (lc2_run st0 (rev notes)) ! ?k)"
      using k assms(3) v by (intro lc2_run_no_conflict) simp_all
    then show ?thesis using r False assms(2) by (simp add: rev_nth)
  qed
qed

text \<open>
  C5 (returned width).  The width \<open>layoutChords2\<close> returns is the widest head
  among the notes it leaves unmirrored, or 0 when it mirrors them all.
\<close>

theorem layoutChords2_max_width:
  assumes "layoutChords2 notes up = Some (w, notes')"
  shows "w = Max (insert 0 (note_head_width ` set (filter (\<lambda>n. \<not> note_mirror n) notes')))"
proof -
  define order where "order = (if up then notes else rev notes)"
  define st0 where "st0 = \<lparr>lc2_ll = 1000, lc2_lvisible = False, lc2_mirror = False,
                   lc2_is_left = note_chord_up (hd order), lc2_lmove = note_staff_move (hd order),
                   lc2_max_width = 0\<rparr>"
  have ne: "notes \<noteq> []" using assms by (auto simp: layoutChords2_def)
  have "Some (w, notes') = Some (lc2_max_width (fst (lc2_run st0 order)),
                                 if up then snd (lc2_run st0 order) else rev (snd (lc2_run st0 order)))"
    using assms ne unfolding layoutChords2_def order_def st0_def by (simp add: Let_def case_prod_beta)
  then have w: "w = lc2_max_width (fst (lc2_run st0 order))"
    and s: "set notes' = set (snd (lc2_run st0 order))"
    by auto
  have "w = foldl max 0 (map note_head_width (filter (\<lambda>n. \<not> note_mirror n) (snd (lc2_run st0 order))))"
    using w by (simp add: lc2_run_max_width st0_def)
  also have "\<dots> = Max (insert 0 (note_head_width ` set (filter (\<lambda>n. \<not> note_mirror n) (snd (lc2_run st0 order)))))"
    by (simp add: foldl_max_Max)
  finally show ?thesis using s by simp
qed

theorem layoutChords2_seconds_split_witness:
  "\<exists>w ns'. layoutChords2 [\<lparr>note_line = 3, note_visible = True, note_user_mirror = DH_AUTO, note_head_width = 1, note_chord_up = True, note_staff_move = 0, note_mirror = False, note_hidden = False, note_dots_hidden = False\<rparr>,
                            \<lparr>note_line = 2, note_visible = True, note_user_mirror = DH_AUTO, note_head_width = 1, note_chord_up = True, note_staff_move = 0, note_mirror = False, note_hidden = False, note_dots_hidden = False\<rparr>] True = Some (w, ns') \<and>
     note_side (ns' ! 0) \<noteq> note_side (ns' ! 1)"
proof -
  define ns where "ns = [\<lparr>note_line = 3, note_visible = True, note_user_mirror = DH_AUTO, note_head_width = 1, note_chord_up = True, note_staff_move = 0, note_mirror = False, note_hidden = False, note_dots_hidden = False\<rparr>,
                         \<lparr>note_line = 2, note_visible = True, note_user_mirror = DH_AUTO, note_head_width = 1, note_chord_up = True, note_staff_move = 0, note_mirror = False, note_hidden = False, note_dots_hidden = False\<rparr>]"
  obtain w ns' where r: "layoutChords2 ns True = Some (w, ns')"
    using layoutChords2_Some [of ns True] by (auto simp: ns_def)
  have "note_side (ns' ! 0) \<noteq> note_side (ns' ! Suc 0)"
    by (rule layoutChords2_seconds_split [OF r]) (simp_all add: ns_def lc2_conflict_def)
  then show ?thesis using r unfolding ns_def by auto
qed

theorem layoutChords2_user_mirror_witness:
  "\<exists>w ns'. layoutChords2 [\<lparr>note_line = 4, note_visible = True, note_user_mirror = DH_LEFT, note_head_width = 1, note_chord_up = False, note_staff_move = 0, note_mirror = False, note_hidden = False, note_dots_hidden = False\<rparr>] False = Some (w, ns') \<and> note_side (ns' ! 0)"
proof -
  define ns where "ns = [\<lparr>note_line = 4, note_visible = True, note_user_mirror = DH_LEFT, note_head_width = 1, note_chord_up = False, note_staff_move = 0, note_mirror = False, note_hidden = False, note_dots_hidden = False\<rparr>]"
  obtain w ns' where r: "layoutChords2 ns False = Some (w, ns')"
    using layoutChords2_Some [of ns False] by (auto simp: ns_def)
  have "note_side (ns' ! 0) = (note_user_mirror (ns ! 0) = DH_LEFT)"
    by (rule layoutChords2_user_mirror [OF r]) (simp_all add: ns_def)
  then show ?thesis using r unfolding ns_def by auto
qed

theorem layoutChords2_no_conflict_unmirrored_witness:
  "\<exists>w ns'. layoutChords2 [\<lparr>note_line = 6, note_visible = True, note_user_mirror = DH_AUTO, note_head_width = 1, note_chord_up = False, note_staff_move = 0, note_mirror = False, note_hidden = False, note_dots_hidden = False\<rparr>,
                            \<lparr>note_line = 2, note_visible = True, note_user_mirror = DH_AUTO, note_head_width = 1, note_chord_up = False, note_staff_move = 0, note_mirror = False, note_hidden = False, note_dots_hidden = False\<rparr>] False = Some (w, ns') \<and>
     \<not> note_mirror (ns' ! 0) \<and> \<not> note_mirror (ns' ! 1)"
proof -
  define ns where "ns = [\<lparr>note_line = 6, note_visible = True, note_user_mirror = DH_AUTO, note_head_width = 1, note_chord_up = False, note_staff_move = 0, note_mirror = False, note_hidden = False, note_dots_hidden = False\<rparr>,
                         \<lparr>note_line = 2, note_visible = True, note_user_mirror = DH_AUTO, note_head_width = 1, note_chord_up = False, note_staff_move = 0, note_mirror = False, note_hidden = False, note_dots_hidden = False\<rparr>]"
  obtain w ns' where r: "layoutChords2 ns False = Some (w, ns')"
    using layoutChords2_Some [of ns False] by (auto simp: ns_def)
  have "\<not> note_mirror (ns' ! 0)"
    by (rule layoutChords2_no_conflict_unmirrored [OF r]) (simp_all add: ns_def lc2_prev_def lc2_conflict_def)
  moreover have "\<not> note_mirror (ns' ! Suc 0)"
    by (rule layoutChords2_no_conflict_unmirrored [OF r]) (simp_all add: ns_def lc2_prev_def)
  ultimately show ?thesis using r unfolding ns_def by auto
qed

theorem layoutChords2_max_width_witness:
  "\<exists>w ns'. layoutChords2 [\<lparr>note_line = 0, note_visible = True, note_user_mirror = DH_AUTO, note_head_width = 1.5, note_chord_up = True, note_staff_move = 0, note_mirror = False, note_hidden = False, note_dots_hidden = False\<rparr>] True = Some (w, ns') \<and>
     w = Max (insert 0 (note_head_width ` set (filter (\<lambda>n. \<not> note_mirror n) ns')))"
proof -
  define ns where "ns = [\<lparr>note_line = 0, note_visible = True, note_user_mirror = DH_AUTO, note_head_width = 1.5, note_chord_up = True, note_staff_move = 0, note_mirror = False, note_hidden = False, note_dots_hidden = False\<rparr>]"
  obtain w ns' where r: "layoutChords2 ns True = Some (w, ns')"
    using layoutChords2_Some [of ns True] by (auto simp: ns_def)
  have "w = Max (insert 0 (note_head_width ` set (filter (\<lambda>n. \<not> note_mirror n) ns')))"
    by (rule layoutChords2_max_width [OF r])
  then show ?thesis using r unfolding ns_def by auto
qed

end
