(* ===== verification/Chord_Offsets.thy ===== *)
theory Chord_Offsets
  imports Chord_Mirror
begin

text \<open>
  Collisions between up-stem and down-stem chords of one staff in one segment,
  \<open>Score::layoutChords1\<close> of \<open>layout.cpp\<close>.  The chords of the staff's tracks are
  split into an up-stem and a down-stem group (\<open>lc1_collect\<close>), each group's notes
  are mirrored by \<open>layoutChords2\<close>, wide or narrow heads are centred
  (\<open>lc1_center\<close>), and the vertical separation between the lowest up-stem note and
  the highest down-stem note decides the horizontal offsets: none for two steps or more,
  the down-stem group to the right for a second, and for an overlap the list of
  overlapping notes is scanned (\<open>lc1_scan\<close>) to decide whether unison heads are
  shared (then one set of dots is hidden, \<open>lc1_hide_dots\<close>) or which group moves by
  the priority cascade of the source (\<open>lc1_offsets\<close>).  Dots of only one group widen
  the offset (\<open>lc1_dot_adjust\<close>); \<open>lc1_plan\<close> gathers these decisions and
  \<open>lc1_apply\<close> sets the chord positions.
  Notes are the mirroring model's notes extended by the fields the overlap scan reads;
  \<open>note_id\<close> is the identity of the C++ \<open>Note*\<close>, through which flags set on
  the overlap list reach the chords.  \<open>qSort\<close> (not stable) is modelled by a stable
  sort on descending line: the source leaves the order of equal lines open.
\<close>

text \<open>\<open>NoteHead::Type\<close>.\<close>

datatype head_type = HEAD_AUTO | HEAD_WHOLE | HEAD_HALF | HEAD_QUARTER | HEAD_BREVIS

record ov_note = chord_note +
  note_id :: nat
  note_tpc :: int
  note_head_group :: nat
  note_head_type :: head_type
  note_small :: bool
  note_voice :: nat
  note_chord_dots :: nat
  note_chord_stem :: bool
  note_chord_stem_width :: qreal
  note_chord_small :: bool
  note_chord_nudged :: bool
  note_chord_head_type :: head_type

text \<open>A chord of the segment: \<open>ch_x\<close> is \<open>chord->rxpos()\<close>.\<close>

record lc1_chord =
  ch_up :: bool
  ch_notes :: "ov_note list"
  ch_dots :: nat
  ch_mag :: qreal
  ch_hook :: bool
  ch_grace_before :: bool
  ch_x :: qreal

text \<open>Staff and style values read by \<open>layoutChords1\<close>.\<close>

record lc1_env =
  env_tab :: bool
  env_nominal_width :: qreal
  env_staff_mag :: qreal
  env_sp :: qreal
  env_dot_width :: qreal
  env_dot_note_distance :: qreal
  env_dot_dot_distance :: qreal

subsection \<open>Grouping by stem direction\<close>

record lc1_groups =
  up_notes :: "ov_note list"
  down_notes :: "ov_note list"
  up_voices :: nat
  down_voices :: nat
  up_dots :: nat
  down_dots :: nat
  max_up_mag :: qreal
  max_down_mag :: qreal
  up_hooks :: bool
  down_hooks :: bool
  up_grace :: bool
  down_grace :: bool

definition lc1_groups0 :: lc1_groups where
  "lc1_groups0 = \<lparr>up_notes = [], down_notes = [], up_voices = 0, down_voices = 0,
     up_dots = 0, down_dots = 0, max_up_mag = 0, max_down_mag = 0,
     up_hooks = False, down_hooks = False, up_grace = False, down_grace = False\<rparr>"

fun lc1_collect_step :: "lc1_groups \<Rightarrow> lc1_chord option \<Rightarrow> lc1_groups" where
  "lc1_collect_step g None = g"
| "lc1_collect_step g (Some c) =
     (if ch_up c then
        g\<lparr>up_voices := Suc (up_voices g), up_notes := up_notes g @ ch_notes c,
          up_dots := max (up_dots g) (ch_dots c), max_up_mag := max (max_up_mag g) (ch_mag c),
          up_hooks := (up_hooks g \<or> ch_hook c), up_grace := (up_grace g \<or> ch_grace_before c)\<rparr>
      else
        g\<lparr>down_voices := Suc (down_voices g), down_notes := down_notes g @ ch_notes c,
          down_dots := max (down_dots g) (ch_dots c), max_down_mag := max (max_down_mag g) (ch_mag c),
          down_hooks := (down_hooks g \<or> ch_hook c), down_grace := (down_grace g \<or> ch_grace_before c)\<rparr>)"

definition lc1_collect :: "lc1_chord option list \<Rightarrow> lc1_groups" where
  "lc1_collect tracks = foldl lc1_collect_step lc1_groups0 tracks"

text \<open>\<open>qSort\<close> with \<open>n1->line() > n2->line()\<close>: descending line.\<close>

definition sort_lines :: "'a chord_note_scheme list \<Rightarrow> 'a chord_note_scheme list" where
  "sort_lines ns = rev (sort_key note_line (rev ns))"

subsection \<open>Centering of heads wider or narrower than nominal\<close>

record lc1_centering =
  center_up :: qreal
  oversize_up :: qreal
  center_down :: qreal
  center_adjust_up :: qreal
  center_adjust_down :: qreal
  c_max_up_width :: qreal
  c_max_down_width :: qreal

definition lc1_center :: "lc1_env \<Rightarrow> qreal \<Rightarrow> qreal \<Rightarrow> qreal \<Rightarrow> lc1_centering" where
  "lc1_center env maxUpWidth maxDownWidth maxUpMag =
     (let nominal = env_nominal_width env;
          thr = 0.01 * env_sp env;
          headDiff = maxUpWidth - nominal;
          headDiff2 = maxUpWidth - nominal * (maxUpMag / env_staff_mag env);
          (centerUp, oversizeUp, maxUpWidth', centerAdjustDown) =
            (if headDiff > thr then
               (let cu = headDiff * -0.5
                in if headDiff2 > thr then (cu + headDiff2, headDiff2, maxUpWidth + cu, 0)
                   else (cu, 0, maxUpWidth + cu, 0))
             else if - headDiff > thr then
               (let cu = - headDiff * 0.5;
                    (cu', ov) = (if headDiff2 > thr then (cu + headDiff2, headDiff2) else (cu, 0))
                in (cu', ov, maxUpWidth, cu'))
             else (0, 0, maxUpWidth, 0));
          headDiffD = maxDownWidth - nominal;
          (centerDown, maxDownWidth', centerAdjustUp) =
            (if headDiffD > thr then
               (headDiffD * -0.5, nominal - headDiffD * -0.5, 0)
             else if - headDiffD > thr then (- headDiffD * 0.5, maxDownWidth, - headDiffD * 0.5)
             else (0, maxDownWidth, 0))
      in \<lparr>center_up = centerUp, oversize_up = oversizeUp, center_down = centerDown,
          center_adjust_up = centerAdjustUp, center_adjust_down = centerAdjustDown,
          c_max_up_width = maxUpWidth', c_max_down_width = maxDownWidth'\<rparr>)"

subsection \<open>The overlap between the groups\<close>

text \<open>
  The overlapping notes: up-stem notes from the bottom while they reach down to the
  line above the highest down-stem note, down-stem notes from the top while they reach
  up to the line below the lowest up-stem note; then sorted by descending line.
\<close>

definition overlap_notes :: "ov_note list \<Rightarrow> ov_note list \<Rightarrow> ov_note list" where
  "overlap_notes ups downs =
     (let bottomUp = hd ups; topDown = last downs
      in sort_lines (takeWhile (\<lambda>n. note_line topDown - 1 \<le> note_line n) ups @
                     takeWhile (\<lambda>n. note_line n \<le> note_line bottomUp + 1) (rev downs)))"

text \<open>The head type a note is drawn with: its own, or its chord's for \<open>HEAD_AUTO\<close>.\<close>

definition eff_head_type :: "ov_note \<Rightarrow> head_type" where
  "eff_head_type n = (if note_head_type n = HEAD_AUTO then note_chord_head_type n else note_head_type n)"

text \<open>Whether a unison of \<open>n\<close> with the previous note \<open>p\<close> keeps heads shareable.\<close>

definition unison_shareable :: "ov_note \<Rightarrow> ov_note \<Rightarrow> bool" where
  "unison_shareable n p =
     (\<not> (note_head_group n \<noteq> note_head_group p \<or> note_tpc n \<noteq> note_tpc p \<or> note_mirror n \<or>
          note_mirror p \<or> note_chord_small n \<noteq> note_chord_small p) \<and>
      \<not> ((note_chord_dots n \<noteq> note_chord_dots p \<or> \<not> note_chord_stem n \<or> \<not> note_chord_stem p \<or>
           eff_head_type n \<noteq> eff_head_type p \<or> note_small n \<or> note_small p) \<and>
          ((note_head_type n = HEAD_AUTO \<and> note_head_type p = HEAD_AUTO) \<or>
           eff_head_type n \<noteq> eff_head_type p) \<and>
          note_visible n = note_visible p))"

record ov_scan =
  share_heads :: bool
  match_pending :: bool
  conflict_unison :: bool
  conflict_second_up_higher :: bool
  conflict_second_down_higher :: bool
  last_line :: staff_line
  prev_note :: ov_note

definition ov_scan_step :: "int \<Rightarrow> ov_scan \<Rightarrow> ov_note \<Rightarrow> ov_scan" where
  "ov_scan_step separation sc n =
     (if note_mirror n \<and> separation < 0 then sc\<lparr>share_heads := False\<rparr>
      else
        let d = last_line sc - note_line n;
            sc' = (if d = 0 then
                     sc\<lparr>conflict_unison := True, match_pending := False,
                        share_heads := (share_heads sc \<and> unison_shareable n (prev_note sc))\<rparr>
                   else if d = 1 then
                     (if separation < 0 then
                        (if note_chord_up n then sc\<lparr>conflict_second_up_higher := True, share_heads := False\<rparr>
                         else sc\<lparr>conflict_second_down_higher := True, share_heads := False\<rparr>)
                      else sc)
                   else
                     sc\<lparr>share_heads := (share_heads sc \<and> \<not> match_pending sc), match_pending := True\<rparr>)
        in sc'\<lparr>prev_note := n, last_line := note_line n\<rparr>)"

definition lc1_scan :: "int \<Rightarrow> ov_note list \<Rightarrow> ov_scan" where
  "lc1_scan separation ovl =
     (let sc = foldl (ov_scan_step separation)
                 \<lparr>share_heads = True, match_pending = False, conflict_unison = False,
                  conflict_second_up_higher = False, conflict_second_down_higher = False,
                  last_line = 1000, prev_note = hd ovl\<rparr> ovl
      in sc\<lparr>share_heads := (share_heads sc \<and> \<not> match_pending sc)\<rparr>)"

text \<open>
  Shared heads: for the pairs counted from the end of the overlap list, the dots of one
  note are hidden when the chords have as many dots and neither is nudged (the lower
  voice's on a line, the upper voice's in a space).  The result is the set of
  \<open>note_id\<close>s whose dots are hidden.
\<close>

fun lc1_hide_dots :: "ov_note list \<Rightarrow> nat set" where
  "lc1_hide_dots (p # n # rest) =
     lc1_hide_dots rest \<union>
     (if \<not> (note_chord_nudged p \<or> note_chord_nudged n) \<and> note_chord_dots p = note_chord_dots n then
        (if even (note_line p) then
           (if odd (note_voice p) then {note_id p} else {note_id n})
         else
           (if even (note_voice p) then {note_id p} else {note_id n}))
      else {})"
| "lc1_hide_dots _ = {}"

definition lc1_shared_pairs :: "ov_note list \<Rightarrow> ov_note list" where
  "lc1_shared_pairs ovl = (if even (length ovl) then ovl else tl ovl)"

subsection \<open>The offset cascade\<close>

record lc1_offs =
  up_offset :: qreal
  down_offset :: qreal
  dot_adjust_threshold :: qreal
  o_center_down :: qreal
  o_center_adjust_up :: qreal
  o_down_dots :: nat

definition lc1_offsets ::
  "lc1_env \<Rightarrow> lc1_groups \<Rightarrow> lc1_centering \<Rightarrow> int \<Rightarrow> ov_scan \<Rightarrow> ov_note \<Rightarrow> ov_note \<Rightarrow> lc1_offs" where
  "lc1_offsets env g c separation sc topDown bottomUp =
     (let sp = env_sp env;
          maxUpWidth = c_max_up_width c; maxDownWidth = c_max_down_width c;
          upDots = up_dots g; downDots = down_dots g;
          upHooks = up_hooks g; downHooks = down_hooks g;
          none = \<lparr>up_offset = 0, down_offset = 0, dot_adjust_threshold = 0,
                  o_center_down = center_down c, o_center_adjust_up = center_adjust_up c,
                  o_down_dots = downDots\<rparr>
      in if separation = 1 then
           none\<lparr>down_offset := (if note_chord_stem topDown \<and> note_chord_stem bottomUp
                                 then maxUpWidth - note_chord_stem_width topDown
                                 else maxUpWidth + 0.1 * sp)\<rparr>
         else if separation < 1 then
           (if share_heads sc then none
            else if conflict_unison sc \<and> separation = 0 \<and> (\<not> down_grace g \<or> up_grace g) then
              none\<lparr>down_offset := maxUpWidth + 0.3 * sp\<rparr>
            else if conflict_unison sc then none\<lparr>up_offset := maxDownWidth + 0.3 * sp\<rparr>
            else if conflict_second_up_higher sc then none\<lparr>up_offset := maxDownWidth + 0.2 * sp\<rparr>
            else if (downHooks \<and> \<not> upHooks) \<and> \<not> (0 < upDots \<and> downDots = 0) then
              none\<lparr>down_offset := maxUpWidth + 0.3 * sp\<rparr>
            else if conflict_second_down_higher sc then
              (if 0 < downDots \<and> upDots = 0 then none\<lparr>down_offset := maxUpWidth + 0.3 * sp\<rparr>
               else none\<lparr>up_offset := maxDownWidth - 0.2 * sp + (if downHooks then 0.3 * sp else 0)\<rparr>)
            else
              (let clearLeft = (if note_chord_stem topDown then note_chord_stem_width topDown + 0.3 * sp else 0);
                   clearRight = (if note_chord_stem bottomUp
                                 then note_chord_stem_width bottomUp + max (maxDownWidth - maxUpWidth) 0 + 0.3 * sp
                                 else 0);
                   downDots' = (if note_chord_stem bottomUp then downDots else 0);
                   upOffset0 = max clearLeft clearRight;
                   (upOffset, thr) = (if downHooks then (max upOffset0 (maxDownWidth + 0.1 * sp), maxUpWidth - 0.3 * sp)
                                      else (upOffset0, 0));
                   small = (center_down c > 0)
               in \<lparr>up_offset = upOffset, down_offset = 0,
                   dot_adjust_threshold = (if small then (upOffset - maxDownWidth) + maxUpWidth - 0.3 * sp else thr),
                   o_center_down = (if small then 0 else center_down c),
                   o_center_adjust_up = (if small then 0 else center_adjust_up c),
                   o_down_dots = downDots'\<rparr>))
         else none)"

definition lc1_dot_adjust :: "lc1_env \<Rightarrow> lc1_groups \<Rightarrow> int \<Rightarrow> lc1_offs \<Rightarrow> qreal" where
  "lc1_dot_adjust env g separation ofs =
     (let upDots = up_dots g; downDots = o_down_dots ofs;
          adj = (if (0 < upDots \<and> downDots = 0) \<or> (0 < downDots \<and> upDots = 0) then
                   (let (dots, mag) = (if 0 < upDots then (upDots, max_up_mag g) else (downDots, max_down_mag g));
                        a = env_dot_note_distance env + env_dot_width env +
                            (if 1 < dots then env_dot_dot_distance env * of_nat (dots - 1) else 0)
                    in max (a * mag - dot_adjust_threshold ofs) 0)
                 else 0)
      in if separation = 1 then adj + 0.1 * env_sp env else adj)"

subsection \<open>Applying the offsets\<close>

definition lc1_chord_x ::
  "lc1_groups \<Rightarrow> lc1_centering \<Rightarrow> lc1_offs \<Rightarrow> qreal \<Rightarrow> bool \<Rightarrow> qreal" where
  "lc1_chord_x g c ofs dotAdjust up =
     (let upDots = up_dots g; downDots = o_down_dots ofs
      in if up then
           (if up_offset ofs \<noteq> 0 then
              up_offset ofs + o_center_adjust_up ofs + oversize_up c +
              (if 0 < downDots \<and> upDots = 0 then dotAdjust else 0)
            else center_up c)
         else
           (if down_offset ofs \<noteq> 0 then
              down_offset ofs + center_adjust_down c +
              (if 0 < upDots \<and> downDots = 0 then dotAdjust else 0)
            else o_center_down ofs))"

definition lc1_update_note :: "ov_note list \<Rightarrow> nat set \<Rightarrow> ov_note \<Rightarrow> ov_note" where
  "lc1_update_note laid hidden n =
     (let n' = (case filter (\<lambda>m. note_id m = note_id n) laid of [] \<Rightarrow> n | m # _ \<Rightarrow> m)
      in if note_id n \<in> hidden then n'\<lparr>note_dots_hidden := True\<rparr> else n')"

text \<open>
  What \<open>layoutChords1\<close> decides for a segment and staff once the groups are known:
  the position of the up-stem chords and of the down-stem chords, the notes as
  \<open>layoutChords2\<close> left them, and the notes whose dots are hidden.  \<open>None\<close> is
  undefined behaviour: \<open>layoutChords2\<close> on an empty group, which a chord without
  notes would cause.
\<close>

record lc1_plan =
  pl_up_x :: qreal
  pl_down_x :: qreal
  pl_laid :: "ov_note list"
  pl_hidden :: "nat set"

definition lc1_plan :: "lc1_env \<Rightarrow> lc1_groups \<Rightarrow> lc1_plan option" where
  "lc1_plan env g =
     (let ups = (if 1 < up_voices g then sort_lines (up_notes g) else up_notes g);
          downs = (if 1 < down_voices g then sort_lines (down_notes g) else down_notes g);
          r_up = (if 0 < up_voices g then layoutChords2 ups True else Some (0, []));
          r_down = (if 0 < down_voices g then layoutChords2 downs False else Some (0, []))
      in case (r_up, r_down) of
           (Some (hwu, ups'), Some (hwd, downs')) \<Rightarrow>
             let maxUpWidth = max (env_nominal_width env * max_up_mag g) hwu;
                 maxDownWidth = max (env_nominal_width env * max_down_mag g) hwd;
                 c = lc1_center env maxUpWidth maxDownWidth (max_up_mag g);
                 both = (0 < up_voices g \<and> 0 < down_voices g);
                 bottomUp = hd ups'; topDown = last downs';
                 separation = (if note_staff_move bottomUp = note_staff_move topDown
                               then note_line topDown - note_line bottomUp else 2);
                 ovl = overlap_notes ups' downs';
                 sc = lc1_scan separation ovl;
                 hidden = (if both \<and> separation < 1 \<and> share_heads sc
                           then lc1_hide_dots (lc1_shared_pairs ovl) else {});
                 ofs = (if both then lc1_offsets env g c separation sc topDown bottomUp
                        else \<lparr>up_offset = 0, down_offset = 0, dot_adjust_threshold = 0,
                              o_center_down = center_down c, o_center_adjust_up = center_adjust_up c,
                              o_down_dots = down_dots g\<rparr>);
                 dotAdjust = (if both then lc1_dot_adjust env g separation ofs else 0)
             in Some \<lparr>pl_up_x = lc1_chord_x g c ofs dotAdjust True,
                      pl_down_x = lc1_chord_x g c ofs dotAdjust False,
                      pl_laid = ups' @ downs', pl_hidden = hidden\<rparr>
         | _ \<Rightarrow> None)"

text \<open>The final loop over the tracks: \<open>chord->rxpos() += ...\<close> after the reset to 0.\<close>

definition lc1_apply :: "lc1_plan \<Rightarrow> lc1_chord \<Rightarrow> lc1_chord" where
  "lc1_apply pl ch =
     ch\<lparr>ch_x := (if ch_up ch then pl_up_x pl else pl_down_x pl),
        ch_notes := map (lc1_update_note (pl_laid pl) (pl_hidden pl)) (ch_notes ch)\<rparr>"

text \<open>
  \<open>layoutChords1\<close> on the chords of one staff's tracks: the new chords, and the notes
  of both groups sorted by descending line, which \<open>layoutChords3\<close> lays out next.  A
  tablature staff and a staff without chords are left alone.
\<close>

definition layoutChords1 ::
  "lc1_env \<Rightarrow> lc1_chord option list \<Rightarrow> (lc1_chord option list \<times> ov_note list) option" where
  "layoutChords1 env tracks =
     (if env_tab env then Some (tracks, [])
      else
        let g = lc1_collect tracks
        in if up_voices g + down_voices g = 0 then Some (tracks, [])
           else
             case lc1_plan env g of
               None \<Rightarrow> None
             | Some pl \<Rightarrow>
                 let notes = map (lc1_update_note (pl_laid pl) (pl_hidden pl)) (pl_laid pl)
                 in Some (map (map_option (lc1_apply pl)) tracks,
                          if 1 < up_voices g + down_voices g then sort_lines notes else notes))"

subsection \<open>Fixtures\<close>

text \<open>
  A quarter-note head on line \<open>line\<close> of a chord with stem direction \<open>up\<close>, in
  voice \<open>voice\<close>, of width \<open>w\<close>, with a stem of width \<open>sw\<close>; a chord of
  such notes; a staff whose nominal head width is \<open>w\<close> and whose spatium is \<open>sp\<close>.
\<close>

definition ex_note :: "staff_line \<Rightarrow> bool \<Rightarrow> nat \<Rightarrow> nat \<Rightarrow> qreal \<Rightarrow> qreal \<Rightarrow> ov_note" where
  "ex_note line up nid voice w sw =
     \<lparr>note_line = line, note_visible = True, note_user_mirror = DH_AUTO, note_head_width = w,
      note_chord_up = up, note_staff_move = 0, note_mirror = False, note_hidden = False,
      note_dots_hidden = False, note_id = nid, note_tpc = 14, note_head_group = 0,
      note_head_type = HEAD_AUTO, note_small = False, note_voice = voice, note_chord_dots = 0,
      note_chord_stem = True, note_chord_stem_width = sw, note_chord_small = False,
      note_chord_nudged = False, note_chord_head_type = HEAD_QUARTER\<rparr>"

definition ex_chord :: "bool \<Rightarrow> ov_note list \<Rightarrow> lc1_chord" where
  "ex_chord up ns = \<lparr>ch_up = up, ch_notes = ns, ch_dots = 0, ch_mag = 1, ch_hook = False,
                      ch_grace_before = False, ch_x = 0\<rparr>"

definition ex_env :: "qreal \<Rightarrow> qreal \<Rightarrow> lc1_env" where
  "ex_env w sp = \<lparr>env_tab = False, env_nominal_width = w, env_staff_mag = 1, env_sp = sp,
                   env_dot_width = 0.5 * sp, env_dot_note_distance = 0.5 * sp,
                   env_dot_dot_distance = 0.65 * sp\<rparr>"

subsection \<open>Properties\<close>

lemmas lc1_eval = layoutChords1_def lc1_collect_def lc1_groups0_def sort_lines_def
  layoutChords2_def lc2_step_def lc1_center_def overlap_notes_def lc1_scan_def ov_scan_step_def
  unison_shareable_def eff_head_type_def lc1_offsets_def lc1_dot_adjust_def lc1_chord_x_def
  lc1_update_note_def lc1_plan_def lc1_apply_def lc1_shared_pairs_def
  ex_note_def ex_chord_def ex_env_def Let_def

lemma lc1_collect_voices:
  "up_voices (foldl lc1_collect_step g ts) + down_voices (foldl lc1_collect_step g ts) =
   up_voices g + down_voices g + length (filter (\<lambda>x. x \<noteq> None) ts)"
  by (induction ts arbitrary: g) (auto elim: lc1_collect_step.elims)

lemma lc1_collect_none:
  "up_voices (lc1_collect tracks) + down_voices (lc1_collect tracks) = 0 \<Longrightarrow>
   x \<in> set tracks \<Longrightarrow> x = None"
  unfolding lc1_collect_def using lc1_collect_voices [of lc1_groups0 tracks]
  by (auto simp: lc1_groups0_def filter_empty_conv)

text \<open>Every chord \<open>layoutChords1\<close> returns is one plan applied to the chord it was.\<close>

lemma layoutChords1_apply:
  assumes "layoutChords1 env tracks = Some (tracks', ns)" and "\<not> env_tab env"
  obtains pl where "length tracks' = length tracks"
    and "\<And>i c. i < length tracks' \<Longrightarrow> tracks' ! i = Some c \<Longrightarrow>
                \<exists>c0. tracks ! i = Some c0 \<and> c = lc1_apply pl c0"
proof (cases "up_voices (lc1_collect tracks) + down_voices (lc1_collect tracks) = 0")
  case True
  then have t: "tracks' = tracks" using assms by (simp add: layoutChords1_def)
  have "i < length tracks' \<Longrightarrow> tracks' ! i \<noteq> Some c" for i c
    using lc1_collect_none [OF True, of "tracks ! i"] t by simp
  then show ?thesis using that t by blast
next
  case False
  obtain pl where pl: "lc1_plan env (lc1_collect tracks) = Some pl"
    using assms False by (auto simp: layoutChords1_def Let_def split: option.splits)
  then have "tracks' = map (map_option (lc1_apply pl)) tracks"
    using assms False pl by (auto simp: layoutChords1_def Let_def)
  then show ?thesis using that [of pl] by auto
qed

lemma lc1_hide_dots_ids: "lc1_hide_dots xs \<subseteq> note_id ` set xs"
  by (induction xs rule: lc1_hide_dots.induct) auto

text \<open>
  C6: when the heads of the two groups are not shared and the scan found a unison or a
  second, the cascade moves exactly one group: either the down-stem group right by at
  least the up-stem heads' width plus 0.3 sp, or the up-stem group right by at least the
  down-stem heads' width minus 0.2 sp.
\<close>

theorem lc1_offsets_separate:
  assumes "separation < 1" and "\<not> share_heads sc"
    and "conflict_unison sc \<or> conflict_second_up_higher sc \<or> conflict_second_down_higher sc"
    and "0 \<le> env_sp env"
  shows "(up_offset (lc1_offsets env g c separation sc td bu) = 0 \<and>
          c_max_up_width c + 0.3 * env_sp env \<le> down_offset (lc1_offsets env g c separation sc td bu)) \<or>
         (down_offset (lc1_offsets env g c separation sc td bu) = 0 \<and>
          c_max_down_width c - 0.2 * env_sp env \<le> up_offset (lc1_offsets env g c separation sc td bu))"
  using assms unfolding lc1_offsets_def Let_def by auto

theorem lc1_offsets_separate_witness:
  "(up_offset (lc1_offsets (ex_env 1 1) lc1_groups0 (lc1_center (ex_env 1 1) 1 1 1) 0
       \<lparr>share_heads = False, match_pending = False, conflict_unison = True,
        conflict_second_up_higher = False, conflict_second_down_higher = False,
        last_line = 4, prev_note = ex_note 4 True 0 0 1 0\<rparr>
       (ex_note 4 False 1 1 1 0) (ex_note 4 True 0 0 1 0)) = 0 \<and>
    1 + 0.3 \<le> down_offset (lc1_offsets (ex_env 1 1) lc1_groups0 (lc1_center (ex_env 1 1) 1 1 1) 0
       \<lparr>share_heads = False, match_pending = False, conflict_unison = True,
        conflict_second_up_higher = False, conflict_second_down_higher = False,
        last_line = 4, prev_note = ex_note 4 True 0 0 1 0\<rparr>
       (ex_note 4 False 1 1 1 0) (ex_note 4 True 0 0 1 0))) \<or>
   (down_offset (lc1_offsets (ex_env 1 1) lc1_groups0 (lc1_center (ex_env 1 1) 1 1 1) 0
       \<lparr>share_heads = False, match_pending = False, conflict_unison = True,
        conflict_second_up_higher = False, conflict_second_down_higher = False,
        last_line = 4, prev_note = ex_note 4 True 0 0 1 0\<rparr>
       (ex_note 4 False 1 1 1 0) (ex_note 4 True 0 0 1 0)) = 0 \<and>
    1 - 0.2 \<le> up_offset (lc1_offsets (ex_env 1 1) lc1_groups0 (lc1_center (ex_env 1 1) 1 1 1) 0
       \<lparr>share_heads = False, match_pending = False, conflict_unison = True,
        conflict_second_up_higher = False, conflict_second_down_higher = False,
        last_line = 4, prev_note = ex_note 4 True 0 0 1 0\<rparr>
       (ex_note 4 False 1 1 1 0) (ex_note 4 True 0 0 1 0)))"
  using lc1_offsets_separate [of 0 "\<lparr>share_heads = False, match_pending = False, conflict_unison = True,
        conflict_second_up_higher = False, conflict_second_down_higher = False,
        last_line = 4, prev_note = ex_note 4 True 0 0 1 0\<rparr>" "ex_env 1 1" lc1_groups0
        "lc1_center (ex_env 1 1) 1 1 1" "ex_note 4 False 1 1 1 0" "ex_note 4 True 0 0 1 0"]
  by (simp add: ex_env_def lc1_center_def Let_def)

text \<open>
  \<open>layoutChords1\<close> on a standard staff puts all chords with the same stem
  direction at the same horizontal offset: the offset of a chord depends only on
  whether its stem is up.
\<close>

theorem layoutChords1_group_x:
  assumes "layoutChords1 env tracks = Some (tracks', ns)" and "\<not> env_tab env"
    and "i < length tracks'" and "j < length tracks'"
    and "tracks' ! i = Some c1" and "tracks' ! j = Some c2" and "ch_up c1 = ch_up c2"
  shows "ch_x c1 = ch_x c2"
proof -
  obtain pl where pl: "\<And>i c. i < length tracks' \<Longrightarrow> tracks' ! i = Some c \<Longrightarrow>
                \<exists>c0. tracks ! i = Some c0 \<and> c = lc1_apply pl c0"
    using layoutChords1_apply [OF assms(1,2)] by blast
  obtain c0 c0' where "c1 = lc1_apply pl c0" "c2 = lc1_apply pl c0'"
    using pl [OF assms(3,5)] pl [OF assms(4,6)] by blast
  then show ?thesis using assms(7) by (simp add: lc1_apply_def)
qed

theorem layoutChords1_group_x_witness:
  "ch_x (the (fst (the (layoutChords1 (ex_env 1 1) [Some (ex_chord True [ex_note 2 True 0 0 1 0]), Some (ex_chord True [ex_note 4 True 1 1 1 0]),
            None, None])) ! 0)) =
   ch_x (the (fst (the (layoutChords1 (ex_env 1 1) [Some (ex_chord True [ex_note 2 True 0 0 1 0]), Some (ex_chord True [ex_note 4 True 1 1 1 0]),
            None, None])) ! 1))"
  by (rule layoutChords1_group_x [of "ex_env 1 1" "[Some (ex_chord True [ex_note 2 True 0 0 1 0]), Some (ex_chord True [ex_note 4 True 1 1 1 0]),
            None, None]"
        "fst (the (layoutChords1 (ex_env 1 1) [Some (ex_chord True [ex_note 2 True 0 0 1 0]), Some (ex_chord True [ex_note 4 True 1 1 1 0]),
            None, None]))" "snd (the (layoutChords1 (ex_env 1 1) [Some (ex_chord True [ex_note 2 True 0 0 1 0]), Some (ex_chord True [ex_note 4 True 1 1 1 0]),
            None, None]))" 0 1])
     (simp_all add: lc1_eval)

text \<open>
  C8: hiding dots of shared heads.  In the list of shared pairs, for the two notes of a
  pair whose chords have as many dots and are not nudged, exactly one has its dots
  hidden; for any other pair neither has.
\<close>

theorem lc1_hide_dots_pairs:
  assumes "distinct (map note_id xs)" and "Suc k < length xs" and "even k"
  shows "if \<not> (note_chord_nudged (xs ! k) \<or> note_chord_nudged (xs ! Suc k)) \<and>
            note_chord_dots (xs ! k) = note_chord_dots (xs ! Suc k)
         then (note_id (xs ! k) \<in> lc1_hide_dots xs) \<noteq> (note_id (xs ! Suc k) \<in> lc1_hide_dots xs)
         else note_id (xs ! k) \<notin> lc1_hide_dots xs \<and> note_id (xs ! Suc k) \<notin> lc1_hide_dots xs"
  using assms
proof (induction xs arbitrary: k rule: lc1_hide_dots.induct)
  case (1 p n rest)
  show ?case
  proof (cases k)
    case 0
    have "note_id p \<notin> lc1_hide_dots rest" "note_id n \<notin> lc1_hide_dots rest"
      using lc1_hide_dots_ids [of rest] "1.prems"(1) by auto
    then show ?thesis using "1.prems"(1) 0 by auto
  next
    case (Suc k')
    then obtain k'' where k'': "k = Suc (Suc k'')" using "1.prems"(3) by (cases k') auto
    have d: "distinct (map note_id rest)" using "1.prems"(1) by simp
    have "rest ! k'' \<in> set rest" "rest ! Suc k'' \<in> set rest"
      using "1.prems"(2) k'' by simp_all
    then have "note_id (rest ! k'') \<in> note_id ` set rest" "note_id (rest ! Suc k'') \<in> note_id ` set rest"
      by simp_all
    then have "note_id (rest ! k'') \<noteq> note_id p" "note_id (rest ! k'') \<noteq> note_id n"
         "note_id (rest ! Suc k'') \<noteq> note_id p" "note_id (rest ! Suc k'') \<noteq> note_id n"
      using "1.prems"(1) by auto
    then show ?thesis using "1.IH" [OF d, of k''] "1.prems"(2,3) k'' by auto
  qed
qed auto

theorem lc1_hide_dots_pairs_witness:
  "(0 \<in> lc1_hide_dots [ex_note 4 True 0 0 1 0, ex_note 4 False 1 1 1 0]) \<noteq>
   (1 \<in> lc1_hide_dots [ex_note 4 True 0 0 1 0, ex_note 4 False 1 1 1 0])"
  using lc1_hide_dots_pairs [of "[ex_note 4 True 0 0 1 0, ex_note 4 False 1 1 1 0]" 0]
  by (simp add: ex_note_def)

text \<open>
  A chord with up stem on lines 0 and 2 (a third) and a chord with down stem on line 1 (the
  second between them): the scan marks the second as ``up-stem note higher'' and the cascade
  moves the up-stem chord right by the down-stem head width plus 0.2 sp, while the
  down-stem chord stays at 0.
\<close>

theorem layoutChords1_second_inside_third:
  assumes "0 < w" and "0 < sp"
  shows "map_option (map (map_option ch_x) \<circ> fst)
           (layoutChords1 (ex_env w sp)
              [Some (ex_chord True [ex_note 2 True 0 0 w sw, ex_note 0 True 1 0 w sw]),
               Some (ex_chord False [ex_note 1 False 2 1 w sw]), None, None])
         = Some [Some (w + 0.2 * sp), Some 0, None, None]"
  using assms by (simp add: lc1_eval)

theorem layoutChords1_second_inside_third_witness:
  "map_option (map (map_option ch_x) \<circ> fst)
         (layoutChords1 (ex_env 1 1)
            [Some (ex_chord True [ex_note 2 True 0 0 1 0, ex_note 0 True 1 0 1 0]),
             Some (ex_chord False [ex_note 1 False 2 1 1 0]), None, None])
       = Some [Some (1 + 0.2 * 1), Some 0, None, None]"
  using layoutChords1_second_inside_third [of 1 1 "0"] by simp

text \<open>
  Two voices in unison on a line, with heads that can be shared (same pitch spelling,
  head and duration, no dots, both stemmed): neither chord moves, and the dots of the
  lower voice's note are hidden.
\<close>

theorem layoutChords1_unison_shared:
  assumes "0 < w" and "0 < sp"
  shows "map_option (\<lambda>(t, ns). (map (map_option ch_x) t, map (\<lambda>n. (note_id n, note_dots_hidden n)) ns))
           (layoutChords1 (ex_env w sp)
              [Some (ex_chord True [ex_note 4 True 0 0 w sw]),
               Some (ex_chord False [ex_note 4 False 1 1 w sw]), None, None])
         = Some ([Some 0, Some 0, None, None], [(0, False), (1, True)])"
  using assms by (simp add: lc1_eval)

theorem layoutChords1_unison_shared_witness:
  "map_option (\<lambda>(t, ns). (map (map_option ch_x) t, map (\<lambda>n. (note_id n, note_dots_hidden n)) ns))
         (layoutChords1 (ex_env 1 1)
            [Some (ex_chord True [ex_note 4 True 0 0 1 0]),
             Some (ex_chord False [ex_note 4 False 1 1 1 0]), None, None])
       = Some ([Some 0, Some 0, None, None], [(0, False), (1, True)])"
  using layoutChords1_unison_shared [of 1 1 "0"] by simp

text \<open>
  Two voices in unison whose heads cannot be shared (different pitch spelling, as F and
  F sharp): the down-stem chord moves right by the up-stem head width plus 0.3 sp.
\<close>

theorem layoutChords1_unison_unshared:
  assumes "0 < w" and "0 < sp"
  shows "map_option (map (map_option ch_x) \<circ> fst)
           (layoutChords1 (ex_env w sp)
              [Some (ex_chord True [ex_note 4 True 0 0 w sw]),
               Some (ex_chord False [(ex_note 4 False 1 1 w sw)\<lparr>note_tpc := 21\<rparr>]), None, None])
         = Some [Some 0, Some (w + 0.3 * sp), None, None]"
  using assms by (simp add: lc1_eval)

theorem layoutChords1_unison_unshared_witness:
  "map_option (map (map_option ch_x) \<circ> fst)
         (layoutChords1 (ex_env 1 1)
            [Some (ex_chord True [ex_note 4 True 0 0 1 0]),
             Some (ex_chord False [(ex_note 4 False 1 1 1 (0))\<lparr>note_tpc := 21\<rparr>]), None, None])
       = Some [Some 0, Some (1 + 0.3 * 1), None, None]"
  using layoutChords1_unison_unshared [of 1 1 "0"] by simp

text \<open>
  A down-stem note a step below an up-stem note (separation 1): the down-stem chord moves
  right by the up-stem head width less its own stem width, so the stems line up, and the
  up-stem chord stays at 0.
\<close>

theorem layoutChords1_second_below:
  assumes "0 < w" and "0 < sw" and "sw < w"
  shows "map_option (map (map_option ch_x) \<circ> fst)
           (layoutChords1 (ex_env w sp)
              [Some (ex_chord True [ex_note 4 True 0 0 w sw]),
               Some (ex_chord False [ex_note 5 False 1 1 w sw]), None, None])
         = Some [Some 0, Some (w - sw), None, None]"
  using assms by (simp add: lc1_eval)

theorem layoutChords1_second_below_witness:
  "map_option (map (map_option ch_x) \<circ> fst)
         (layoutChords1 (ex_env 1 1)
            [Some (ex_chord True [ex_note 4 True 0 0 1 (1/10)]),
             Some (ex_chord False [ex_note 5 False 1 1 1 (1/10)]), None, None])
       = Some [Some 0, Some (1 - 1/10), None, None]"
  using layoutChords1_second_below [of 1 "1/10" 1] by simp

end
