(* ===== verification/Beams.thy ===== *)
theory Beams
  imports Layout_Prelude "HOL-Library.Sublist"
begin

text \<open>
  Beam grouping, \<open>Score::createBeams\<close> and \<open>Score::beamGraceNotes\<close> of
  \<open>src/libmscore/layout.cpp\<close>.  Both walk the chord-rests of one track (of the
  grace notes of one chord) with the same state machine: a pending candidate \<open>a1\<close>,
  the beam being built, and the beams already closed.  \<open>beam_step\<close> is that machine,
  parametrised by the condition under which a pending candidate is dropped instead of
  starting a beam with the current element (\<open>cb_break\<close> for measures,
  \<open>grace_break\<close> for grace notes).  \<open>Groups::endBeam\<close>, the grouping rule of the
  time signature, is not under \<open>src/\<close>: it is a parameter \<open>endBeam\<close> of the model.
  A beam is the list of chord-rests added to it in order; which \<open>Beam\<close> object is
  reused (\<open>a1->beam()\<close>) only decides the object's identity, and
  \<open>removeDeleteBeam\<close> detaches exactly the elements that end in no beam.
\<close>

subsection \<open>Durations\<close>

text \<open>\<open>TDuration::DurationType\<close>, in declaration order: later is shorter.\<close>

datatype duration_type = V_LONG | V_BREVE | V_WHOLE | V_HALF | V_QUARTER | V_EIGHTH | V_16TH
  | V_32ND | V_64TH | V_128TH | V_256TH | V_512TH | V_1024TH | V_ZERO | V_MEASURE | V_INVALID

fun dt_index :: "duration_type \<Rightarrow> nat" where
  "dt_index V_LONG = 0" | "dt_index V_BREVE = 1" | "dt_index V_WHOLE = 2" | "dt_index V_HALF = 3"
| "dt_index V_QUARTER = 4" | "dt_index V_EIGHTH = 5" | "dt_index V_16TH = 6" | "dt_index V_32ND = 7"
| "dt_index V_64TH = 8" | "dt_index V_128TH = 9" | "dt_index V_256TH = 10" | "dt_index V_512TH = 11"
| "dt_index V_1024TH = 12" | "dt_index V_ZERO = 13" | "dt_index V_MEASURE = 14"
| "dt_index V_INVALID = 15"

text \<open>The enum's integer order, as C++ compares \<open>type() <= V_QUARTER\<close>.\<close>

instantiation duration_type :: linorder
begin

definition less_eq_duration_type :: "duration_type \<Rightarrow> duration_type \<Rightarrow> bool" where
  "less_eq_duration_type a b \<longleftrightarrow> dt_index a \<le> dt_index b"

definition less_duration_type :: "duration_type \<Rightarrow> duration_type \<Rightarrow> bool" where
  "less_duration_type a b \<longleftrightarrow> dt_index a < dt_index b"

instance
proof
  fix a b :: duration_type
  show "a \<le> b \<Longrightarrow> b \<le> a \<Longrightarrow> a = b"
    unfolding less_eq_duration_type_def by (cases a; cases b) simp_all
qed (auto simp: less_eq_duration_type_def less_duration_type_def)

end

text \<open>A \<open>TDuration\<close>: its type and dots.\<close>

record tduration =
  td_type :: duration_type
  td_dots :: nat

text \<open>
  \<open>TDuration::operator<\<close>: shorter is less (a later type, or the same type with
  fewer dots); \<open>qMin\<close> returns its first argument unless the second is less; a
  \<open>QHash\<close> lookup of a missing key yields \<open>TDuration()\<close>, that is \<open>V_INVALID\<close>.
\<close>

definition td_less :: "tduration \<Rightarrow> tduration \<Rightarrow> bool" where
  "td_less a b \<longleftrightarrow> td_type b < td_type a \<or> (td_type b = td_type a \<and> td_dots a < td_dots b)"

definition td_min :: "tduration \<Rightarrow> tduration \<Rightarrow> tduration" where
  "td_min a b = (if td_less a b then a else b)"

definition td_default :: tduration where
  "td_default = \<lparr>td_type = V_INVALID, td_dots = 0\<rparr>"

text \<open>\<open>TDuration::hooks()\<close>: flags of an eighth or shorter note value.\<close>

definition dur_hooks :: "tduration \<Rightarrow> nat" where
  "dur_hooks d = (if V_EIGHTH \<le> td_type d \<and> td_type d \<le> V_1024TH then dt_index (td_type d) - 4 else 0)"

text \<open>\<open>Beam::Mode\<close> and the \<open>beamModeMid\<close> macro.\<close>

datatype beam_mode = BM_AUTO | BM_BEGIN | BM_MID | BM_END | BM_NONE | BM_BEGIN32 | BM_BEGIN64
  | BM_INVALID

definition beam_mode_mid :: "beam_mode \<Rightarrow> bool" where
  "beam_mode_mid a \<longleftrightarrow> a = BM_MID \<or> a = BM_BEGIN32 \<or> a = BM_BEGIN64"

subsection \<open>The beam state machine\<close>

text \<open>
  A chord-rest as the beam code reads it: \<open>tick()\<close>, \<open>rtick()\<close> (tick in the
  measure), \<open>actualTicks()\<close>, \<open>durationType()\<close>, whether it is the second part of
  a cross-measure value, and whether it is a rest (which the beam code never tests).
\<close>

record bcr =
  bcr_id :: nat
  bcr_tick :: tick
  bcr_rtick :: tick
  bcr_ticks :: tick
  bcr_dur :: tduration
  bcr_cm_second :: bool
  bcr_rest :: bool

record beam_st =
  bs_a1 :: "bcr option"
  bs_beam :: "bcr list option"
  bs_beams :: "bcr list list"

definition beam_st0 :: beam_st where
  "beam_st0 = \<lparr>bs_a1 = None, bs_beam = None, bs_beams = []\<rparr>"

text \<open>\<open>beam->layout1()\<close> (\<open>layoutGraceNotes()\<close>) then \<open>beam = 0\<close>: the beam is closed.\<close>

definition close_beam :: "beam_st \<Rightarrow> beam_st" where
  "close_beam st = (case bs_beam st of None \<Rightarrow> st
                    | Some b \<Rightarrow> st\<lparr>bs_beam := None, bs_beams := bs_beams st @ [b]\<rparr>)"

text \<open>
  One iteration of the loop for element \<open>cr\<close> with beam mode \<open>bm\<close>: a quarter or
  longer value, or mode \<open>NONE\<close>, closes everything; an open beam takes \<open>cr\<close> unless
  \<open>bm\<close> is \<open>BEGIN\<close>, and \<open>END\<close> closes it after \<open>cr\<close>; otherwise \<open>cr\<close>
  becomes the candidate, or starts a beam with the pending candidate unless
  \<open>brk a1 cr bm\<close>.
\<close>

definition beam_step ::
  "(bcr \<Rightarrow> bcr \<Rightarrow> beam_mode \<Rightarrow> bool) \<Rightarrow> beam_st \<Rightarrow> bcr \<times> beam_mode \<Rightarrow> beam_st" where
  "beam_step brk st x =
     (let (cr, bm) = x
      in if td_type (bcr_dur cr) \<le> V_QUARTER \<or> bm = BM_NONE then
           (close_beam st)\<lparr>bs_a1 := None\<rparr>
         else
           (case bs_beam st of
              Some b \<Rightarrow>
                if bm = BM_BEGIN then
                  (case bs_a1 st of
                     None \<Rightarrow> (close_beam st)\<lparr>bs_a1 := Some cr\<rparr>
                   | Some a \<Rightarrow> if brk a cr bm then (close_beam st)\<lparr>bs_a1 := Some cr\<rparr>
                               else (close_beam st)\<lparr>bs_beam := Some [a, cr], bs_a1 := None\<rparr>)
                else if bm = BM_END then close_beam (st\<lparr>bs_beam := Some (b @ [cr])\<rparr>)
                else st\<lparr>bs_beam := Some (b @ [cr])\<rparr>
            | None \<Rightarrow>
                (case bs_a1 st of
                   None \<Rightarrow> st\<lparr>bs_a1 := Some cr\<rparr>
                 | Some a \<Rightarrow> if brk a cr bm then st\<lparr>bs_a1 := Some cr\<rparr>
                             else st\<lparr>bs_beam := Some [a, cr], bs_a1 := None\<rparr>)))"

text \<open>After the loop: \<open>if (beam) beam->layout1(); else if (a1) a1->removeDeleteBeam(false)\<close>.\<close>

definition beam_finish :: "beam_st \<Rightarrow> bcr list list" where
  "beam_finish st = bs_beams (close_beam st)"

definition beam_run ::
  "(bcr \<Rightarrow> bcr \<Rightarrow> beam_mode \<Rightarrow> bool) \<Rightarrow> (bcr \<times> beam_mode) list \<Rightarrow> bcr list list" where
  "beam_run brk xs = beam_finish (foldl (beam_step brk) beam_st0 xs)"

subsection \<open>Grace notes\<close>

text \<open>
  \<open>beamGraceNotes\<close>: the mode of a grace note is \<open>Groups::endBeam(cr)\<close> (no
  previous element), and a pending candidate is dropped only at \<open>BEGIN\<close>.
\<close>

definition grace_break :: "bcr \<Rightarrow> bcr \<Rightarrow> beam_mode \<Rightarrow> bool" where
  "grace_break a cr bm \<longleftrightarrow> \<not> beam_mode_mid bm \<and> bm = BM_BEGIN"

definition beamGraceNotes :: "(bcr \<Rightarrow> bcr option \<Rightarrow> beam_mode) \<Rightarrow> bcr list \<Rightarrow> bcr list list" where
  "beamGraceNotes endBeam graces = beam_run grace_break (map (\<lambda>cr. (cr, endBeam cr None)) graces)"

subsection \<open>Measures\<close>

text \<open>\<open>MScore::division\<close>, ticks per quarter note.\<close>

abbreviation division :: int where
  "division \<equiv> 480"

text \<open>
  The time signature of the staff at the measure, as \<open>createBeams\<close> reads it:
  \<open>stretch()\<close> as numerator and denominator, and \<open>denominator()\<close>.
\<close>

record tsig =
  ts_stretch_num :: int
  ts_stretch_den :: int
  ts_denominator :: int

definition cb_stretch :: "tsig option \<Rightarrow> int \<times> int" where
  "cb_stretch ts = (case ts of None \<Rightarrow> (1, 1) | Some t \<Rightarrow> (ts_stretch_num t, ts_stretch_den t))"

text \<open>The tick of \<open>cr\<close> in the measure scaled by the stretch.\<close>

definition cb_scaled :: "tsig option \<Rightarrow> bcr \<Rightarrow> int" where
  "cb_scaled ts cr = cxx_div (bcr_rtick cr * fst (cb_stretch ts)) (snd (cb_stretch ts))"

text \<open>The prepass over the track in an X/4 measure: the shortest value in each beat.\<close>

definition beat_sub_step :: "tsig option \<Rightarrow> (int \<rightharpoonup> tduration) \<Rightarrow> bcr \<Rightarrow> int \<rightharpoonup> tduration" where
  "beat_sub_step ts sub mcr =
     (let beat = cxx_div (cb_scaled ts mcr) division
      in case sub beat of
           Some d \<Rightarrow> sub(beat \<mapsto> td_min d (bcr_dur mcr))
         | None \<Rightarrow> sub(beat \<mapsto> bcr_dur mcr))"

definition beat_subdivision :: "tsig option \<Rightarrow> bcr list \<Rightarrow> int \<rightharpoonup> tduration" where
  "beat_subdivision ts crs = foldl (beat_sub_step ts) Map.empty crs"

definition cb_check_beats :: "tsig option \<Rightarrow> bool" where
  "cb_check_beats ts \<longleftrightarrow> (case ts of None \<Rightarrow> False | Some t \<Rightarrow> ts_denominator t = 4)"

text \<open>
  The beam mode of \<open>cr\<close> after \<open>prev\<close>: \<open>Groups::endBeam\<close>; in an X/4 measure an
  \<open>AUTO\<close> on a beat other than the first is recomputed as if \<open>cr\<close> had the shortest
  value of this and the previous beat; the second part of a cross-measure value with
  hooks is \<open>NONE\<close>.
\<close>

definition cb_mode ::
  "(bcr \<Rightarrow> bcr option \<Rightarrow> beam_mode) \<Rightarrow> tsig option \<Rightarrow> (int \<rightharpoonup> tduration) \<Rightarrow> bcr option \<Rightarrow> bcr \<Rightarrow> beam_mode" where
  "cb_mode endBeam ts sub prev cr =
     (let bm = endBeam cr prev;
          bm' = (if bm = BM_AUTO \<and> cb_check_beats ts \<and> bcr_rtick cr \<noteq> 0 then
                   (let tick = cb_scaled ts cr
                    in if cxx_mod tick division = 0 then
                         (let beat = cxx_div tick division;
                              minDuration = td_min (case sub beat of Some d \<Rightarrow> d | None \<Rightarrow> td_default)
                                                   (case sub (beat - 1) of Some d \<Rightarrow> d | None \<Rightarrow> td_default)
                          in endBeam (cr\<lparr>bcr_dur := minDuration\<rparr>) prev)
                       else bm)
                 else bm)
      in if 0 < dur_hooks (bcr_dur cr) \<and> bcr_cm_second cr then BM_NONE else bm')"

text \<open>The modes of all chord-rests of the track, each computed with its predecessor.\<close>

fun cb_modes ::
  "(bcr \<Rightarrow> bcr option \<Rightarrow> beam_mode) \<Rightarrow> tsig option \<Rightarrow> (int \<rightharpoonup> tduration) \<Rightarrow> bcr option \<Rightarrow>
   bcr list \<Rightarrow> (bcr \<times> beam_mode) list" where
  "cb_modes endBeam ts sub prev [] = []"
| "cb_modes endBeam ts sub prev (cr # crs) =
     (cr, cb_mode endBeam ts sub prev cr) # cb_modes endBeam ts sub (Some cr) crs"

text \<open>
  In a measure a pending candidate is also dropped when it does not reach the current
  element (\<open>a1->tick() + a1->actualTicks() < cr->tick()\<close>); the segment-type test
  of the source always holds, both being chord-rest segments.
\<close>

definition cb_break :: "bcr \<Rightarrow> bcr \<Rightarrow> beam_mode \<Rightarrow> bool" where
  "cb_break a cr bm \<longleftrightarrow>
     \<not> beam_mode_mid bm \<and> (bm = BM_BEGIN \<or> bcr_tick a + bcr_ticks a < bcr_tick cr)"

text \<open>
  \<open>createBeams\<close> for one track: \<open>None\<close> when the staff is hidden or is a
  tablature staff with slash style (the track is skipped, its beams untouched), else the
  beams of the track's chord-rests \<open>crs\<close>, in segment order.
\<close>

definition createBeams_track ::
  "(bcr \<Rightarrow> bcr option \<Rightarrow> beam_mode) \<Rightarrow> bool \<Rightarrow> bool \<Rightarrow> tsig option \<Rightarrow> bcr list \<Rightarrow> bcr list list option" where
  "createBeams_track endBeam show tabSlash ts crs =
     (if \<not> show \<or> tabSlash then None
      else
        let sub = (if cb_check_beats ts then beat_subdivision ts crs else Map.empty)
        in Some (beam_run cb_break (cb_modes endBeam ts sub None crs)))"

subsection \<open>Invariant of the beam state\<close>

text \<open>
  A well-formed beam has at least two elements, all shorter than a quarter.  The
  invariant over the processed prefix \<open>xs\<close>: closed beams are well formed and
  contiguous in \<open>xs\<close>; an open beam is well formed, ends \<open>xs\<close> and excludes a
  candidate; a candidate is the last element of \<open>xs\<close>; and all beams together
  are a subsequence of \<open>xs\<close> (of \<open>xs\<close> without its candidate).
\<close>

definition beam_ok :: "bcr list \<Rightarrow> bool" where
  "beam_ok b \<longleftrightarrow> 2 \<le> length b \<and> (\<forall>c\<in>set b. V_QUARTER < td_type (bcr_dur c))"

definition beam_inv :: "bcr list \<Rightarrow> beam_st \<Rightarrow> bool" where
  "beam_inv xs st \<longleftrightarrow>
     (\<forall>b\<in>set (bs_beams st). beam_ok b \<and> sublist b xs) \<and>
     (case bs_beam st of
        Some b \<Rightarrow> beam_ok b \<and> suffix b xs \<and> bs_a1 st = None \<and> subseq (concat (bs_beams st) @ b) xs
      | None \<Rightarrow>
          (case bs_a1 st of
             Some a \<Rightarrow> V_QUARTER < td_type (bcr_dur a) \<and>
                       (\<exists>ys. xs = ys @ [a] \<and> subseq (concat (bs_beams st)) ys)
           | None \<Rightarrow> subseq (concat (bs_beams st)) xs))"

subsection \<open>Fixtures\<close>

text \<open>A chord-rest \<open>i\<close> at tick \<open>t\<close> (in a measure starting at 0) of length \<open>len\<close>; the 4/4 signature.\<close>

definition ex_bcr :: "nat \<Rightarrow> tick \<Rightarrow> tick \<Rightarrow> duration_type \<Rightarrow> bool \<Rightarrow> bcr" where
  "ex_bcr i t len dt rest = \<lparr>bcr_id = i, bcr_tick = t, bcr_rtick = t, bcr_ticks = len,
     bcr_dur = \<lparr>td_type = dt, td_dots = 0\<rparr>, bcr_cm_second = False, bcr_rest = rest\<rparr>"

definition ts44 :: "tsig option" where
  "ts44 = Some \<lparr>ts_stretch_num = 1, ts_stretch_den = 1, ts_denominator = 4\<rparr>"

subsection \<open>Properties\<close>

lemma sublist_snoc: "sublist b xs \<Longrightarrow> sublist b (xs @ [c])"
  unfolding sublist_def by (metis append.assoc)

lemma subseq_snoc2: "subseq (xs @ ys @ [c]) (zs @ [c]) \<longleftrightarrow> subseq (xs @ ys) zs"
  using subseq_append [of "xs @ ys" "[c]" zs] by simp

lemma beam_inv_close:
  assumes "beam_inv xs st"
  shows "\<forall>b\<in>set (bs_beams (close_beam st)). beam_ok b \<and> sublist b xs"
    and "subseq (concat (bs_beams (close_beam st))) xs"
  using assms by (auto simp: beam_inv_def close_beam_def suffix_imp_sublist subseq_rev_drop_many
                       split: option.splits)

lemma beam_inv_step:
  assumes "beam_inv xs st"
  shows "beam_inv (xs @ [fst x]) (beam_step brk st x)"
proof -
  obtain c bm where x: "x = (c, bm)" by fastforce
  have old: "\<forall>b\<in>set (bs_beams st). beam_ok b \<and> sublist b (xs @ [c])"
    using assms by (auto simp: beam_inv_def sublist_snoc)
  show ?thesis
  proof (cases "td_type (bcr_dur c) \<le> V_QUARTER \<or> bm = BM_NONE")
    case True
    then show ?thesis using assms x
      by (auto simp: beam_inv_def beam_step_def close_beam_def suffix_imp_sublist sublist_snoc
                     subseq_rev_drop_many split: option.splits)
  next
    case False
    show ?thesis
    proof (cases "bs_beam st")
      case None
      then show ?thesis using assms x False old
        by (auto simp: beam_inv_def beam_step_def beam_ok_def subseq_rev_drop_many split: option.splits)
    next
      case (Some b)
      then show ?thesis using assms x False old
        by (auto simp: beam_inv_def beam_step_def close_beam_def beam_ok_def suffix_imp_sublist
                       sublist_snoc subseq_rev_drop_many subseq_snoc2 split: option.splits)
    qed
  qed
qed


lemma beam_inv_run: "beam_inv (map fst xs) (foldl (beam_step brk) beam_st0 xs)"
proof (induction xs rule: rev_induct)
  case Nil
  then show ?case by (simp add: beam_inv_def beam_st0_def)
next
  case (snoc x xs)
  then show ?case using beam_inv_step [OF snoc] by simp
qed

lemma beam_run_props:
  "(\<forall>b\<in>set (beam_run brk xs). beam_ok b \<and> sublist b (map fst xs)) \<and>
   subseq (concat (beam_run brk xs)) (map fst xs)"
  using beam_inv_close [OF beam_inv_run [of xs brk]]
  unfolding beam_run_def beam_finish_def
  by (auto simp: beam_inv_def split: option.splits)

lemma cb_modes_fst: "map fst (cb_modes endBeam ts sub prev crs) = crs"
  by (induction crs arbitrary: prev) simp_all

lemma beam_run_long:
  "\<forall>x\<in>set xs. td_type (bcr_dur (fst x)) \<le> V_QUARTER \<Longrightarrow> beam_run brk xs = []"
proof -
  assume a: "\<forall>x\<in>set xs. td_type (bcr_dur (fst x)) \<le> V_QUARTER"
  have "foldl (beam_step brk) beam_st0 xs = beam_st0"
    using a by (induction xs) (auto simp: beam_step_def beam_st0_def close_beam_def)
  then show ?thesis by (simp add: beam_run_def beam_finish_def beam_st0_def close_beam_def)
qed

lemmas beam_eval = createBeams_track_def beam_run_def beam_finish_def beam_step_def beam_st0_def
  close_beam_def cb_break_def beam_mode_mid_def cb_mode_def cb_check_beats_def cb_scaled_def
  cb_stretch_def beat_subdivision_def beat_sub_step_def td_min_def td_less_def td_default_def
  dur_hooks_def cxx_div_def cxx_mod_def less_eq_duration_type_def less_duration_type_def
  ex_bcr_def ts44_def Let_def

text \<open>
  C13: the beams \<open>createBeams\<close> builds on a track are runs of consecutive
  chord-rests of the track, of at least two elements each, all shorter than a quarter
  note; no chord-rest is in two beams and their order is the track's.
\<close>

theorem createBeams_track_beams:
  assumes "createBeams_track endBeam show tabSlash ts crs = Some bs"
  shows "(\<forall>b\<in>set bs. 2 \<le> length b \<and> sublist b crs \<and> (\<forall>c\<in>set b. V_QUARTER < td_type (bcr_dur c))) \<and>
         subseq (concat bs) crs"
  using assms beam_run_props [of cb_break "cb_modes endBeam ts _ None crs"]
  by (auto simp: createBeams_track_def Let_def cb_modes_fst beam_ok_def split: if_splits)

theorem createBeams_track_beams_witness:
  "createBeams_track (\<lambda>_ _. BM_AUTO) True False ts44 [ex_bcr 0 0 240 V_EIGHTH False, ex_bcr 1 240 240 V_EIGHTH False] = Some [[ex_bcr 0 0 240 V_EIGHTH False, ex_bcr 1 240 240 V_EIGHTH False]] \<and>
   sublist [ex_bcr 0 0 240 V_EIGHTH False, ex_bcr 1 240 240 V_EIGHTH False] [ex_bcr 0 0 240 V_EIGHTH False, ex_bcr 1 240 240 V_EIGHTH False] \<and> V_QUARTER < td_type (bcr_dur (ex_bcr 1 240 240 V_EIGHTH False))"
proof -
  have r: "createBeams_track (\<lambda>_ _. BM_AUTO) True False ts44 [ex_bcr 0 0 240 V_EIGHTH False, ex_bcr 1 240 240 V_EIGHTH False] = Some [[ex_bcr 0 0 240 V_EIGHTH False, ex_bcr 1 240 240 V_EIGHTH False]]"
    by (simp add: beam_eval)
  show ?thesis using createBeams_track_beams [OF r] r by simp
qed

text \<open>The same holds of the beams \<open>beamGraceNotes\<close> builds on the grace notes of a chord.\<close>

theorem beamGraceNotes_beams:
  "(\<forall>b\<in>set (beamGraceNotes endBeam gs). 2 \<le> length b \<and> sublist b gs \<and>
      (\<forall>c\<in>set b. V_QUARTER < td_type (bcr_dur c))) \<and>
   subseq (concat (beamGraceNotes endBeam gs)) gs"
  using beam_run_props [of grace_break "map (\<lambda>cr. (cr, endBeam cr None)) gs"]
  by (simp add: beamGraceNotes_def beam_ok_def comp_def)

theorem beamGraceNotes_beams_witness:
  "beamGraceNotes (\<lambda>_ _. BM_AUTO) [ex_bcr 0 0 60 V_32ND False, ex_bcr 1 0 60 V_32ND False] = [[ex_bcr 0 0 60 V_32ND False, ex_bcr 1 0 60 V_32ND False]] \<and>
   sublist [ex_bcr 0 0 60 V_32ND False, ex_bcr 1 0 60 V_32ND False] [ex_bcr 0 0 60 V_32ND False, ex_bcr 1 0 60 V_32ND False] \<and> V_QUARTER < td_type (bcr_dur (ex_bcr 1 0 60 V_32ND False))"
proof -
  have r: "beamGraceNotes (\<lambda>_ _. BM_AUTO) [ex_bcr 0 0 60 V_32ND False, ex_bcr 1 0 60 V_32ND False] = [[ex_bcr 0 0 60 V_32ND False, ex_bcr 1 0 60 V_32ND False]]"
    by (simp add: beamGraceNotes_def beam_eval grace_break_def)
  show ?thesis using beamGraceNotes_beams [of "\<lambda>_ _. BM_AUTO" "[ex_bcr 0 0 60 V_32ND False, ex_bcr 1 0 60 V_32ND False]"] r by simp
qed

text \<open>
  Four quarter notes of a 4/4 measure get no beam, whatever the grouping rule
  says: \<open>createBeams\<close> closes every beam at a value of a quarter or longer.
\<close>

theorem createBeams_quarters:
  "createBeams_track endBeam True False ts44
     [ex_bcr 0 0 480 V_QUARTER False, ex_bcr 1 480 480 V_QUARTER False,
      ex_bcr 2 960 480 V_QUARTER False, ex_bcr 3 1440 480 V_QUARTER False] = Some []"
  by (simp add: createBeams_track_def beam_run_long cb_modes_fst ex_bcr_def less_eq_duration_type_def)

text \<open>
  A rest between two eighths does not close the beam: with a grouping rule that
  answers \<open>AUTO\<close> throughout, the three form one beam.
\<close>

theorem createBeams_rest_inside:
  "createBeams_track (\<lambda>_ _. BM_AUTO) True False ts44
     [ex_bcr 0 0 240 V_EIGHTH False, ex_bcr 1 240 240 V_EIGHTH True, ex_bcr 2 480 240 V_EIGHTH False]
   = Some [[ex_bcr 0 0 240 V_EIGHTH False, ex_bcr 1 240 240 V_EIGHTH True, ex_bcr 2 480 240 V_EIGHTH False]]"
  by (simp add: beam_eval)

text \<open>
  In an X/4 measure an eighth on a beat following a beat of sixteenths is judged as
  a sixteenth: with a rule that starts a beam at each beat for sixteenths only, the
  sixteenths of beat 1 and the eighths of beat 2 form two beams.
\<close>

theorem createBeams_beat_subdivision:
  "createBeams_track
     (\<lambda>cr _. if V_16TH \<le> td_type (bcr_dur cr) \<and> bcr_rtick cr mod 480 = 0 then BM_BEGIN else BM_AUTO)
     True False ts44
     [ex_bcr 0 0 120 V_16TH False, ex_bcr 1 120 120 V_16TH False, ex_bcr 2 240 120 V_16TH False,
      ex_bcr 3 360 120 V_16TH False, ex_bcr 4 480 240 V_EIGHTH False, ex_bcr 5 720 240 V_EIGHTH False]
   = Some [[ex_bcr 0 0 120 V_16TH False, ex_bcr 1 120 120 V_16TH False, ex_bcr 2 240 120 V_16TH False,
            ex_bcr 3 360 120 V_16TH False], [ex_bcr 4 480 240 V_EIGHTH False, ex_bcr 5 720 240 V_EIGHTH False]]"
  by (simp add: beam_eval)

end
