(* ===== verification/Collect_System.thy ===== *)
theory Collect_System
  imports Layout_Prelude
begin

text \<open>
  System collection, \<open>Score::collectSystem\<close> of \<open>src/libmscore/layout.cpp\<close>:
  the greedy loop that pulls measures and boxes from the stream into a system
  (\<open>cs_collect\<close>), and the distribution of the leftover width over the measures in
  proportion to \<open>ticks * max(userStretch, 1)\<close> (\<open>cs_place\<close>).  A measure base is
  a record of the values the loop reads; the widths that come from other functions
  (\<open>computeMinWidth\<close>, \<open>createEndBarLines\<close>, \<open>cautionaryWidth\<close>) are fields
  of it.  \<open>getNextMeasure\<close> is the step to the next element of the stream; a ranged
  layout (\<open>lc.rangeLayout\<close>) is not modelled.  Courtesy signatures, spanners, beams,
  lyrics and shapes, laid out after the positions are fixed, are not modelled.
\<close>

datatype mb_kind = MB_MEASURE | MB_HBOX | MB_VBOX | MB_TBOX | MB_FBOX

text \<open>\<open>LayoutMode\<close>.\<close>

datatype layout_mode = LM_PAGE | LM_FLOAT | LM_LINE | LM_SYSTEM

text \<open>
  A measure or box of the stream: its kind, \<open>ticks()\<close>, the box width, the width
  \<open>computeMinWidth\<close> gives with the system header (first measure of a system) and
  without it, the width change of \<open>createEndBarLines(true)\<close> and of
  \<open>createEndBarLines(false)\<close>, \<open>userStretch()\<close>, \<open>cautionaryWidth\<close> and
  its \<open>hasCourtesy\<close> flag, and the breaks.
\<close>

record mbase =
  mb_kind :: mb_kind
  mb_ticks :: tick
  mb_box_width :: qreal
  mb_header_width :: qreal
  mb_min_width :: qreal
  mb_end_bar :: qreal
  mb_end_bar_open :: qreal
  mb_user_stretch :: qreal
  mb_cautionary :: qreal
  mb_has_courtesy :: bool
  mb_page_break :: bool
  mb_line_break :: bool
  mb_section_break :: bool

text \<open>Style and page values read by \<open>collectSystem\<close>.\<close>

record cs_style =
  cs_min_measure_width :: qreal
  cs_measure_spacing :: qreal
  cs_system_width :: qreal
  cs_left_margin :: qreal
  cs_mode :: layout_mode
  cs_last_fill_limit :: qreal
  cs_no_hstretch :: bool

definition cs_line_mode :: "cs_style \<Rightarrow> bool" where
  "cs_line_mode sty \<longleftrightarrow> cs_mode sty = LM_LINE"

text \<open>\<open>m->userStretch() * measureSpacing\<close>, at least 1.\<close>

definition cs_stretch :: "cs_style \<Rightarrow> mbase \<Rightarrow> qreal" where
  "cs_stretch sty m = max (mb_user_stretch m * cs_measure_spacing sty) 1"

text \<open>
  The width the loop accounts for \<open>lc.curMeasure\<close>: the accounted width \<open>ww\<close>
  (with the courtesy allowance), the allowance \<open>cautionaryW\<close>, and the width set
  by \<open>m->setWidth(ww)\<close>.
\<close>

definition cs_width :: "cs_style \<Rightarrow> bool \<Rightarrow> mbase \<Rightarrow> qreal \<times> qreal \<times> qreal" where
  "cs_width sty first m =
     (case mb_kind m of
        MB_HBOX \<Rightarrow> (mb_box_width m, 0, 0)
      | MB_MEASURE \<Rightarrow>
          (let ww0 = (if first then mb_header_width m else mb_min_width m) + mb_end_bar m;
               stretch = cs_stretch sty m;
               ww = max (ww0 * stretch) (cs_min_measure_width sty);
               cautionaryW = mb_cautionary m * stretch
           in (if mb_has_courtesy m then ww else ww + cautionaryW, cautionaryW, ww))
      | _ \<Rightarrow> (0, 0, 0))"

text \<open>The forced system break after \<open>lc.curMeasure\<close> in page and system mode.\<close>

definition cs_pbreak :: "cs_style \<Rightarrow> mbase \<Rightarrow> bool" where
  "cs_pbreak sty m \<longleftrightarrow>
     (cs_mode sty = LM_PAGE \<or> cs_mode sty = LM_SYSTEM) \<and>
     (mb_page_break m \<or> mb_line_break m \<or> mb_section_break m \<or>
      mb_kind m = MB_VBOX \<or> mb_kind m = MB_TBOX)"

text \<open>
  The collection loop.  Arguments: \<open>firstMeasure\<close>, the previous element of this
  system (\<open>lc.prevMeasure\<close> when it is in the system), \<open>minWidth\<close>, the elements
  collected with their set widths, and the stream from \<open>lc.curMeasure\<close> on.
  Result: the system's elements, the stream left, and \<open>minWidth\<close>.
\<close>

fun cs_collect ::
  "cs_style \<Rightarrow> bool \<Rightarrow> mbase option \<Rightarrow> qreal \<Rightarrow> (mbase \<times> qreal) list \<Rightarrow> mbase list \<Rightarrow>
   (mbase \<times> qreal) list \<times> mbase list \<times> qreal" where
  "cs_collect sty first prev minW acc [] = (acc, [], minW)"
| "cs_collect sty first prev minW acc (cur # rest) =
     (let (ww, cautionaryW, wset) = cs_width sty first cur;
          first' = (first \<and> mb_kind cur \<noteq> MB_MEASURE)
      in if \<not> cs_line_mode sty \<and> acc \<noteq> [] \<and> cs_system_width sty < minW + ww then (acc, cur # rest, minW)
         else
           let ww' = ww + (case prev of
                             Some pm \<Rightarrow> if mb_kind pm = MB_MEASURE
                                         then mb_end_bar_open pm * cs_stretch sty pm else 0
                           | None \<Rightarrow> 0);
               minW' = minW + ww';
               acc' = acc @ [(cur, wset)];
               nt = (case rest of [] \<Rightarrow> None | n # _ \<Rightarrow> Some (mb_kind n))
           in if \<not> cs_line_mode sty \<and>
                 (cs_pbreak sty cur \<or> nt = Some MB_VBOX \<or> nt = Some MB_TBOX \<or> nt = Some MB_FBOX \<or>
                  cs_system_width sty < minW' + cs_min_measure_width sty)
              then (acc', rest, minW')
              else cs_collect sty first' (Some cur) (minW' - cautionaryW) acc' rest)"

text \<open>The minimum width of the system recomputed from the set widths, and the weight.\<close>

definition cs_elem_width :: "mbase \<times> qreal \<Rightarrow> qreal" where
  "cs_elem_width e = (case mb_kind (fst e) of MB_HBOX \<Rightarrow> mb_box_width (fst e)
                      | MB_MEASURE \<Rightarrow> snd e | _ \<Rightarrow> 0)"

definition cs_weight :: "mbase \<Rightarrow> qreal" where
  "cs_weight m = (if mb_kind m = MB_MEASURE then of_int (mb_ticks m) * max (mb_user_stretch m) 1 else 0)"

definition cs_min_total :: "cs_style \<Rightarrow> (mbase \<times> qreal) list \<Rightarrow> qreal" where
  "cs_min_total sty ms = cs_left_margin sty + sum_list (map cs_elem_width ms)"

text \<open>The leftover width per unit of weight (\<open>rest\<close>).\<close>

definition cs_rest :: "cs_style \<Rightarrow> bool \<Rightarrow> (mbase \<times> qreal) list \<Rightarrow> qreal" where
  "cs_rest sty ragged ms =
     (if cs_line_mode sty \<or> cs_no_hstretch sty then 0
      else
        let minWidth = cs_min_total sty ms;
            r = cs_system_width sty - minWidth;
            r' = (if ragged then (if minWidth > r then r * 0.5 else minWidth) else r)
        in r' / sum_list (map (cs_weight \<circ> fst) ms))"

text \<open>The width each element gets when placed.\<close>

definition cs_final_width :: "cs_style \<Rightarrow> qreal \<Rightarrow> mbase \<times> qreal \<Rightarrow> qreal" where
  "cs_final_width sty rest e =
     (case mb_kind (fst e) of
        MB_MEASURE \<Rightarrow> (if cs_line_mode sty then snd e else snd e + rest * cs_weight (fst e))
      | MB_HBOX \<Rightarrow> mb_box_width (fst e)
      | _ \<Rightarrow> 0)"

text \<open>Placement: \<open>pos.rx() += ww\<close> from \<open>system->leftMargin()\<close>; each element's x and width.\<close>

fun cs_place :: "cs_style \<Rightarrow> qreal \<Rightarrow> qreal \<Rightarrow> (mbase \<times> qreal) list \<Rightarrow> (qreal \<times> qreal) list" where
  "cs_place sty rest x [] = []"
| "cs_place sty rest x (e # es) =
     (x, cs_final_width sty rest e) # cs_place sty rest (x + cs_final_width sty rest e) es"

text \<open>
  \<open>collectSystem\<close>: \<open>None\<close> at the end of the score, else the system's elements
  with their positions and widths, and the stream left.  The last row is ragged when the
  stream is exhausted and its accumulated width is within \<open>lastSystemFillLimit\<close> of
  the system width.
\<close>

definition collectSystem ::
  "cs_style \<Rightarrow> mbase list \<Rightarrow> ((mbase \<times> qreal \<times> qreal) list \<times> mbase list) option" where
  "collectSystem sty stream =
     (if stream = [] then None
      else
        let (ms, rest, minW) = cs_collect sty True None (cs_left_margin sty) [] stream;
            ragged = (cs_no_hstretch sty \<or>
                      (rest = [] \<and> minW / cs_system_width sty \<le> cs_last_fill_limit sty));
            r = cs_rest sty ragged ms;
            placed = cs_place sty r (cs_left_margin sty) ms
        in Some (zip (map fst ms) placed, rest))"

subsection \<open>Fixtures\<close>

text \<open>A plain measure of minimum width \<open>w\<close> and \<open>t\<close> ticks; a page-mode style with system width \<open>sw\<close>.\<close>

definition ex_mb :: "qreal \<Rightarrow> tick \<Rightarrow> mbase" where
  "ex_mb w t = \<lparr>mb_kind = MB_MEASURE, mb_ticks = t, mb_box_width = 0, mb_header_width = w,
     mb_min_width = w, mb_end_bar = 0, mb_end_bar_open = 0, mb_user_stretch = 1, mb_cautionary = 0,
     mb_has_courtesy = False, mb_page_break = False, mb_line_break = False, mb_section_break = False\<rparr>"

definition ex_style :: "qreal \<Rightarrow> cs_style" where
  "ex_style sw = \<lparr>cs_min_measure_width = 0, cs_measure_spacing = 1, cs_system_width = sw,
     cs_left_margin = 0, cs_mode = LM_PAGE, cs_last_fill_limit = 0.3, cs_no_hstretch = False\<rparr>"

subsection \<open>Properties\<close>

lemmas cs_eval = collectSystem_def cs_width_def cs_stretch_def cs_line_mode_def cs_pbreak_def
  cs_rest_def cs_min_total_def cs_elem_width_def cs_weight_def cs_final_width_def
  ex_mb_def ex_style_def Let_def

lemma cs_final_sum:
  "\<not> cs_line_mode sty \<Longrightarrow>
   sum_list (map (cs_final_width sty r) ms) =
   sum_list (map cs_elem_width ms) + r * sum_list (map (cs_weight \<circ> fst) ms)"
  by (induction ms) (auto simp: cs_final_width_def cs_elem_width_def cs_weight_def algebra_simps
                          split: mb_kind.splits)

lemma cs_place_snd: "map snd (cs_place sty r x ms) = map (cs_final_width sty r) ms"
  by (induction ms arbitrary: x) simp_all

lemma cs_place_length [simp]: "length (cs_place sty r x ms) = length ms"
  by (induction ms arbitrary: x) simp_all

lemma cs_collect_shape:
  "cs_collect sty first prev minW acc stream = (ms, rest, w) \<Longrightarrow>
   \<exists>xs. ms = acc @ xs \<and> map fst xs @ rest = stream \<and> (acc = [] \<and> stream \<noteq> [] \<longrightarrow> xs \<noteq> [])"
proof (induction stream arbitrary: first prev minW acc ms rest w)
  case Nil
  then show ?case by simp
next
  case (Cons cur rest0)
  obtain ww cw wset where c: "cs_width sty first cur = (ww, cw, wset)" by (metis prod_cases3)
  let ?minW' = "minW + (ww + (case prev of Some pm \<Rightarrow> if mb_kind pm = MB_MEASURE
                   then mb_end_bar_open pm * cs_stretch sty pm else 0 | None \<Rightarrow> 0))"
  consider (rej) "\<not> cs_line_mode sty \<and> acc \<noteq> [] \<and> cs_system_width sty < minW + ww"
    | (stop) "\<not> (\<not> cs_line_mode sty \<and> acc \<noteq> [] \<and> cs_system_width sty < minW + ww)"
             "ms = acc @ [(cur, wset)]" "rest = rest0"
    | (go) "cs_collect sty (first \<and> mb_kind cur \<noteq> MB_MEASURE) (Some cur) (?minW' - cw)
              (acc @ [(cur, wset)]) rest0 = (ms, rest, w)"
    using Cons.prems c by (simp add: Let_def split: if_splits)
  then show ?case
  proof cases
    case rej
    then show ?thesis using Cons.prems c by simp
  next
    case stop
    then show ?thesis by simp
  next
    case go
    obtain xs where "ms = (acc @ [(cur, wset)]) @ xs" "map fst xs @ rest = rest0"
      using Cons.IH [OF go] by auto
    then show ?thesis by (intro exI [of _ "(cur, wset) # xs"]) simp
  qed
qed


lemma cs_collect_Cons_cases:
  assumes r: "cs_collect sty first prev minW acc (cur # rest0) = r"
  obtains (rej) "\<not> cs_line_mode sty" "acc \<noteq> []" "r = (acc, cur # rest0, minW)"
  | (stop) w' where "\<not> cs_line_mode sty" "r = (acc @ [(cur, snd (snd (cs_width sty first cur)))], rest0, w')"
  | (go) minW' where "r = cs_collect sty (first \<and> mb_kind cur \<noteq> MB_MEASURE) (Some cur) minW'
                            (acc @ [(cur, snd (snd (cs_width sty first cur)))]) rest0"
      "\<not> cs_line_mode sty \<Longrightarrow> \<not> cs_pbreak sty cur"
      "\<not> cs_line_mode sty \<Longrightarrow> prev = None \<Longrightarrow>
         \<not> cs_system_width sty < minW + fst (cs_width sty first cur) + cs_min_measure_width sty"
proof -
  obtain ww cw wset where c: "cs_width sty first cur = (ww, cw, wset)" by (metis prod_cases3)
  show ?thesis
  proof (cases prev)
    case None
    then show ?thesis using r c that(1,2) that(3) [of "minW + ww - cw"]
      by (auto simp: Let_def split: if_splits)
  next
    case (Some pm)
    then show ?thesis using r c that(1,2)
        that(3) [of "minW + (ww + (if mb_kind pm = MB_MEASURE then mb_end_bar_open pm * cs_stretch sty pm
                                  else 0)) - cw"]
      by (auto simp: Let_def split: if_splits)
  qed
qed

lemma cs_collect_pbreak:
  "cs_collect sty first prev minW acc stream = (acc @ xs, rest, w) \<Longrightarrow> \<not> cs_line_mode sty \<Longrightarrow>
   \<forall>e\<in>set (butlast xs). \<not> cs_pbreak sty (fst e)"
proof (induction stream arbitrary: first prev minW acc xs rest w)
  case Nil
  then show ?case by simp
next
  case (Cons cur rest0)
  from Cons.prems(1) show ?case
  proof (cases rule: cs_collect_Cons_cases)
    case rej
    then show ?thesis using Cons.prems by simp
  next
    case stop
    then show ?thesis using Cons.prems by simp
  next
    case (go minW')
    let ?e = "(cur, snd (snd (cs_width sty first cur)))"
    obtain ys where ys: "acc @ xs = (acc @ [?e]) @ ys"
      using cs_collect_shape [OF go(1) [symmetric]] by blast
    then have xs: "xs = ?e # ys" by simp
    have "\<forall>e\<in>set (butlast ys). \<not> cs_pbreak sty (fst e)"
      using Cons.IH [of _ _ _ "acc @ [?e]" ys rest w] go(1) ys Cons.prems(2) by simp
    then show ?thesis using xs go(2) Cons.prems(2) by (cases ys) auto
  qed
qed


lemma cs_collect_line:
  "cs_collect sty first prev minW acc stream = (ms, rest, w) \<Longrightarrow> cs_line_mode sty \<Longrightarrow> rest = []"
proof (induction stream arbitrary: first prev minW acc ms rest w)
  case Nil
  then show ?case by simp
next
  case (Cons cur rest0)
  from Cons.prems(1) show ?case
  proof (cases rule: cs_collect_Cons_cases)
    case (go minW')
    then show ?thesis using Cons.IH [OF go(1) [symmetric] Cons.prems(2)] by simp
  qed (use Cons.prems(2) in auto)
qed

lemma cs_collect_oversize:
  assumes "\<not> cs_line_mode sty"
    and "cs_system_width sty < minW + fst (cs_width sty first cur) + cs_min_measure_width sty"
  shows "fst (cs_collect sty first None minW [] (cur # rest0)) = [(cur, snd (snd (cs_width sty first cur)))] \<and>
         fst (snd (cs_collect sty first None minW [] (cur # rest0))) = rest0"
proof -
  have "cs_collect sty first None minW [] (cur # rest0) = cs_collect sty first None minW [] (cur # rest0)" ..
  then show ?thesis
  proof (cases rule: cs_collect_Cons_cases)
    case (go minW')
    then show ?thesis using assms by simp
  qed (use assms in auto)
qed

lemma cs_place_Nil [simp]: "cs_place sty r x ms = [] \<longleftrightarrow> ms = []"
  by (cases ms) simp_all

lemma cs_place_fst:
  "i < length ms \<Longrightarrow> fst (cs_place sty r x ms ! i) = x + sum_list (take i (map (cs_final_width sty r) ms))"
proof (induction ms arbitrary: x i)
  case Nil
  then show ?case by simp
next
  case (Cons e es)
  then show ?case by (cases i) (simp_all add: algebra_simps)
qed

lemma cs_place_adjacent:
  "Suc i < length ms \<Longrightarrow>
   fst (cs_place sty r x ms ! Suc i) = fst (cs_place sty r x ms ! i) + snd (cs_place sty r x ms ! i)"
proof -
  assume i: "Suc i < length ms"
  have "snd (cs_place sty r x ms ! i) = cs_final_width sty r (ms ! i)"
    using cs_place_snd [of sty r x ms] i by (metis Suc_lessD cs_place_length nth_map)
  then show ?thesis using i by (simp add: cs_place_fst take_Suc_conv_app_nth)
qed

lemma collectSystem_parts:
  assumes "collectSystem sty stream = Some (ps, rest)"
  obtains ms w where "cs_collect sty True None (cs_left_margin sty) [] stream = (ms, rest, w)"
    and "stream \<noteq> []"
    and "ps = zip (map fst ms)
                (cs_place sty (cs_rest sty (cs_no_hstretch sty \<or>
                    (rest = [] \<and> w / cs_system_width sty \<le> cs_last_fill_limit sty)) ms)
                 (cs_left_margin sty) ms)"
  using assms that by (auto simp: collectSystem_def Let_def split: prod.splits if_splits)

lemma collectSystem_shape:
  assumes "collectSystem sty stream = Some (ps, rest)"
  shows "ps \<noteq> [] \<and> map fst ps @ rest = stream"
proof -
  obtain ms w where c: "cs_collect sty True None (cs_left_margin sty) [] stream = (ms, rest, w)"
    and ne: "stream \<noteq> []" and ps: "ps = zip (map fst ms) (cs_place sty (cs_rest sty (cs_no_hstretch sty \<or>
                    (rest = [] \<and> w / cs_system_width sty \<le> cs_last_fill_limit sty)) ms)
                 (cs_left_margin sty) ms)"
    using collectSystem_parts [OF assms] by blast
  obtain xs where "ms = [] @ xs" "map fst xs @ rest = stream" "xs \<noteq> []"
    using cs_collect_shape [OF c] ne by auto
  then show ?thesis using ps by (simp add: map_fst_zip)
qed

text \<open>
  C18: \<open>collectSystem\<close> takes at least one element of the stream, and the system's
  elements followed by the stream it leaves are the stream it started from.
\<close>

theorem collectSystem_partition:
  assumes "collectSystem sty stream = Some (ps, rest)"
  shows "ps \<noteq> [] \<and> map fst ps @ rest = stream"
proof -
  obtain ms w where c: "cs_collect sty True None (cs_left_margin sty) [] stream = (ms, rest, w)"
    and ne: "stream \<noteq> []" and ps: "ps = zip (map fst ms) (cs_place sty (cs_rest sty (cs_no_hstretch sty \<or>
                    (rest = [] \<and> w / cs_system_width sty \<le> cs_last_fill_limit sty)) ms)
                 (cs_left_margin sty) ms)"
    using collectSystem_parts [OF assms] by blast
  obtain xs where "ms = [] @ xs" "map fst xs @ rest = stream" "xs \<noteq> []"
    using cs_collect_shape [OF c] ne by auto
  then show ?thesis using ps by (simp add: map_fst_zip)
qed

theorem collectSystem_partition_witness:
  "\<exists>ps rest. collectSystem (ex_style 1000) [ex_mb 400 1920, ex_mb 400 1920, ex_mb 400 1920] = Some (ps, rest) \<and>
     ps \<noteq> [] \<and> map fst ps @ rest = [ex_mb 400 1920, ex_mb 400 1920, ex_mb 400 1920] \<and> length ps = 2"
proof -
  have r: "collectSystem (ex_style 1000) [ex_mb 400 1920, ex_mb 400 1920, ex_mb 400 1920] = Some ([(ex_mb 400 1920, 0, 500), (ex_mb 400 1920, 500, 500)], [ex_mb 400 1920])"
    by (simp add: cs_eval)
  show ?thesis using r collectSystem_partition [OF r] by auto
qed

text \<open>
  C19: system width closure.  A system that is not the last one, in page, float or
  system mode with stretching on and with some measure of positive duration, is filled
  exactly: the first element starts at the left margin, each element starts where the
  previous one ends, and the left margin plus the widths is the system width.
\<close>

theorem collectSystem_closure:
  assumes "collectSystem sty stream = Some (ps, rest)" and "rest \<noteq> []"
    and "\<not> cs_line_mode sty" and "\<not> cs_no_hstretch sty"
    and "0 < sum_list (map (cs_weight \<circ> fst) ps)"
  shows "fst (snd (ps ! 0)) = cs_left_margin sty \<and>
         (\<forall>i. Suc i < length ps \<longrightarrow> fst (snd (ps ! Suc i)) = fst (snd (ps ! i)) + snd (snd (ps ! i))) \<and>
         cs_left_margin sty + sum_list (map (snd \<circ> snd) ps) = cs_system_width sty"
proof -
  obtain ms w where c: "cs_collect sty True None (cs_left_margin sty) [] stream = (ms, rest, w)"
    and ne: "stream \<noteq> []" and ps: "ps = zip (map fst ms) (cs_place sty (cs_rest sty False ms)
                 (cs_left_margin sty) ms)"
    using collectSystem_parts [OF assms(1)] assms(2,4) by auto
  define r where "r = cs_rest sty False ms"
  define pl where "pl = cs_place sty r (cs_left_margin sty) ms"
  have len: "length pl = length ms" by (simp add: pl_def)
  have ps': "ps = zip (map fst ms) pl" using ps by (simp add: r_def pl_def)
  have nth: "i < length ms \<Longrightarrow> snd (ps ! i) = pl ! i" for i using ps' len by simp
  have lps: "length ps = length ms" using ps' len by simp
  have msne: "ms \<noteq> []" using collectSystem_shape [OF assms(1)] lps by auto
  have "map fst ps = map fst ms" using ps' len by (simp add: map_fst_zip)
  then have W: "map (cs_weight \<circ> fst) ps = map (cs_weight \<circ> fst) ms" by (metis map_map)
  have "map snd ps = pl" using ps' len by (simp add: map_snd_zip)
  then have S: "map (snd \<circ> snd) ps = map snd pl" by (metis map_map)
  have sum: "sum_list (map snd pl) = sum_list (map cs_elem_width ms) + r * sum_list (map (cs_weight \<circ> fst) ms)"
    using cs_final_sum [OF assms(3)] cs_place_snd by (simp add: pl_def)
  have "r * sum_list (map (cs_weight \<circ> fst) ms) = cs_system_width sty - cs_min_total sty ms"
    using assms(3,4,5) W by (simp add: r_def cs_rest_def Let_def)
  then have closure: "cs_left_margin sty + sum_list (map (snd \<circ> snd) ps) = cs_system_width sty"
    using S sum by (simp add: cs_min_total_def)
  have first: "fst (snd (ps ! 0)) = cs_left_margin sty"
    using nth [of 0] msne cs_place_fst [of 0 ms sty r "cs_left_margin sty"] by (simp add: pl_def)
  have "Suc i < length ps \<Longrightarrow> fst (snd (ps ! Suc i)) = fst (snd (ps ! i)) + snd (snd (ps ! i))" for i
    using nth [of i] nth [of "Suc i"] lps cs_place_adjacent [of i ms sty r "cs_left_margin sty"]
    by (simp add: pl_def)
  then show ?thesis using first closure by blast
qed

theorem collectSystem_closure_witness:
  "\<exists>ps rest. collectSystem (ex_style 1000) [ex_mb 400 1920, ex_mb 400 1920, ex_mb 400 1920] = Some (ps, rest) \<and>
     rest \<noteq> [] \<and> fst (snd (ps ! 0)) = cs_left_margin (ex_style 1000) \<and>
     fst (snd (ps ! 1)) = fst (snd (ps ! 0)) + snd (snd (ps ! 0)) \<and>
     cs_left_margin (ex_style 1000) + sum_list (map (snd \<circ> snd) ps) = cs_system_width (ex_style 1000)"
proof -
  have r: "collectSystem (ex_style 1000) [ex_mb 400 1920, ex_mb 400 1920, ex_mb 400 1920] = Some ([(ex_mb 400 1920, 0, 500), (ex_mb 400 1920, 500, 500)], [ex_mb 400 1920])"
    by (simp add: cs_eval)
  have w: "0 < sum_list (map (cs_weight \<circ> fst) [(ex_mb 400 1920, 0::real, 500::real), (ex_mb 400 1920, 500, 500)])"
    by (simp add: cs_eval)
  have h: "[ex_mb 400 1920] \<noteq> []" "\<not> cs_line_mode (ex_style 1000)" "\<not> cs_no_hstretch (ex_style 1000)"
    by (simp_all add: cs_eval)
  note c = collectSystem_closure [OF r h w]
  have a: "fst (snd ([(ex_mb 400 1920, 0::real, 500::real), (ex_mb 400 1920, 500, 500)] ! 1)) =
      fst (snd ([(ex_mb 400 1920, 0::real, 500::real), (ex_mb 400 1920, 500, 500)] ! 0)) +
      snd (snd ([(ex_mb 400 1920, 0::real, 500::real), (ex_mb 400 1920, 500, 500)] ! 0))"
    using conjunct1 [OF conjunct2 [OF c]] by simp
  show ?thesis
    using r h(1) conjunct1 [OF c] a conjunct2 [OF conjunct2 [OF c]] by blast
qed

text \<open>
  C20: the last system, when ragged, is still stretched: its laid-out width is its
  minimum width plus half of the leftover when it is more than half full, and twice its
  minimum width otherwise.
\<close>

theorem cs_place_ragged:
  assumes "\<not> cs_line_mode sty" and "\<not> cs_no_hstretch sty"
    and "0 < sum_list (map (cs_weight \<circ> fst) ms)"
  shows "cs_left_margin sty + sum_list (map snd (cs_place sty (cs_rest sty True ms) x ms)) =
         cs_min_total sty ms +
         (if cs_system_width sty - cs_min_total sty ms < cs_min_total sty ms
          then (cs_system_width sty - cs_min_total sty ms) / 2 else cs_min_total sty ms)"
proof -
  have "sum_list (map snd (cs_place sty (cs_rest sty True ms) x ms)) =
        sum_list (map cs_elem_width ms) + cs_rest sty True ms * sum_list (map (cs_weight \<circ> fst) ms)"
    using cs_final_sum [OF assms(1)] cs_place_snd by simp
  then show ?thesis using assms by (simp add: cs_rest_def cs_min_total_def Let_def)
qed

theorem cs_place_ragged_witness:
  "cs_left_margin (ex_style 1000) +
   sum_list (map snd (cs_place (ex_style 1000) (cs_rest (ex_style 1000) True [(ex_mb 100 1920, 100)]) 0
                        [(ex_mb 100 1920, 100)])) = 200"
  using cs_place_ragged [of "ex_style 1000" "[(ex_mb 100 1920, 100)]" 0] by (simp add: cs_eval)

text \<open>
  A last system holding one measure of width 100 in a system 1000 wide (within the
  fill limit 0.3) is laid out 200 wide, not at its minimum width.
\<close>

theorem collectSystem_ragged_last:
  "collectSystem (ex_style 1000) [ex_mb 100 1920] = Some ([(ex_mb 100 1920, 0, 200)], [])"
  by (simp add: cs_eval)

text \<open>
  C22: in page and system mode a page, line or section break, a vertical box or a text
  frame ends its system: only the last element of a system can carry one.
\<close>

theorem collectSystem_breaks:
  assumes "collectSystem sty stream = Some (ps, rest)" and "\<not> cs_line_mode sty"
  shows "\<forall>i. Suc i < length ps \<longrightarrow> \<not> cs_pbreak sty (fst (ps ! i))"
proof (intro allI impI)
  fix i assume i: "Suc i < length ps"
  obtain ms w where c: "cs_collect sty True None (cs_left_margin sty) [] stream = (ms, rest, w)"
    and ps: "ps = zip (map fst ms) (cs_place sty (cs_rest sty (cs_no_hstretch sty \<or>
                    (rest = [] \<and> w / cs_system_width sty \<le> cs_last_fill_limit sty)) ms)
                 (cs_left_margin sty) ms)"
    using collectSystem_parts [OF assms(1)] by blast
  have l: "length ps = length ms" using ps by simp
  have f: "fst (ps ! i) = fst (ms ! i)" using ps i l by simp
  have "ms ! i \<in> set (butlast ms)"
    using i l nth_mem [of i "butlast ms"] by (simp add: nth_butlast)
  then show "\<not> cs_pbreak sty (fst (ps ! i))"
    using cs_collect_pbreak [of sty True None "cs_left_margin sty" "[]" stream ms rest w] c assms(2) f
    by simp
qed

theorem collectSystem_breaks_witness:
  "collectSystem (ex_style 1000) [ex_mb 400 1920, (ex_mb 400 1920)\<lparr>mb_line_break := True\<rparr>, ex_mb 400 1920] =
     Some ([(ex_mb 400 1920, 0, 500), ((ex_mb 400 1920)\<lparr>mb_line_break := True\<rparr>, 500, 500)], [ex_mb 400 1920]) \<and>
   \<not> cs_pbreak (ex_style 1000) (ex_mb 400 1920)"
proof -
  have r: "collectSystem (ex_style 1000) [ex_mb 400 1920, (ex_mb 400 1920)\<lparr>mb_line_break := True\<rparr>, ex_mb 400 1920] =
             Some ([(ex_mb 400 1920, 0, 500), ((ex_mb 400 1920)\<lparr>mb_line_break := True\<rparr>, 500, 500)], [ex_mb 400 1920])"
    by (simp add: cs_eval)
  show ?thesis using collectSystem_breaks [OF r] r by (simp add: cs_eval)
qed

text \<open>
  A first measure that alone exceeds the system width (with the minimum measure
  width after it) gets a system of its own.
\<close>

theorem collectSystem_oversize:
  assumes "\<not> cs_line_mode sty"
    and "cs_system_width sty < cs_left_margin sty + fst (cs_width sty True m) + cs_min_measure_width sty"
  shows "\<exists>x w. collectSystem sty (m # rest0) = Some ([(m, x, w)], rest0)"
  using cs_collect_oversize [OF assms, of rest0]
  by (auto simp: collectSystem_def Let_def split: prod.splits)

theorem collectSystem_oversize_witness:
  "\<exists>x w. collectSystem (ex_style 1000) [ex_mb 1200 1920, ex_mb 400 1920] = Some ([(ex_mb 1200 1920, x, w)], [ex_mb 400 1920])"
  using collectSystem_oversize [of "ex_style 1000" "ex_mb 1200 1920" "[ex_mb 400 1920]"] by (simp add: cs_eval)

text \<open>In line mode there is one system: \<open>collectSystem\<close> takes the whole stream.\<close>

theorem collectSystem_line_mode:
  assumes "collectSystem sty stream = Some (ps, rest)" and "cs_line_mode sty"
  shows "rest = []"
proof -
  obtain ms w where "cs_collect sty True None (cs_left_margin sty) [] stream = (ms, rest, w)"
    using collectSystem_parts [OF assms(1)] by blast
  then show ?thesis using cs_collect_line assms(2) by blast
qed

theorem collectSystem_line_mode_witness:
  "collectSystem ((ex_style 1000)\<lparr>cs_mode := LM_LINE\<rparr>) [ex_mb 400 1920, ex_mb 400 1920, ex_mb 400 1920] =
     Some ([(ex_mb 400 1920, 0, 400), (ex_mb 400 1920, 400, 400), (ex_mb 400 1920, 800, 400)], []) \<and> ([] :: mbase list) = []"
proof -
  have r: "collectSystem ((ex_style 1000)\<lparr>cs_mode := LM_LINE\<rparr>) [ex_mb 400 1920, ex_mb 400 1920, ex_mb 400 1920] =
             Some ([(ex_mb 400 1920, 0, 400), (ex_mb 400 1920, 400, 400), (ex_mb 400 1920, 800, 400)], [])"
    by (simp add: cs_eval)
  show ?thesis using collectSystem_line_mode [OF r] r by (simp add: cs_eval)
qed

text \<open>Shared with the driver: \<open>collectSystem\<close> consumes a nonempty prefix of the stream.\<close>

lemma collectSystem_shorter:
  "collectSystem sty stream = Some (ps, rest) \<Longrightarrow> length rest < length stream"
  using collectSystem_shape [of sty stream ps rest]
  by (metis length_append length_map length_greater_0_conv less_add_same_cancel2)

end
