(* ===== verification/Collect_Page.thy ===== *)
theory Collect_Page
  imports Collect_System
begin

text \<open>
  Page collection and the layout driver of \<open>src/libmscore/layout.cpp\<close>:
  \<open>Score::collectPage\<close> stacks the systems of the stream on a page while the next
  one fits (\<open>cp_loop\<close>), \<open>layoutPage\<close> spreads the leftover height over the gaps
  between systems, and \<open>Score::doLayout\<close> runs \<open>collectSystem\<close> and
  \<open>collectPage\<close> until the score is used up (\<open>systems_of\<close>, \<open>layout_pages\<close>).
  The page code is generic in the type \<open>'s\<close> of systems: it sees a system only through
  \<open>cp_geom\<close>, the geometry \<open>System::layout2\<close> computes (height, its vertical box
  gaps, the extents above and below the staves, the page break of its last measure), and
  through \<open>System::minDistance\<close>, both outside \<open>src/\<close>.  The driver instantiates
  \<open>'s\<close> with the systems \<open>collectSystem\<close> returns.  System dividers, the page's
  own position and the second pass of per-element layout after a page is filled are not
  modelled.
\<close>

text \<open>What the page code reads of a system.\<close>

record psys =
  ps_height :: qreal
  ps_vbox :: "(qreal \<times> qreal) option"
  ps_min_top :: qreal
  ps_min_bottom :: qreal
  ps_page_break :: bool

text \<open>
  Style and page values: \<open>staffLowerBorder\<close>, \<open>staffUpperBorder\<close>, the layout mode,
  the page's top margin \<open>tm()\<close> and its bottom limit \<open>height() - bm()\<close>, the first
  staff's \<open>userDist()\<close>, \<open>System::minDistance\<close>, \<open>MScore::noVerticalStretch\<close>,
  \<open>maxSystemDistance\<close>, and the geometry of a system.
\<close>

record 's cp_style =
  cp_lower_border :: qreal
  cp_upper_border :: qreal
  cp_mode :: layout_mode
  cp_top_margin :: qreal
  cp_page_bottom :: qreal
  cp_user_dist :: qreal
  cp_min_distance :: "psys \<Rightarrow> psys \<Rightarrow> qreal"
  cp_no_vstretch :: bool
  cp_max_distance :: qreal
  cp_geom :: "'s \<Rightarrow> psys"

text \<open>The clearance kept below a system: its box's bottom gap, or \<open>max(minBottom, slb)\<close>.\<close>

definition cp_bottom_gap :: "'s cp_style \<Rightarrow> psys \<Rightarrow> qreal" where
  "cp_bottom_gap sty s = (case ps_vbox s of Some (_, b) \<Rightarrow> b
                         | None \<Rightarrow> max (ps_min_bottom s) (cp_lower_border sty))"

text \<open>The distance above the first system of a page.\<close>

definition cp_top_distance :: "'s cp_style \<Rightarrow> psys \<Rightarrow> qreal" where
  "cp_top_distance sty s = max (case ps_vbox s of Some (t, _) \<Rightarrow> t | None \<Rightarrow> cp_upper_border sty)
                               (- ps_min_top s)"

text \<open>
  The loop of \<open>collectPage\<close>: \<open>s1\<close> the previous system, \<open>y\<close> the bottom of the
  page so far, the systems placed with their \<open>y\<close>, the current system \<open>s2\<close>, and
  the systems still to come.  Result: the page's systems, the stream left, and the height
  \<open>restHeight\<close> passed to \<open>layoutPage\<close>.
\<close>

fun cp_loop ::
  "'s cp_style \<Rightarrow> psys option \<Rightarrow> qreal \<Rightarrow> ('s \<times> qreal) list \<Rightarrow> 's \<Rightarrow> 's list \<Rightarrow>
   ('s \<times> qreal) list \<times> 's list \<times> qreal" where
  "cp_loop sty s1 y acc s2 rest =
     (let g2 = cp_geom sty s2;
          distance = (case s1 of Some p \<Rightarrow> cp_min_distance sty p g2
                      | None \<Rightarrow> cp_top_distance sty g2) + cp_user_dist sty;
          y1 = y + distance;
          acc' = acc @ [(s2, y1)];
          y2 = y1 + ps_height g2;
          restHeight = cp_page_bottom sty - (y2 + cp_bottom_gap sty g2)
      in case rest of
           [] \<Rightarrow> (acc', [], restHeight)
         | s3 # rest' \<Rightarrow>
             (let g3 = cp_geom sty s3
              in if (cp_mode sty \<noteq> LM_SYSTEM \<and> ps_page_break g2) \<or>
                    cp_page_bottom sty \<le>
                      y2 + (cp_min_distance sty g2 g3 + ps_height g3 + cp_bottom_gap sty g3)
                 then (acc', s3 # rest', restHeight)
                 else cp_loop sty (Some g2) y2 acc' s3 rest'))"

text \<open>\<open>collectPage\<close>: \<open>None\<close> (return false) when no system is left.\<close>

definition collectPage :: "'s cp_style \<Rightarrow> 's list \<Rightarrow> (('s \<times> qreal) list \<times> 's list \<times> qreal) option" where
  "collectPage sty ss = (case ss of [] \<Rightarrow> None
                         | s # rest \<Rightarrow> Some (cp_loop sty None (cp_top_margin sty) [] s rest))"

subsection \<open>Vertical justification\<close>

text \<open>The gaps between adjacent systems of which neither is a vertical box.\<close>

definition lp_stretchable :: "'s cp_style \<Rightarrow> 's \<Rightarrow> 's \<Rightarrow> bool" where
  "lp_stretchable sty a b \<longleftrightarrow> ps_vbox (cp_geom sty a) = None \<and> ps_vbox (cp_geom sty b) = None"

definition lp_gaps :: "'s cp_style \<Rightarrow> ('s \<times> qreal) list \<Rightarrow> nat" where
  "lp_gaps sty placed =
     length (filter (\<lambda>(a, b). lp_stretchable sty (fst a) (fst b)) (zip placed (tl placed)))"

text \<open>
  The loop moving the systems down: \<open>yoff\<close> is the offset accumulated so far and
  \<open>(s1, y1)\<close> the previous system at its new position.  A gap grows by
  \<open>stretch\<close>, or up to \<open>maxSystemDistance\<close> when that is less (never shrinking).
\<close>

fun lp_shift ::
  "'s cp_style \<Rightarrow> qreal \<Rightarrow> qreal \<Rightarrow> 's \<times> qreal \<Rightarrow> ('s \<times> qreal) list \<Rightarrow> ('s \<times> qreal) list" where
  "lp_shift sty stretch yoff p [] = []"
| "lp_shift sty stretch yoff (s1, y1) ((s2, y2) # rest) =
     (let yoff' = (if lp_stretchable sty s1 s2 then
                     (let dist = (y2 + yoff) - (y1 + ps_height (cp_geom sty s1));
                          offset = (if dist + stretch > cp_max_distance sty
                                    then max (cp_max_distance sty - dist) 0 else stretch)
                      in yoff + offset)
                   else yoff)
      in (s2, y2 + yoff') # lp_shift sty stretch yoff' (s2, y2 + yoff') rest)"

text \<open>
  \<open>layoutPage(page, restHeight)\<close>: without a stretchable gap, with vertical stretch
  off or in system mode, a float-mode page is moved down by half the rest and the others
  stay; otherwise the rest is shared among the gaps.
\<close>

definition layoutPage :: "'s cp_style \<Rightarrow> ('s \<times> qreal) list \<Rightarrow> qreal \<Rightarrow> ('s \<times> qreal) list" where
  "layoutPage sty placed restHeight =
     (let gaps = lp_gaps sty placed
      in if gaps = 0 \<or> cp_no_vstretch sty \<or> cp_mode sty = LM_SYSTEM then
           (if cp_mode sty = LM_FLOAT then map (\<lambda>(s, y). (s, y + restHeight * 0.5)) placed else placed)
         else
           (case placed of [] \<Rightarrow> []
            | p # ps \<Rightarrow> p # lp_shift sty (restHeight / of_nat gaps) 0 p ps))"

subsection \<open>The driver\<close>

text \<open>\<open>while (collectPage(lc)) ;\<close>: the pages of a stream of systems, each justified.\<close>

partial_function (option) layout_pages :: "'s cp_style \<Rightarrow> 's list \<Rightarrow> ('s \<times> qreal) list list option" where
  "layout_pages sty ss =
     (case collectPage sty ss of
        None \<Rightarrow> Some []
      | Some (placed, rest, restHeight) \<Rightarrow>
          Option.bind (layout_pages sty rest) (\<lambda>pages. Some (layoutPage sty placed restHeight # pages)))"

text \<open>
  \<open>doLayout\<close>: the systems \<open>collectSystem\<close> makes of the measure stream, one after
  the other until it returns no system, and their pages; an empty score gets one empty
  page.  The systems are computed before the pages: \<open>collectSystem\<close> reads only the
  stream, so this is the order in which \<open>collectPage\<close> asks for them.
\<close>

function systems_of :: "cs_style \<Rightarrow> mbase list \<Rightarrow> (mbase \<times> qreal \<times> qreal) list list" where
  "systems_of sty ms = (case collectSystem sty ms of None \<Rightarrow> []
                        | Some (ps, rest) \<Rightarrow> ps # systems_of sty rest)"
  by pat_completeness auto
termination
  by (relation "measure (\<lambda>(sty, ms). length ms)") (auto dest: collectSystem_shorter)

definition doLayout ::
  "cs_style \<Rightarrow> (mbase \<times> qreal \<times> qreal) list cp_style \<Rightarrow> mbase list \<Rightarrow>
   ((mbase \<times> qreal \<times> qreal) list \<times> qreal) list list option" where
  "doLayout sty psty ms = (if ms = [] then Some [[]] else layout_pages psty (systems_of sty ms))"

text \<open>The gap below system \<open>i\<close> of a page, and what \<open>layoutPage\<close> makes of a stretchable gap \<open>g\<close>.\<close>

definition lp_gap :: "'s cp_style \<Rightarrow> ('s \<times> qreal) list \<Rightarrow> nat \<Rightarrow> qreal" where
  "lp_gap sty L i = snd (L ! Suc i) - (snd (L ! i) + ps_height (cp_geom sty (fst (L ! i))))"

definition lp_step :: "'s cp_style \<Rightarrow> qreal \<Rightarrow> qreal \<Rightarrow> qreal" where
  "lp_step sty st g = (if g + st > cp_max_distance sty then g + max (cp_max_distance sty - g) 0 else g + st)"

subsection \<open>Fixtures\<close>

text \<open>A system of height \<open>h\<close> without box; a page-mode page of bottom limit \<open>ey\<close> whose systems keep distance \<open>d\<close>.\<close>

definition ex_sys :: "qreal \<Rightarrow> psys" where
  "ex_sys h = \<lparr>ps_height = h, ps_vbox = None, ps_min_top = 0, ps_min_bottom = 0, ps_page_break = False\<rparr>"

definition ex_pstyle :: "qreal \<Rightarrow> qreal \<Rightarrow> psys cp_style" where
  "ex_pstyle d ey = \<lparr>cp_lower_border = 0, cp_upper_border = 0, cp_mode = LM_PAGE, cp_top_margin = 0,
     cp_page_bottom = ey, cp_user_dist = 0, cp_min_distance = (\<lambda>_ _. d), cp_no_vstretch = False,
     cp_max_distance = 100, cp_geom = id\<rparr>"

subsection \<open>Properties\<close>

lemmas cp_eval = collectPage_def cp_bottom_gap_def cp_top_distance_def layoutPage_def lp_gaps_def
  lp_stretchable_def lp_gap_def lp_step_def ex_sys_def ex_pstyle_def Let_def

lemma systems_of_concat: "concat (map (map fst) (systems_of sty ms)) = ms"
proof (induction sty ms rule: systems_of.induct)
  case (1 sty ms)
  show ?case
  proof (cases "collectSystem sty ms")
    case None
    then have "ms = []" by (auto simp: collectSystem_def split: if_splits prod.splits)
    then show ?thesis using None by simp
  next
    case (Some r)
    obtain ps rest where r: "r = (ps, rest)" by fastforce
    show ?thesis using "1.IH" [OF Some r [symmetric]] collectSystem_shape [of sty ms ps rest] Some r
      by simp
  qed
qed

lemma cp_loop_Cons_cases:
  assumes "cp_loop sty s1 y acc s2 (s3 # rest0) = r"
  obtains (stop) y1 where "r = (acc @ [(s2, y1)], s3 # rest0, snd (snd r))"
  | (go) y1 y2 where "r = cp_loop sty (Some (cp_geom sty s2)) y2 (acc @ [(s2, y1)]) s3 rest0"
  using assms that by (auto simp: Let_def split: if_splits)

lemma cp_loop_shape:
  "cp_loop sty s1 y acc s2 rest = (pl, rest', rh) \<Longrightarrow>
   \<exists>xs. pl = acc @ xs \<and> xs \<noteq> [] \<and> map fst xs @ rest' = s2 # rest"
proof (induction rest arbitrary: s1 y acc s2 pl rest' rh)
  case Nil
  then show ?case by (auto simp: Let_def)
next
  case (Cons s3 rest0)
  from Cons.prems show ?case
  proof (cases rule: cp_loop_Cons_cases)
    case (stop y1)
    then show ?thesis using Cons.prems by auto
  next
    case (go y1 y2)
    obtain xs where "pl = (acc @ [(s2, y1)]) @ xs" "map fst xs @ rest' = s3 # rest0"
      using Cons.IH [OF go [symmetric]] by blast
    then show ?thesis by (intro exI [of _ "(s2, y1) # xs"]) simp
  qed
qed

lemma collectPage_shape:
  "collectPage sty ss = Some (pl, rest, rh) \<Longrightarrow> pl \<noteq> [] \<and> map fst pl @ rest = ss"
  by (cases ss) (auto simp: collectPage_def simp del: cp_loop.simps dest!: cp_loop_shape)

lemma cp_loop_first:
  "\<exists>xs. fst (cp_loop sty s1 y acc s2 rest) =
     acc @ (s2, y + ((case s1 of Some p \<Rightarrow> cp_min_distance sty p (cp_geom sty s2)
                      | None \<Rightarrow> cp_top_distance sty (cp_geom sty s2)) + cp_user_dist sty)) # xs"
proof (cases rest)
    case Nil
    then show ?thesis by (simp add: Let_def)
  next
    case (Cons s3 rest0)
    let ?y1 = "y + ((case s1 of Some p \<Rightarrow> cp_min_distance sty p (cp_geom sty s2)
                      | None \<Rightarrow> cp_top_distance sty (cp_geom sty s2)) + cp_user_dist sty)"
    let ?r = "cp_loop sty (Some (cp_geom sty s2)) (?y1 + ps_height (cp_geom sty s2)) (acc @ [(s2, ?y1)]) s3 rest0"
    show ?thesis
    proof (cases "(cp_mode sty \<noteq> LM_SYSTEM \<and> ps_page_break (cp_geom sty s2)) \<or>
        cp_page_bottom sty \<le> ?y1 + ps_height (cp_geom sty s2) + (cp_min_distance sty (cp_geom sty s2) (cp_geom sty s3) +
          ps_height (cp_geom sty s3) + cp_bottom_gap sty (cp_geom sty s3))")
      case True
      then show ?thesis using Cons by (simp add: Let_def)
    next
      case False
      have e: "cp_loop sty s1 y acc s2 rest = ?r" using Cons
        by (subst cp_loop.simps) (simp only: Let_def list.case if_not_P [OF False])
      obtain a b c where abc: "?r = (a, b, c)" by (cases ?r)
      obtain xs where "a = (acc @ [(s2, ?y1)]) @ xs" using cp_loop_shape [OF abc] by blast
      then show ?thesis using e abc by simp
    qed
qed

lemma cp_loop_step_stop:
  assumes "(cp_mode sty \<noteq> LM_SYSTEM \<and> ps_page_break (cp_geom sty s2)) \<or>
     cp_page_bottom sty \<le> y + ((case s1 of Some p \<Rightarrow> cp_min_distance sty p (cp_geom sty s2)
                      | None \<Rightarrow> cp_top_distance sty (cp_geom sty s2)) + cp_user_dist sty) + ps_height (cp_geom sty s2) +
       (cp_min_distance sty (cp_geom sty s2) (cp_geom sty s3) + ps_height (cp_geom sty s3) + cp_bottom_gap sty (cp_geom sty s3))"
  shows "map fst (fst (cp_loop sty s1 y acc s2 (s3 # rest))) = map fst acc @ [s2]"
  using assms by (simp add: Let_def)

lemma cp_loop_step_go:
  assumes "\<not> ((cp_mode sty \<noteq> LM_SYSTEM \<and> ps_page_break (cp_geom sty s2)) \<or>
     cp_page_bottom sty \<le> y + ((case s1 of Some p \<Rightarrow> cp_min_distance sty p (cp_geom sty s2)
                      | None \<Rightarrow> cp_top_distance sty (cp_geom sty s2)) + cp_user_dist sty) + ps_height (cp_geom sty s2) +
       (cp_min_distance sty (cp_geom sty s2) (cp_geom sty s3) + ps_height (cp_geom sty s3) + cp_bottom_gap sty (cp_geom sty s3)))"
  shows "cp_loop sty s1 y acc s2 (s3 # rest) =
    cp_loop sty (Some (cp_geom sty s2))
      (y + ((case s1 of Some p \<Rightarrow> cp_min_distance sty p (cp_geom sty s2)
                      | None \<Rightarrow> cp_top_distance sty (cp_geom sty s2)) + cp_user_dist sty) + ps_height (cp_geom sty s2))
      (acc @ [(s2, y + ((case s1 of Some p \<Rightarrow> cp_min_distance sty p (cp_geom sty s2)
                      | None \<Rightarrow> cp_top_distance sty (cp_geom sty s2)) + cp_user_dist sty))]) s3 rest"
  by (subst cp_loop.simps) (simp only: Let_def list.case if_not_P [OF assms])

lemma cp_loop_fits:
  "cp_loop sty s1 y acc s2 rest = (pl, rest', rh) \<Longrightarrow> length acc < i \<Longrightarrow> i < length pl \<Longrightarrow>
   snd (pl ! i) + ps_height (cp_geom sty (fst (pl ! i))) + cp_bottom_gap sty (cp_geom sty (fst (pl ! i))) <
   cp_page_bottom sty + cp_user_dist sty"
proof (induction rest arbitrary: s1 y acc s2 pl rest' rh)
  case Nil
  then show ?case by (auto simp: Let_def)
next
  case (Cons s3 rest0)
  let ?g2 = "cp_geom sty s2" and ?g3 = "cp_geom sty s3"
  let ?y1 = "y + ((case s1 of Some p \<Rightarrow> cp_min_distance sty p ?g2
                    | None \<Rightarrow> cp_top_distance sty ?g2) + cp_user_dist sty)"
  let ?y2 = "?y1 + ps_height ?g2"
  show ?case
  proof (cases "(cp_mode sty \<noteq> LM_SYSTEM \<and> ps_page_break ?g2) \<or>
      cp_page_bottom sty \<le> ?y2 + (cp_min_distance sty ?g2 ?g3 + ps_height ?g3 + cp_bottom_gap sty ?g3)")
    case True
    then show ?thesis using Cons.prems by (auto simp: Let_def)
  next
    case False
    have r: "cp_loop sty (Some ?g2) ?y2 (acc @ [(s2, ?y1)]) s3 rest0 = (pl, rest', rh)"
      using cp_loop_step_go [OF False] Cons.prems(1) by simp
    show ?thesis
    proof (cases "i = Suc (length acc)")
      case True
      obtain xs where "pl = (acc @ [(s2, ?y1)]) @ (s3, ?y2 + (cp_min_distance sty ?g2 ?g3 + cp_user_dist sty)) # xs"
        using cp_loop_first [of sty "Some ?g2" ?y2 "acc @ [(s2, ?y1)]" s3 rest0] r by auto
      then have "pl ! i = (s3, ?y2 + (cp_min_distance sty ?g2 ?g3 + cp_user_dist sty))"
        using True by (simp add: nth_append)
      then show ?thesis using False by simp
    next
      case False
      then show ?thesis using Cons.IH [OF r] Cons.prems(2,3) by simp
    qed
  qed
qed

lemma lp_shift_fst: "map fst (lp_shift sty st yoff p ps) = map fst ps"
  by (induction sty st yoff p ps rule: lp_shift.induct) (simp_all add: Let_def)

lemma layoutPage_fst: "map fst (layoutPage sty pl rh) = map fst pl"
  by (auto simp: layoutPage_def Let_def lp_shift_fst split: list.splits prod.splits)

lemma layout_pages_total:
  "\<exists>pages. layout_pages sty ss = Some pages \<and> concat (map (map fst) pages) = ss"
proof (induction ss rule: measure_induct_rule [of length])
  case (less ss)
  show ?case
  proof (cases "collectPage sty ss")
    case None
    then have "ss = []" by (cases ss) (simp_all add: collectPage_def)
    then show ?thesis using None by (simp add: layout_pages.simps)
  next
    case (Some r)
    obtain pl rest rh where r: "r = (pl, rest, rh)" by (metis prod_cases3)
    have sh: "pl \<noteq> [] \<and> map fst pl @ rest = ss" using collectPage_shape Some r by simp
    then have "length rest < length ss" by (metis length_append length_map length_greater_0_conv less_add_same_cancel2)
    then obtain pages where p: "layout_pages sty rest = Some pages" "concat (map (map fst) pages) = rest"
      using less by blast
    show ?thesis using Some r p sh by (simp add: layout_pages.simps layoutPage_fst)
  qed
qed


lemma lp_gap_Cons: "lp_gap sty (x # L) (Suc j) = lp_gap sty L j"
  by (simp add: lp_gap_def)

lemma lp_shift_length [simp]: "length (lp_shift sty st yoff p ps) = length ps"
  by (induction sty st yoff p ps rule: lp_shift.induct) (simp_all add: Let_def)

lemma lp_shift_gap:
  "Suc i < Suc (length ps) \<Longrightarrow>
   lp_gap sty ((s1, y1 + yoff) # lp_shift sty st yoff (s1, y1 + yoff) ps) i =
   (if lp_stretchable sty (fst (((s1, y1) # ps) ! i)) (fst (((s1, y1) # ps) ! Suc i))
    then lp_step sty st (lp_gap sty ((s1, y1) # ps) i) else lp_gap sty ((s1, y1) # ps) i)"
proof (induction ps arbitrary: s1 y1 yoff i)
  case Nil
  then show ?case by simp
next
  case (Cons q ps)
  obtain s2 y2 where q: "q = (s2, y2)" by fastforce
  define yoff' where "yoff' = (if lp_stretchable sty s1 s2 then
                     (let dist = (y2 + yoff) - (y1 + yoff + ps_height (cp_geom sty s1));
                          offset = (if dist + st > cp_max_distance sty
                                    then max (cp_max_distance sty - dist) 0 else st)
                      in yoff + offset) else yoff)"
  have sh: "lp_shift sty st yoff (s1, y1 + yoff) (q # ps) =
            (s2, y2 + yoff') # lp_shift sty st yoff' (s2, y2 + yoff') ps"
    by (simp add: q yoff'_def Let_def)
  show ?case
  proof (cases i)
    case 0
    then show ?thesis
      by (simp add: sh q lp_gap_def lp_step_def yoff'_def Let_def algebra_simps)
  next
    case (Suc j)
    have l: "lp_gap sty ((s1, y1 + yoff) # lp_shift sty st yoff (s1, y1 + yoff) (q # ps)) (Suc j) =
             lp_gap sty ((s2, y2 + yoff') # lp_shift sty st yoff' (s2, y2 + yoff') ps) j"
      by (simp only: sh lp_gap_Cons)
    have r: "lp_gap sty ((s1, y1) # q # ps) (Suc j) = lp_gap sty ((s2, y2) # ps) j"
      by (simp only: q lp_gap_Cons)
    have "Suc j < Suc (length ps)" using Cons.prems Suc by simp
    then show ?thesis using Cons.IH [of j s2 y2 yoff'] l r Suc q by simp
  qed
qed


abbreviation lp_count :: "'s cp_style \<Rightarrow> ('s \<times> qreal) list \<Rightarrow> ('s \<times> qreal) list \<Rightarrow> nat" where
  "lp_count sty xs ps \<equiv> length (filter (\<lambda>(a, b). lp_stretchable sty (fst a) (fst b)) (zip xs ps))"

lemma lp_shift_offset:
  "0 \<le> st \<Longrightarrow> i < Suc (length ps) \<Longrightarrow>
   yoff \<le> snd (((s1, y1 + yoff) # lp_shift sty st yoff (s1, y1 + yoff) ps) ! i) - snd (((s1, y1) # ps) ! i) \<and>
   snd (((s1, y1 + yoff) # lp_shift sty st yoff (s1, y1 + yoff) ps) ! i) - snd (((s1, y1) # ps) ! i)
     \<le> yoff + st * of_nat (lp_count sty ((s1, y1) # ps) ps)"
proof (induction ps arbitrary: s1 y1 yoff i)
  case Nil
  then show ?case by simp
next
  case (Cons q ps)
  obtain s2 y2 where q: "q = (s2, y2)" by fastforce
  define yoff' where "yoff' = (if lp_stretchable sty s1 s2 then
                     (let dist = (y2 + yoff) - (y1 + yoff + ps_height (cp_geom sty s1));
                          offset = (if dist + st > cp_max_distance sty
                                    then max (cp_max_distance sty - dist) 0 else st)
                      in yoff + offset) else yoff)"
  have sh: "lp_shift sty st yoff (s1, y1 + yoff) (q # ps) =
            (s2, y2 + yoff') # lp_shift sty st yoff' (s2, y2 + yoff') ps"
    by (simp add: q yoff'_def Let_def)
  have off: "yoff \<le> yoff' \<and> yoff' \<le> yoff + (if lp_stretchable sty s1 s2 then st else 0)"
    using Cons.prems(1) by (auto simp: yoff'_def Let_def)
  have cnt: "lp_count sty ((s1, y1) # q # ps) (q # ps) =
             (if lp_stretchable sty s1 s2 then 1 else 0) + lp_count sty ((s2, y2) # ps) ps"
    by (simp add: q)
  show ?case
  proof (cases i)
    case 0
    then show ?thesis using Cons.prems(1) by simp
  next
    case (Suc j)
    have "j < Suc (length ps)" using Cons.prems(2) Suc by simp
    then have ih: "yoff' \<le> snd (((s2, y2 + yoff') # lp_shift sty st yoff' (s2, y2 + yoff') ps) ! j) - snd (((s2, y2) # ps) ! j) \<and>
      snd (((s2, y2 + yoff') # lp_shift sty st yoff' (s2, y2 + yoff') ps) ! j) - snd (((s2, y2) # ps) ! j)
        \<le> yoff' + st * of_nat (lp_count sty ((s2, y2) # ps) ps)"
      using Cons.IH [OF Cons.prems(1)] by blast
    have e: "((s1, y1 + yoff) # lp_shift sty st yoff (s1, y1 + yoff) (q # ps)) ! i =
             ((s2, y2 + yoff') # lp_shift sty st yoff' (s2, y2 + yoff') ps) ! j"
      by (simp only: sh Suc nth_Cons_Suc)
    have e2: "((s1, y1) # q # ps) ! i = ((s2, y2) # ps) ! j"
      by (simp only: Suc nth_Cons_Suc q)
    show ?thesis using ih off cnt Cons.prems(1) unfolding e e2
      by (cases "lp_stretchable sty s1 s2") (simp_all add: algebra_simps)
  qed
qed


text \<open>
  C25: the spec's page-break scenario.  The second system of the stream starts a new page
  exactly when the first ends the page by its page break (outside system mode) or when the
  second, placed below the first at \<open>System::minDistance\<close>, would not end with its
  bottom clearance above the page's bottom limit.
\<close>

theorem collectPage_second_fits:
  "map fst (fst (the (collectPage sty (s1 # s2 # rest)))) = [s1] \<longleftrightarrow>
   (cp_mode sty \<noteq> LM_SYSTEM \<and> ps_page_break (cp_geom sty s1)) \<or>
   cp_page_bottom sty \<le> cp_top_margin sty + (cp_top_distance sty (cp_geom sty s1) + cp_user_dist sty) +
     ps_height (cp_geom sty s1) +
     (cp_min_distance sty (cp_geom sty s1) (cp_geom sty s2) + ps_height (cp_geom sty s2) + cp_bottom_gap sty (cp_geom sty s2))"
  (is "?l \<longleftrightarrow> ?stop")
proof (cases ?stop)
  case True
  then show ?thesis using cp_loop_step_stop [of sty s1 "cp_top_margin sty" None s2 "[]"]
    by (simp add: collectPage_def del: cp_loop.simps)
next
  case False
  let ?g1 = "cp_geom sty s1"
  let ?y1 = "cp_top_margin sty + (cp_top_distance sty ?g1 + cp_user_dist sty)"
  let ?r = "cp_loop sty (Some ?g1) (?y1 + ps_height ?g1) [(s1, ?y1)] s2 rest"
  have go: "collectPage sty (s1 # s2 # rest) = Some ?r"
    using cp_loop_step_go [of sty s1 "cp_top_margin sty" None s2 "[]" rest] False
    by (simp add: collectPage_def del: cp_loop.simps)
  obtain xs y where "fst ?r = [(s1, ?y1)] @ (s2, y) # xs"
    using cp_loop_first [of sty "Some ?g1" "?y1 + ps_height ?g1" "[(s1, ?y1)]" s2 rest] by auto
  then show ?thesis using False go by (simp del: cp_loop.simps)
qed

theorem collectPage_second_fits_witness:
  "map fst (fst (the (collectPage (ex_pstyle 10 250) [ex_sys 100, ex_sys 100]))) \<noteq> [ex_sys 100]"
  using collectPage_second_fits [of "ex_pstyle 10 250" "ex_sys 100" "ex_sys 100" "[]"] by (simp add: cp_eval)

text \<open>
  C26: the fit test of \<open>collectPage\<close> leaves out the staff's \<open>userDist\<close> that the
  placement then adds.  When the second system passes the test, it is taken and placed at
  \<open>minDistance + userDist\<close> below the first; it then ends below the page's bottom limit
  exactly when the slack the test saw is less than \<open>userDist\<close>, and \<open>layoutPage\<close>
  is called with a negative rest.
\<close>

theorem collectPage_user_dist_overflow:
  assumes nb: "\<not> (cp_mode sty \<noteq> LM_SYSTEM \<and> ps_page_break (cp_geom sty s1))"
    and fit: "cp_top_margin sty + (cp_top_distance sty (cp_geom sty s1) + cp_user_dist sty) + ps_height (cp_geom sty s1) +
      (cp_min_distance sty (cp_geom sty s1) (cp_geom sty s2) + ps_height (cp_geom sty s2) +
       cp_bottom_gap sty (cp_geom sty s2)) < cp_page_bottom sty"
  shows "\<exists>pl r h. collectPage sty (s1 # s2 # rest) = Some (pl, r, h) \<and> map fst (take 2 pl) = [s1, s2] \<and>
    snd (pl ! 1) = cp_top_margin sty + (cp_top_distance sty (cp_geom sty s1) + cp_user_dist sty) +
      ps_height (cp_geom sty s1) + (cp_min_distance sty (cp_geom sty s1) (cp_geom sty s2) + cp_user_dist sty) \<and>
    (cp_page_bottom sty < snd (pl ! 1) + ps_height (cp_geom sty s2) + cp_bottom_gap sty (cp_geom sty s2) \<longleftrightarrow>
     cp_page_bottom sty - (cp_top_margin sty + (cp_top_distance sty (cp_geom sty s1) + cp_user_dist sty) +
       ps_height (cp_geom sty s1) + (cp_min_distance sty (cp_geom sty s1) (cp_geom sty s2) +
       ps_height (cp_geom sty s2) + cp_bottom_gap sty (cp_geom sty s2))) < cp_user_dist sty)"
proof -
  let ?g1 = "cp_geom sty s1"
  let ?y1 = "cp_top_margin sty + (cp_top_distance sty ?g1 + cp_user_dist sty)"
  let ?r = "cp_loop sty (Some ?g1) (?y1 + ps_height ?g1) [(s1, ?y1)] s2 rest"
  have go: "collectPage sty (s1 # s2 # rest) = Some ?r"
    using cp_loop_step_go [of sty s1 "cp_top_margin sty" None s2 "[]" rest] nb fit
    by (simp add: collectPage_def del: cp_loop.simps)
  obtain a b c where abc: "?r = (a, b, c)" by (cases ?r)
  obtain xs where xs: "a = [(s1, ?y1)] @ (s2, ?y1 + ps_height ?g1 + (cp_min_distance sty ?g1 (cp_geom sty s2) + cp_user_dist sty)) # xs"
    using cp_loop_first [of sty "Some ?g1" "?y1 + ps_height ?g1" "[(s1, ?y1)]" s2 rest] abc by auto
  show ?thesis
    using go abc xs by (intro exI [of _ a] exI [of _ b] exI [of _ c]) (auto simp del: cp_loop.simps)
qed

theorem collectPage_user_dist_overflow_witness:
  "\<exists>pl r h. collectPage ((ex_pstyle 0 215)\<lparr>cp_user_dist := 10\<rparr>) [ex_sys 100, ex_sys 100] = Some (pl, r, h) \<and>
     map fst pl = [ex_sys 100, ex_sys 100] \<and> 215 < snd (pl ! 1) + 100"
proof -
  note t = collectPage_user_dist_overflow [of "(ex_pstyle 0 215)\<lparr>cp_user_dist := 10\<rparr>" "ex_sys 100" "ex_sys 100" "[]"]
  have a: "\<not> (cp_mode ((ex_pstyle 0 215)\<lparr>cp_user_dist := 10\<rparr>) \<noteq> LM_SYSTEM \<and>
      ps_page_break (cp_geom ((ex_pstyle 0 215)\<lparr>cp_user_dist := 10\<rparr>) (ex_sys 100)))"
    by (simp add: cp_eval)
  show ?thesis using t [OF a] by (simp add: cp_eval)
qed

text \<open>
  C27: the bound \<open>collectPage\<close> does keep: every system of a page after the first ends,
  with its bottom clearance, less than the first staff's \<open>userDist\<close> below the page's
  bottom limit.
\<close>

theorem collectPage_fits:
  assumes "collectPage sty ss = Some (pl, rest, rh)" and "0 < i" and "i < length pl"
  shows "snd (pl ! i) + ps_height (cp_geom sty (fst (pl ! i))) + cp_bottom_gap sty (cp_geom sty (fst (pl ! i))) <
    cp_page_bottom sty + cp_user_dist sty"
proof (cases ss)
  case Nil
  then show ?thesis using assms(1) by (simp add: collectPage_def)
next
  case (Cons s ss')
  then have "cp_loop sty None (cp_top_margin sty) [] s ss' = (pl, rest, rh)"
    using assms(1) by (simp add: collectPage_def del: cp_loop.simps)
  then show ?thesis by (rule cp_loop_fits) (use assms(2,3) in simp_all)
qed

theorem collectPage_fits_witness:
  "snd (fst (the (collectPage ((ex_pstyle 0 215)\<lparr>cp_user_dist := 10\<rparr>) [ex_sys 100, ex_sys 100])) ! 1) + 100 < 225"
proof -
  have e: "collectPage ((ex_pstyle 0 215)\<lparr>cp_user_dist := 10\<rparr>) [ex_sys 100, ex_sys 100] =
      Some ([(ex_sys 100, 10), (ex_sys 100, 120)], [], -5)"
    by (simp add: cp_eval)
  show ?thesis using collectPage_fits [OF e, of 1] e by (simp add: cp_eval)
qed

text \<open>
  \<open>layoutPage\<close> grows each gap between two systems without boxes by the share
  \<open>restHeight / gaps\<close>, or up to \<open>maxSystemDistance\<close> when that is less, and never
  shrinks it; gaps next to a box are kept.
\<close>

theorem layoutPage_gap:
  assumes "0 < lp_gaps sty placed" and "\<not> cp_no_vstretch sty" and "cp_mode sty \<noteq> LM_SYSTEM"
    and "Suc i < length placed"
  shows "lp_gap sty (layoutPage sty placed rh) i =
         (if lp_stretchable sty (fst (placed ! i)) (fst (placed ! Suc i))
          then lp_step sty (rh / of_nat (lp_gaps sty placed)) (lp_gap sty placed i)
          else lp_gap sty placed i)"
proof -
  obtain s1 y1 ps where p: "placed = (s1, y1) # ps" using assms(4) by (cases placed) auto
  have "layoutPage sty placed rh = (s1, y1 + 0) # lp_shift sty (rh / of_nat (lp_gaps sty placed)) 0 (s1, y1 + 0) ps"
    using assms(1-3) by (simp add: layoutPage_def p)
  then show ?thesis using lp_shift_gap [of i ps sty s1 y1 0 "rh / of_nat (lp_gaps sty placed)"] assms(4) p
    by simp
qed

theorem layoutPage_gap_witness:
  "lp_gap (ex_pstyle 0 1000) (layoutPage (ex_pstyle 0 1000) [(ex_sys 100, 0), (ex_sys 100, 150)] 30) 0 = 80"
  using layoutPage_gap [of "ex_pstyle 0 1000" "[(ex_sys 100, 0), (ex_sys 100, 150)]" 0 30]
  by (simp add: cp_eval)

text \<open>
  C28: with a nonnegative rest, \<open>layoutPage\<close> moves every system of the page down by at
  least 0 and at most the rest: no system leaves the room the page has.
\<close>

theorem layoutPage_shift:
  assumes "0 \<le> rh" and "i < length placed"
  shows "snd (placed ! i) \<le> snd (layoutPage sty placed rh ! i) \<and>
         snd (layoutPage sty placed rh ! i) \<le> snd (placed ! i) + rh"
proof (cases "lp_gaps sty placed = 0 \<or> cp_no_vstretch sty \<or> cp_mode sty = LM_SYSTEM")
  case True
  then show ?thesis using assms by (auto simp: layoutPage_def Let_def split: prod.splits)
next
  case False
  obtain s1 y1 ps where p: "placed = (s1, y1) # ps" using assms(2) by (cases placed) auto
  define g where "g = lp_gaps sty placed"
  have g: "lp_count sty placed ps = g" by (simp add: g_def lp_gaps_def p)
  have "0 < g" using False g_def by simp
  then have st: "0 \<le> rh / of_nat g" "rh / of_nat g * of_nat g = rh" using assms(1) by simp_all
  have "layoutPage sty placed rh = (s1, y1 + 0) # lp_shift sty (rh / of_nat g) 0 (s1, y1 + 0) ps"
    using False by (simp add: layoutPage_def p g_def)
  then show ?thesis
    using lp_shift_offset [OF st(1), of i ps 0 s1 y1 sty] assms(2) p g st(2) by simp
qed


theorem layoutPage_shift_witness:
  "snd (layoutPage (ex_pstyle 0 1000) [(ex_sys 100, 0), (ex_sys 100, 150)] 30 ! 1) = 180 \<and>
   (150::real) \<le> 180 \<and> (180::real) \<le> 150 + 30"
  using layoutPage_shift [of 30 1 "[(ex_sys 100, 0), (ex_sys 100, 150)]" "ex_pstyle 0 1000"]
  by (simp add: cp_eval)

text \<open>
  C29: the layout of a score terminates and lays out every measure exactly once, in
  order: reading the measures of the systems of the pages gives back the score.
\<close>

theorem doLayout_total:
  "\<exists>pages. doLayout sty psty ms = Some pages \<and> concat (map (map fst) (map fst (concat pages))) = ms"
proof (cases "ms = []")
  case True
  then show ?thesis by (simp add: doLayout_def)
next
  case False
  obtain pages where p: "layout_pages psty (systems_of sty ms) = Some pages"
    "concat (map (map fst) pages) = systems_of sty ms"
    using layout_pages_total by blast
  have m: "map fst (concat pages) = systems_of sty ms"
    using p(2) by (simp add: map_concat del: systems_of.simps)
  show ?thesis
  proof (intro exI conjI)
    show "doLayout sty psty ms = Some pages" using False p(1) by (simp add: doLayout_def del: systems_of.simps)
    show "concat (map (map fst) (map fst (concat pages))) = ms" by (simp only: m systems_of_concat)
  qed
qed

end
