(* ===== verification/Note_Event.thy ===== *)
theory Note_Event
  imports Layout_Prelude
begin

text \<open>
  Note events of \<open>src/libmscore/noteevent.cpp\<close>: a note's playback event (pitch
  offset, onset and length in thousandths of the note), written to and read from the
  score file.  The XML element \<open><Event>\<close> is modelled as the list of its child
  elements; a child the reader knows is a tag with an integer, any other child is
  skipped by \<open>e.unknown()\<close>.  The property machinery the code calls
  (\<open>getProperty\<close>, \<open>setProperty\<close>, \<open>writeProperty\<close>, the property names and
  defaults) is declared outside \<open>src/\<close>; the model takes it as an interface
  \<open>ne_iface\<close>, and the round trip is proved for every interface that stores each
  property in its field under the name the reader looks for.
\<close>

record note_event =
  ne_pitch :: int
  ne_ontime :: int
  ne_len :: int

text \<open>The property ids the code names.\<close>

datatype pid = P_PITCH | P_EVENT_PITCH | P_ONTIME | P_LEN

text \<open>A child element of \<open><Event>\<close>: \<open><tag>value</tag>\<close>, or anything else.\<close>

datatype xml_child = XTag string int | XOther string

text \<open>
  The property interface: the value of a property, setting it, its XML name, and its
  default (\<open>writeProperty\<close> writes nothing for a property at its default).
\<close>

record ne_iface =
  ni_get :: "pid \<Rightarrow> note_event \<Rightarrow> int"
  ni_set :: "pid \<Rightarrow> int \<Rightarrow> note_event \<Rightarrow> note_event"
  ni_name :: "pid \<Rightarrow> string"
  ni_default :: "pid \<Rightarrow> int option"

text \<open>\<open>NoteEvent::read\<close>: one child element.\<close>

fun ne_read_child :: "ne_iface \<Rightarrow> note_event \<Rightarrow> xml_child \<Rightarrow> note_event" where
  "ne_read_child ni ev (XTag tag v) =
     (if tag = ''noteeventPitch'' then ni_set ni P_PITCH v ev
      else if tag = ''ontime'' then ni_set ni P_ONTIME v ev
      else if tag = ''len'' then ni_set ni P_LEN v ev
      else ev)"
| "ne_read_child ni ev (XOther _) = ev"

definition ne_read :: "ne_iface \<Rightarrow> note_event \<Rightarrow> xml_child list \<Rightarrow> note_event" where
  "ne_read ni ev children = foldl (ne_read_child ni) ev children"

text \<open>\<open>writeProperty\<close>: the property as a child, unless it is at its default.\<close>

definition ne_write_prop :: "ne_iface \<Rightarrow> note_event \<Rightarrow> pid \<Rightarrow> xml_child list" where
  "ne_write_prop ni ev p =
     (if ni_default ni p = Some (ni_get ni p ev) then [] else [XTag (ni_name ni p) (ni_get ni p ev)])"

text \<open>\<open>NoteEvent::write\<close>: the children of \<open><Event>\<close>.\<close>

definition ne_write :: "ne_iface \<Rightarrow> note_event \<Rightarrow> xml_child list" where
  "ne_write ni ev = ne_write_prop ni ev P_EVENT_PITCH @ ne_write_prop ni ev P_ONTIME @ ne_write_prop ni ev P_LEN"

text \<open>\<open>NoteEvent::operator==\<close>.\<close>

definition ne_eq :: "note_event \<Rightarrow> note_event \<Rightarrow> bool" where
  "ne_eq a e \<longleftrightarrow> ne_pitch e = ne_pitch a \<and> ne_ontime e = ne_ontime a \<and> ne_len e = ne_len a"

text \<open>
  An interface that stores each property in its own field, without defaults, under the
  names the reader expects.
\<close>

definition ex_iface :: ne_iface where
  "ex_iface = \<lparr>ni_get = (\<lambda>p ev. case p of P_LEN \<Rightarrow> ne_len ev | P_ONTIME \<Rightarrow> ne_ontime ev | _ \<Rightarrow> ne_pitch ev),
     ni_set = (\<lambda>p v ev. case p of P_LEN \<Rightarrow> ev\<lparr>ne_len := v\<rparr> | P_ONTIME \<Rightarrow> ev\<lparr>ne_ontime := v\<rparr>
                               | _ \<Rightarrow> ev\<lparr>ne_pitch := v\<rparr>),
     ni_name = (\<lambda>p. case p of P_LEN \<Rightarrow> ''len'' | P_ONTIME \<Rightarrow> ''ontime'' | _ \<Rightarrow> ''noteeventPitch''),
     ni_default = (\<lambda>_. None)\<rparr>"

text \<open>The children the reader acts on.\<close>

definition ne_known :: "xml_child \<Rightarrow> bool" where
  "ne_known c \<longleftrightarrow> (case c of XTag t _ \<Rightarrow> t \<in> {''noteeventPitch'', ''ontime'', ''len''} | XOther _ \<Rightarrow> False)"

lemma ne_read_Cons [simp]: "ne_read ni ev (c # cs) = ne_read ni (ne_read_child ni ev c) cs"
  by (simp add: ne_read_def)

lemma ne_read_Nil [simp]: "ne_read ni ev [] = ev"
  by (simp add: ne_read_def)

lemma ne_read_child_unknown: "\<not> ne_known c \<Longrightarrow> ne_read_child ni ev c = ev"
  by (cases c) (auto simp: ne_known_def)

lemma ne_read_append: "ne_read ni ev (xs @ ys) = ne_read ni (ne_read ni ev xs) ys"
  by (simp add: ne_read_def)

text \<open>
  \<open>operator==\<close> on note events is equality: two events compare equal exactly
  when pitch, onset and length agree.
\<close>

theorem ne_eq_iff: "ne_eq a e \<longleftrightarrow> a = e"
  by (cases a; cases e) (auto simp: ne_eq_def)

text \<open>
  C31: round trip.  For a property interface that keeps pitch, onset and length in their
  fields (the reader's \<open>P_PITCH\<close> setting the pitch the writer reads as
  \<open>P_EVENT_PITCH\<close>), names them as the reader expects, and whose defaults are the
  values of the event read into, reading what \<open>NoteEvent::write\<close> wrote gives back
  the event.
\<close>

theorem ne_read_write:
  assumes names: "ni_name ni P_EVENT_PITCH = ''noteeventPitch''" "ni_name ni P_ONTIME = ''ontime''"
      "ni_name ni P_LEN = ''len''"
    and gets: "\<forall>e. ni_get ni P_EVENT_PITCH e = ne_pitch e" "\<forall>e. ni_get ni P_ONTIME e = ne_ontime e"
      "\<forall>e. ni_get ni P_LEN e = ne_len e"
    and sets: "\<forall>v e. ni_set ni P_PITCH v e = e\<lparr>ne_pitch := v\<rparr>"
      "\<forall>v e. ni_set ni P_ONTIME v e = e\<lparr>ne_ontime := v\<rparr>"
      "\<forall>v e. ni_set ni P_LEN v e = e\<lparr>ne_len := v\<rparr>"
    and defaults: "\<forall>d. ni_default ni P_EVENT_PITCH = Some d \<longrightarrow> ne_pitch ev0 = d"
      "\<forall>d. ni_default ni P_ONTIME = Some d \<longrightarrow> ne_ontime ev0 = d"
      "\<forall>d. ni_default ni P_LEN = Some d \<longrightarrow> ne_len ev0 = d"
  shows "ne_read ni ev0 (ne_write ni ev) = ev"
  using assms by (cases ev0; cases ev) (auto simp: ne_write_def ne_write_prop_def ne_read_append)

theorem ne_read_write_witness:
  "ne_read ex_iface \<lparr>ne_pitch = 0, ne_ontime = 0, ne_len = 1000\<rparr>
     (ne_write ex_iface \<lparr>ne_pitch = 7, ne_ontime = 250, ne_len = 500\<rparr>) =
   \<lparr>ne_pitch = 7, ne_ontime = 250, ne_len = 500\<rparr>"
  by (rule ne_read_write) (simp_all add: ex_iface_def)

text \<open>
  Unknown children are skipped: \<open>NoteEvent::read\<close> gives the same event when the
  element's children the reader does not know are dropped.
\<close>

theorem ne_read_unknown: "ne_read ni ev (filter ne_known cs) = ne_read ni ev cs"
proof (induction cs arbitrary: ev)
  case Nil
  then show ?case by simp
next
  case (Cons c cs)
  then show ?case by (cases "ne_known c") (simp_all add: ne_read_child_unknown)
qed

end
