(* ===== verification/MMRest.thy ===== *)
theory MMRest
  imports Layout_Prelude
begin

text \<open>
  Multi-measure rests and measure numbers, \<open>src/libmscore/layout.cpp\<close>:
  \<open>validMMRestMeasure\<close> (may a measure be part of a multi-measure rest),
  \<open>breakMultiMeasureRest\<close> (must a new one start at it),
  \<open>LayoutContext::adjustMeasureNo\<close>, and the part of \<open>Score::getNextMeasure\<close> that
  collects a run of empty measures and decides whether it collapses.  A measure is a
  record of what these functions read: its segments with their annotations and the
  element of each track, its flags, its markers and jumps, the end bar lines and clef
  segments found by \<open>findSegment\<close>.  The spanner map's voltas are a list of tick
  intervals; \<open>findOverlapping\<close> is closed-interval overlap.  \<open>createMMRest\<close>, which
  builds the replacement measure, is not modelled: the model returns the run it would be
  called with.
\<close>

datatype ann_kind = AK_REHEARSAL | AK_TEMPO | AK_HARMONY | AK_STAFF_TEXT | AK_OTHER

text \<open>An annotation of a segment: its kind, \<open>systemFlag()\<close>, \<open>staffIdx()\<close>.\<close>

record ann =
  an_kind :: ann_kind
  an_system :: bool
  an_staff :: nat

datatype el_kind = EK_REST | EK_OTHER

text \<open>The element of a track: rest or not, its articulations, \<open>generated()\<close>.\<close>

record elem =
  el_kind :: el_kind
  el_artics :: nat
  el_generated :: bool

datatype seg_type = ST_CHORDREST | ST_CLEF | ST_KEYSIG | ST_TIMESIG | ST_START_REPEAT
  | ST_END_BARLINE | ST_OTHER

text \<open>A segment: its type, tick, annotations and the element of each track (by index).\<close>

record mseg =
  sg_type :: seg_type
  sg_tick :: tick
  sg_anns :: "ann list"
  sg_elems :: "elem option list"

text \<open>\<open>BarLineType\<close>: the three the code treats as plain, and the others.\<close>

datatype barline_type = BL_NORMAL | BL_BROKEN | BL_DOTTED | BL_DOUBLE | BL_START_REPEAT
  | BL_END_REPEAT | BL_END | BL_END_START_REPEAT

record mmeasure =
  mm_tick :: tick
  mm_end_tick :: tick
  mm_len :: tick
  mm_irregular :: bool
  mm_break_mmr :: bool
  mm_repeat_start :: bool
  mm_repeat_end :: bool
  mm_section_break :: bool
  mm_markers :: "bool list"
  mm_jump :: bool
  mm_segs :: "mseg list"
  mm_end_barlines :: "(barline_type \<times> bool) option list option"
  mm_clef_ticks :: "tick list"
  mm_no_offset :: int
  mm_nstaves :: nat

text \<open>
  Score-wide values: whether each staff is shown, the number of staves, the voltas as
  \<open>(tick, tick2)\<close>, \<open>minEmptyMeasures\<close>, \<open>createMultiMeasureRests\<close>.
\<close>

record mm_score =
  sc_show :: "nat \<Rightarrow> bool"
  sc_nstaves :: nat
  sc_voltas :: "(tick \<times> tick) list"
  sc_min_empty :: int
  sc_create_mmr :: bool

subsection \<open>\<open>validMMRestMeasure\<close>\<close>

definition vm_ann_ok :: "ann \<Rightarrow> bool" where
  "vm_ann_ok a \<longleftrightarrow> an_kind a \<in> {AK_REHEARSAL, AK_TEMPO, AK_HARMONY, AK_STAFF_TEXT}"

text \<open>\<open>s->element(track)\<close>; no element past the segment's tracks.\<close>

definition sg_elem :: "mseg \<Rightarrow> nat \<Rightarrow> elem option" where
  "sg_elem s t = (if t < length (sg_elems s) then sg_elems s ! t else None)"

text \<open>
  The track loop of a chord-rest segment: \<open>None\<close> is \<open>return false\<close>, \<open>Some f\<close>
  ends the loop with \<open>restFound = f\<close>.  A hidden staff is skipped whole
  (\<open>track += VOICES - 1; continue\<close>).
\<close>

function vm_tracks :: "(nat \<Rightarrow> bool) \<Rightarrow> mseg \<Rightarrow> nat \<Rightarrow> nat \<Rightarrow> bool \<Rightarrow> bool option" where
  "vm_tracks shw s tracks track found =
     (if tracks \<le> track then Some found
      else if track mod VOICES = 0 \<and> \<not> shw (track div VOICES) then vm_tracks shw s tracks (track + VOICES) found
      else case sg_elem s track of
             None \<Rightarrow> vm_tracks shw s tracks (track + 1) found
           | Some e \<Rightarrow> if el_kind e \<noteq> EK_REST then None
                       else if 0 < el_artics e then None
                       else vm_tracks shw s tracks (track + 1) True)"
  by pat_completeness auto
termination by (relation "measure (\<lambda>(shw, s, tracks, track, found). tracks - track)") auto

text \<open>The segment loop, with \<open>n\<close> the chord-rest segments holding a rest so far.\<close>

fun vm_segs :: "(nat \<Rightarrow> bool) \<Rightarrow> nat \<Rightarrow> nat \<Rightarrow> mseg list \<Rightarrow> bool" where
  "vm_segs shw tracks n [] = True"
| "vm_segs shw tracks n (s # ss) =
     (if \<not> list_all vm_ann_ok (sg_anns s) then False
      else if sg_type s = ST_CHORDREST then
        (case vm_tracks shw s tracks 0 False of
           None \<Rightarrow> False
         | Some found \<Rightarrow>
             let n' = (if found then n + 1 else n)
             in if 1 < n' then False else vm_segs shw tracks n' ss)
      else vm_segs shw tracks n ss)"

definition validMMRestMeasure :: "mm_score \<Rightarrow> mmeasure \<Rightarrow> bool" where
  "validMMRestMeasure sc m \<longleftrightarrow>
     \<not> mm_irregular m \<and> vm_segs (sc_show sc) (mm_nstaves m * VOICES) 0 (mm_segs m)"

subsection \<open>\<open>breakMultiMeasureRest\<close>\<close>

text \<open>\<open>spannerMap().findOverlapping(m->tick(), m->endTick())\<close> on the voltas.\<close>

definition mm_voltas :: "mm_score \<Rightarrow> mmeasure \<Rightarrow> (tick \<times> tick) list" where
  "mm_voltas sc m = filter (\<lambda>(a, b). a \<le> mm_end_tick m \<and> mm_tick m \<le> b) (sc_voltas sc)"

text \<open>The annotations and the elements of one segment that break a rest.\<close>

definition bm_seg :: "mm_score \<Rightarrow> mmeasure \<Rightarrow> mseg \<Rightarrow> bool" where
  "bm_seg sc m s \<longleftrightarrow>
     list_ex (\<lambda>e. an_kind e = AK_REHEARSAL \<or> an_kind e = AK_TEMPO \<or>
                 ((an_kind e = AK_HARMONY \<or> an_kind e = AK_STAFF_TEXT) \<and>
                  (an_system e \<or> sc_show sc (an_staff e)))) (sg_anns s) \<or>
     list_ex (\<lambda>i. sc_show sc i \<and>
                 (case sg_elem s (i * VOICES) of
                    None \<Rightarrow> False
                  | Some e \<Rightarrow> \<not> el_generated e \<and>
                      (sg_type s = ST_START_REPEAT \<or>
                       ((sg_type s = ST_KEYSIG \<or> sg_type s = ST_TIMESIG) \<and> mm_tick m \<noteq> 0) \<or>
                       (sg_type s = ST_CLEF \<and> sg_tick s \<noteq> mm_end_tick m \<and> mm_tick m \<noteq> 0))))
       [0..<sc_nstaves sc]"

text \<open>
  The end bar line of the previous measure: the first staff with a bar line decides
  (\<open>else break\<close>); it breaks when it is not plain and not generated.
\<close>

definition bm_end_barline :: "mm_score \<Rightarrow> mmeasure \<Rightarrow> bool" where
  "bm_end_barline sc pm =
     (case mm_end_barlines pm of
        None \<Rightarrow> False
      | Some bls \<Rightarrow>
          (case find (\<lambda>b. b \<noteq> None) (take (sc_nstaves sc) bls) of
             Some (Some (t, gen)) \<Rightarrow> t \<notin> {BL_NORMAL, BL_BROKEN, BL_DOTTED} \<and> \<not> gen
           | _ \<Rightarrow> False))"

definition breakMultiMeasureRest :: "mm_score \<Rightarrow> mmeasure option \<Rightarrow> mmeasure \<Rightarrow> bool" where
  "breakMultiMeasureRest sc pm m \<longleftrightarrow>
     mm_break_mmr m \<or> mm_repeat_start m \<or>
     (case pm of Some p \<Rightarrow> mm_repeat_end p \<or> mm_section_break p | None \<Rightarrow> False) \<or>
     list_ex (\<lambda>(a, b). a = mm_tick m \<or> b = mm_tick m) (mm_voltas sc m) \<or>
     list_ex Not (mm_markers m) \<or>
     (case pm of Some p \<Rightarrow> mm_jump p \<or> list_ex id (mm_markers p) | None \<Rightarrow> False) \<or>
     list_ex (\<lambda>(a, b). b = mm_end_tick m) (mm_voltas sc m) \<or>
     list_ex (bm_seg sc m) (mm_segs m) \<or>
     (case pm of Some p \<Rightarrow> bm_end_barline sc p \<or> mm_tick m \<in> set (mm_clef_ticks p) | None \<Rightarrow> False)"

subsection \<open>Measure numbers and the run of empty measures\<close>

text \<open>\<open>adjustMeasureNo\<close>: the new counter and the number given to the measure.\<close>

definition adjustMeasureNo :: "int \<Rightarrow> mmeasure \<Rightarrow> int \<times> int" where
  "adjustMeasureNo measureNo m =
     (let no = measureNo + mm_no_offset m;
          measureNo' = (if \<not> mm_irregular m then no + 1 else no)
      in (if mm_section_break m then 0 else measureNo', no))"

text \<open>
  The run loop of \<open>getNextMeasure\<close>: the previous measure, the counter, the numbers
  given so far, \<open>n\<close>, \<open>len\<close>, and the measure \<open>nm\<close> with the elements after it
  (\<open>None\<close> for a box, which ends the run).  Result: counter, numbers, \<open>n\<close>,
  \<open>len\<close>.
\<close>

fun mm_run ::
  "mm_score \<Rightarrow> mmeasure option \<Rightarrow> int \<Rightarrow> int list \<Rightarrow> nat \<Rightarrow> tick \<Rightarrow> mmeasure \<Rightarrow> mmeasure option list \<Rightarrow>
   int \<times> int list \<times> nat \<times> tick" where
  "mm_run sc pm cnt nos n len nm rest =
     (if \<not> validMMRestMeasure sc nm then (cnt, nos, n, len)
      else if breakMultiMeasureRest sc pm nm \<and> 0 < n then (cnt, nos, n, len)
      else
        let (cnt', no) = adjustMeasureNo cnt nm
        in case rest of
             Some nm' # rest' \<Rightarrow> mm_run sc (Some nm) cnt' (nos @ [no]) (Suc n) (len + mm_len nm) nm' rest'
           | _ \<Rightarrow> (cnt', nos @ [no], Suc n, len + mm_len nm))"

text \<open>
  \<open>getNextMeasure\<close> on a measure \<open>m\<close> (after \<open>pm\<close>, followed by \<open>rest\<close>), with
  multi-measure rests on and not in line mode: the counter afterwards, the number \<open>m\<close>
  ends up with, and the multi-measure rest created, as its measure count and length.
\<close>

definition getNextMeasure_mm ::
  "mm_score \<Rightarrow> int \<Rightarrow> mmeasure option \<Rightarrow> mmeasure \<Rightarrow> mmeasure option list \<Rightarrow>
   int \<times> int \<times> (nat \<times> tick) option" where
  "getNextMeasure_mm sc measureNo pm m rest =
     (let (mno, no_m) = adjustMeasureNo measureNo m;
          (cnt, nos, n, len) = mm_run sc pm no_m [] 0 0 m rest;
          no_m' = (if nos = [] then no_m else hd nos)
      in if sc_min_empty sc \<le> int n then (cnt, no_m', Some (n, len))
         else (mno, no_m', None))"

subsection \<open>Reference specification of \<open>validMMRestMeasure\<close>\<close>

text \<open>
  What \<open>validMMRestMeasure\<close> promises, without its loops: a track is acceptable when
  its staff is hidden or it holds nothing or a rest without articulations; a
  chord-rest segment is acceptable when all its tracks are, every segment's
  annotations are of the four allowed kinds, and at most one chord-rest segment holds
  a rest on a shown staff.
\<close>

definition vm_track_ok :: "(nat \<Rightarrow> bool) \<Rightarrow> mseg \<Rightarrow> nat \<Rightarrow> bool" where
  "vm_track_ok shw s t \<longleftrightarrow>
     \<not> shw (t div VOICES) \<or> (case sg_elem s t of None \<Rightarrow> True | Some e \<Rightarrow> el_kind e = EK_REST \<and> el_artics e = 0)"

definition vm_track_rest :: "(nat \<Rightarrow> bool) \<Rightarrow> mseg \<Rightarrow> nat \<Rightarrow> bool" where
  "vm_track_rest shw s t \<longleftrightarrow> shw (t div VOICES) \<and> sg_elem s t \<noteq> None"

definition vm_seg_ok :: "(nat \<Rightarrow> bool) \<Rightarrow> nat \<Rightarrow> mseg \<Rightarrow> bool" where
  "vm_seg_ok shw tracks s \<longleftrightarrow>
     list_all vm_ann_ok (sg_anns s) \<and>
     (sg_type s = ST_CHORDREST \<longrightarrow> list_all (vm_track_ok shw s) [0..<tracks])"

definition vm_seg_rest :: "(nat \<Rightarrow> bool) \<Rightarrow> nat \<Rightarrow> mseg \<Rightarrow> bool" where
  "vm_seg_rest shw tracks s \<longleftrightarrow> sg_type s = ST_CHORDREST \<and> list_ex (vm_track_rest shw s) [0..<tracks]"

definition validMMRest_spec :: "mm_score \<Rightarrow> mmeasure \<Rightarrow> bool" where
  "validMMRest_spec sc m \<longleftrightarrow>
     \<not> mm_irregular m \<and>
     list_all (vm_seg_ok (sc_show sc) (mm_nstaves m * VOICES)) (mm_segs m) \<and>
     length (filter (vm_seg_rest (sc_show sc) (mm_nstaves m * VOICES)) (mm_segs m)) \<le> 1"

subsection \<open>A score of empty measures\<close>

text \<open>
  One staff, all staves shown, \<open>minEmptyMeasures = 2\<close>; measure \<open>i\<close> of
  \<open>ex_empty\<close> is a 4/4 measure (1920 ticks) holding one whole rest.
\<close>

definition ex_rest_seg :: "tick \<Rightarrow> mseg" where
  "ex_rest_seg t = \<lparr>sg_type = ST_CHORDREST, sg_tick = t, sg_anns = [],
     sg_elems = [Some \<lparr>el_kind = EK_REST, el_artics = 0, el_generated = False\<rparr>, None, None, None]\<rparr>"

definition ex_empty :: "nat \<Rightarrow> mmeasure" where
  "ex_empty i = \<lparr>mm_tick = 1920 * int i, mm_end_tick = 1920 * int (Suc i), mm_len = 1920,
     mm_irregular = False, mm_break_mmr = False, mm_repeat_start = False, mm_repeat_end = False,
     mm_section_break = False, mm_markers = [], mm_jump = False, mm_segs = [ex_rest_seg (1920 * int i)],
     mm_end_barlines = None, mm_clef_ticks = [], mm_no_offset = 0, mm_nstaves = 1\<rparr>"

definition ex_mmscore :: mm_score where
  "ex_mmscore = \<lparr>sc_show = (\<lambda>_. True), sc_nstaves = 1, sc_voltas = [], sc_min_empty = 2,
     sc_create_mmr = True\<rparr>"

declare vm_tracks.simps [simp del]

lemma vm_tracks_spec:
  "VOICES dvd tracks \<Longrightarrow> (track mod VOICES \<noteq> 0 \<longrightarrow> shw (track div VOICES)) \<Longrightarrow>
   vm_tracks shw s tracks track found =
   (if list_all (vm_track_ok shw s) [track..<tracks]
    then Some (found \<or> list_ex (vm_track_rest shw s) [track..<tracks]) else None)"
proof (induction shw s tracks track found rule: vm_tracks.induct)
  case (1 shw s tracks track found)
  show ?case
  proof (cases "tracks \<le> track")
    case True
    then show ?thesis by (subst vm_tracks.simps) simp
  next
    case nt: False
    show ?thesis
    proof (cases "track mod VOICES = 0 \<and> \<not> shw (track div VOICES)")
      case True
      have m0: "track mod VOICES = 0" using True by simp
      obtain a where a: "track = VOICES * a" using m0 by (metis mod_eq_0_iff_dvd dvdE)
      obtain b where b: "tracks = VOICES * b" using "1.prems"(1) by (metis dvdE)
      have le: "track + VOICES \<le> tracks" using nt a b by simp
      have split: "[track..<tracks] = [track..<track + VOICES] @ [track + VOICES..<tracks]"
        using upt_add_eq_append [of track "track + VOICES" "tracks - (track + VOICES)"] le by simp
      have hid: "t \<in> set [track..<track + VOICES] \<Longrightarrow> \<not> shw (t div VOICES)" for t
      proof -
        assume "t \<in> set [track..<track + VOICES]"
        then have "track \<le> t" "t < track + VOICES" by simp_all
        then have "t div VOICES = a" using a by (intro div_nat_eqI) simp_all
        then have "t div VOICES = track div VOICES" using a by simp
        then show ?thesis using True by simp
      qed
      have first: "list_all (vm_track_ok shw s) [track..<track + VOICES]"
        "\<not> list_ex (vm_track_rest shw s) [track..<track + VOICES]"
        using hid by (auto simp: list_all_iff list_ex_iff vm_track_ok_def vm_track_rest_def)
      have ih: "vm_tracks shw s tracks (track + VOICES) found =
                (if list_all (vm_track_ok shw s) [track + VOICES..<tracks]
                 then Some (found \<or> list_ex (vm_track_rest shw s) [track + VOICES..<tracks]) else None)"
        using "1.IH"(1) [OF nt True "1.prems"(1)] True by simp
      have "vm_tracks shw s tracks track found = vm_tracks shw s tracks (track + VOICES) found"
        using nt True by (subst vm_tracks.simps) simp
      then show ?thesis using ih first split by simp
    next
      case False
      have sh: "shw (track div VOICES)" using False "1.prems"(2) by auto
      have nxt: "(Suc track) mod VOICES \<noteq> 0 \<longrightarrow> shw (Suc track div VOICES)"
      proof
        assume "Suc track mod VOICES \<noteq> 0"
        then have "Suc track div VOICES = track div VOICES" by (simp add: div_Suc mod_Suc split: if_splits)
        then show "shw (Suc track div VOICES)" using sh by simp
      qed
      have split: "[track..<tracks] = track # [Suc track..<tracks]" using nt by (simp add: upt_conv_Cons)
      show ?thesis
      proof (cases "sg_elem s track")
        case None
        have "vm_tracks shw s tracks track found = vm_tracks shw s tracks (track + 1) found"
          using nt False None by (subst vm_tracks.simps) auto
        moreover have "vm_track_ok shw s track" "\<not> vm_track_rest shw s track"
          using None by (simp_all add: vm_track_ok_def vm_track_rest_def)
        ultimately show ?thesis using "1.IH"(2) [OF nt False None "1.prems"(1)] nxt split by simp
      next
        case (Some e)
        show ?thesis
        proof (cases "el_kind e \<noteq> EK_REST \<or> 0 < el_artics e")
          case True
          then show ?thesis using nt False Some split sh
            by (subst vm_tracks.simps) (auto simp: vm_track_ok_def)
        next
          case ok: False
          have "vm_tracks shw s tracks track found = vm_tracks shw s tracks (track + 1) True"
            using nt False Some ok by (subst vm_tracks.simps) auto
          moreover have "vm_track_ok shw s track" "vm_track_rest shw s track"
            using Some ok sh by (simp_all add: vm_track_ok_def vm_track_rest_def)
          ultimately show ?thesis using "1.IH"(3) [OF nt False Some] ok "1.prems"(1) nxt split by simp
        qed
      qed
    qed
  qed
qed

lemma vm_segs_spec:
  "n \<le> 1 \<Longrightarrow> VOICES dvd tracks \<Longrightarrow>
   vm_segs shw tracks n segs \<longleftrightarrow>
   list_all (vm_seg_ok shw tracks) segs \<and> n + length (filter (vm_seg_rest shw tracks) segs) \<le> 1"
proof (induction segs arbitrary: n)
  case Nil
  then show ?case by simp
next
  case (Cons s segs)
  have tr: "vm_tracks shw s tracks 0 False =
            (if list_all (vm_track_ok shw s) [0..<tracks]
             then Some (list_ex (vm_track_rest shw s) [0..<tracks]) else None)"
    using vm_tracks_spec [OF Cons.prems(2), of 0 shw s False] by simp
  show ?case
  proof (cases "sg_type s = ST_CHORDREST")
    case True
    then show ?thesis using Cons.IH [of "Suc n"] Cons.IH [of n] Cons.prems tr
      by (auto simp: vm_seg_ok_def vm_seg_rest_def Let_def)
  next
    case False
    then show ?thesis using Cons.IH [of n] Cons.prems by (auto simp: vm_seg_ok_def vm_seg_rest_def)
  qed
qed

lemma ex_empty_valid: "validMMRestMeasure ex_mmscore (ex_empty i)"
  by (simp add: validMMRestMeasure_def ex_empty_def ex_rest_seg_def ex_mmscore_def
                vm_tracks.simps sg_elem_def)

lemma ex_empty_nobreak: "\<not> breakMultiMeasureRest ex_mmscore None (ex_empty i)"
  "\<not> breakMultiMeasureRest ex_mmscore (Some (ex_empty j)) (ex_empty i)"
  by (simp_all add: breakMultiMeasureRest_def bm_end_barline_def ex_empty_def ex_mmscore_def
        mm_voltas_def bm_seg_def ex_rest_seg_def sg_elem_def)

lemma ex_empty_fields: "mm_no_offset (ex_empty i) = 0" "mm_irregular (ex_empty i) = False"
  "mm_section_break (ex_empty i) = False" "mm_len (ex_empty i) = 1920" "sc_min_empty ex_mmscore = 2"
  by (simp_all add: ex_empty_def ex_mmscore_def)

text \<open>
  C33: the loops of \<open>validMMRestMeasure\<close> (the segment loop, with the counter of rest
  segments, and the track loop with its skip over hidden staves) decide exactly the
  reference specification \<open>validMMRest_spec\<close>.
\<close>

theorem validMMRestMeasure_spec: "validMMRestMeasure sc m \<longleftrightarrow> validMMRest_spec sc m"
  using vm_segs_spec [of 0 "mm_nstaves m * VOICES" "sc_show sc" "mm_segs m"]
  by (simp add: validMMRestMeasure_def validMMRest_spec_def)

theorem validMMRestMeasure_spec_witness:
  "validMMRestMeasure ex_mmscore (ex_empty 0) \<and> validMMRest_spec ex_mmscore (ex_empty 0)"
  using validMMRestMeasure_spec [of ex_mmscore "ex_empty 0"] ex_empty_valid [of 0] by simp

lemma mm_run_props:
  "mm_run sc pm cnt nos n len nm rest = (cnt', nos', n', len') \<Longrightarrow>
   \<exists>ms. n' = n + length ms \<and> len' = len + sum_list (map mm_len ms) \<and>
        take (length ms) (Some nm # rest) = map Some ms \<and> list_all (validMMRestMeasure sc) ms \<and>
        (\<forall>i. Suc i < length ms \<longrightarrow> \<not> breakMultiMeasureRest sc (Some (ms ! i)) (ms ! Suc i)) \<and>
        (ms \<noteq> [] \<longrightarrow> 0 < n \<longrightarrow> \<not> breakMultiMeasureRest sc pm nm) \<and>
        length nos' = length nos + length ms"
proof (induction rest arbitrary: pm cnt nos n len nm)
  case Nil
  then show ?case
    by (auto simp: Let_def split: if_splits prod.splits intro: exI [of _ "[]"] exI [of _ "[nm]"])
next
  case (Cons x rest)
  obtain c1 no where adj: "adjustMeasureNo cnt nm = (c1, no)" by fastforce
  consider (stop) "\<not> validMMRestMeasure sc nm \<or> (breakMultiMeasureRest sc pm nm \<and> 0 < n)"
    | (box) "validMMRestMeasure sc nm" "\<not> (breakMultiMeasureRest sc pm nm \<and> 0 < n)" "x = None"
    | (go) nm' where "validMMRestMeasure sc nm" "\<not> (breakMultiMeasureRest sc pm nm \<and> 0 < n)" "x = Some nm'"
    by (cases x) blast+
  then show ?case
  proof cases
    case stop
    then have "(cnt', nos', n', len') = (cnt, nos, n, len)"
      using Cons.prems by (cases "validMMRestMeasure sc nm") auto
    then show ?thesis by (intro exI [of _ "[]"]) simp
  next
    case box
    then have "n' = Suc n \<and> len' = len + mm_len nm \<and> length nos' = Suc (length nos)"
      using Cons.prems adj by (auto simp: Let_def)
    then show ?thesis using box by (intro exI [of _ "[nm]"]) auto
  next
    case (go nm')
    have r: "mm_run sc (Some nm) c1 (nos @ [no]) (Suc n) (len + mm_len nm) nm' rest = (cnt', nos', n', len')"
      using Cons.prems go adj by (simp add: Let_def)
    obtain ms where ms: "n' = Suc n + length ms" "len' = len + mm_len nm + sum_list (map mm_len ms)"
      "take (length ms) (Some nm' # rest) = map Some ms" "list_all (validMMRestMeasure sc) ms"
      "\<forall>i. Suc i < length ms \<longrightarrow> \<not> breakMultiMeasureRest sc (Some (ms ! i)) (ms ! Suc i)"
      "ms \<noteq> [] \<longrightarrow> \<not> breakMultiMeasureRest sc (Some nm) nm'"
      "length nos' = Suc (length nos) + length ms"
      using Cons.IH [OF r] by auto
    have hd: "ms \<noteq> [] \<Longrightarrow> ms ! 0 = nm'" using ms(3) by (cases ms) auto
    have brk: "\<forall>i. Suc i < length (nm # ms) \<longrightarrow>
                 \<not> breakMultiMeasureRest sc (Some ((nm # ms) ! i)) ((nm # ms) ! Suc i)"
    proof (intro allI impI)
      fix i assume i: "Suc i < length (nm # ms)"
      show "\<not> breakMultiMeasureRest sc (Some ((nm # ms) ! i)) ((nm # ms) ! Suc i)"
      proof (cases i)
        case 0
        then show ?thesis using i hd ms(6) by auto
      next
        case (Suc j)
        then show ?thesis using i ms(5) by simp
      qed
    qed
    show ?thesis
      using ms go brk by (intro exI [of _ "nm # ms"]) auto
  qed
qed

lemmas ex_run_eval = getNextMeasure_mm_def adjustMeasureNo_def ex_empty_valid ex_empty_nobreak
  ex_empty_fields upt_rec

lemma getNextMeasure_mm_Some:
  assumes "getNextMeasure_mm sc no pm m rest = (cnt, no', Some (n, len))"
  shows "\<exists>c nos. mm_run sc pm (snd (adjustMeasureNo no m)) [] 0 0 m rest = (c, nos, n, len) \<and>
           sc_min_empty sc \<le> int n"
  using assms by (auto simp: getNextMeasure_mm_def Let_def split: prod.splits if_splits)

text \<open>
  C34: when \<open>getNextMeasure\<close> creates a multi-measure rest of \<open>n\<close> measures and
  length \<open>len\<close>, the rest replaces the \<open>n\<close> measures starting at the current one:
  there are at least \<open>minEmptyMeasures\<close> of them, each is valid for a rest, none
  after the first breaks the rest, and \<open>len\<close> is the sum of their lengths.
\<close>

theorem getNextMeasure_mm_run:
  assumes "getNextMeasure_mm sc no pm m rest = (cnt, no', Some (n, len))"
  shows "\<exists>ms. length ms = n \<and> sc_min_empty sc \<le> int n \<and> len = sum_list (map mm_len ms) \<and>
           take n (Some m # rest) = map Some ms \<and> list_all (validMMRestMeasure sc) ms \<and>
           (\<forall>i. Suc i < n \<longrightarrow> \<not> breakMultiMeasureRest sc (Some (ms ! i)) (ms ! Suc i))"
proof -
  obtain c nos where r: "mm_run sc pm (snd (adjustMeasureNo no m)) [] 0 0 m rest = (c, nos, n, len)"
    and mn: "sc_min_empty sc \<le> int n"
    using getNextMeasure_mm_Some [OF assms] by blast
  show ?thesis using mm_run_props [OF r] mn by fastforce
qed

theorem getNextMeasure_mm_run_witness:
  "getNextMeasure_mm ex_mmscore 0 None (ex_empty 0) (map (\<lambda>i. Some (ex_empty i)) [1..<8]) = (8, 0, Some (8, 15360)) \<and>
   sum_list (map mm_len (map ex_empty [0..<8])) = 15360"
proof -
  have e: "getNextMeasure_mm ex_mmscore 0 None (ex_empty 0) (map (\<lambda>i. Some (ex_empty i)) [1..<8]) = (8, 0, Some (8, 15360))"
    by (simp add: ex_run_eval)
  obtain ms where ms: "length ms = 8" "15360 = sum_list (map mm_len ms)"
      "take 8 (Some (ex_empty 0) # map (\<lambda>i. Some (ex_empty i)) [1..<8]) = map Some ms"
    using getNextMeasure_mm_run [OF e] by blast
  have "map Some (map ex_empty [0..<8]) = map Some ms" using ms(3) by (simp add: upt_rec)
  then have "ms = map ex_empty [0..<8]" using inj_map_eq_map [OF inj_Some] by metis
  then show ?thesis using e ms(2) by simp
qed

text \<open>
  A multi-measure rest never runs past a section break, an end repeat or a jump:
  every measure of the run but the last has none of them.
\<close>

theorem getNextMeasure_mm_no_section_break:
  assumes "getNextMeasure_mm sc no pm m rest = (cnt, no', Some (n, len))"
    and "Suc i < n" and "take n (Some m # rest) ! i = Some mi"
  shows "\<not> mm_section_break mi \<and> \<not> mm_repeat_end mi \<and> \<not> mm_jump mi"
proof -
  obtain c nos where r: "mm_run sc pm (snd (adjustMeasureNo no m)) [] 0 0 m rest = (c, nos, n, len)"
    using getNextMeasure_mm_Some [OF assms(1)] by blast
  obtain ms where ms: "n = length ms" "take (length ms) (Some m # rest) = map Some ms"
      "\<forall>i. Suc i < length ms \<longrightarrow> \<not> breakMultiMeasureRest sc (Some (ms ! i)) (ms ! Suc i)"
    using mm_run_props [OF r] by auto
  have "mi = ms ! i" using assms(2,3) ms(1,2) by simp
  then show ?thesis using ms(3) assms(2) ms(1) by (auto simp: breakMultiMeasureRest_def)
qed

theorem getNextMeasure_mm_no_section_break_witness:
  "getNextMeasure_mm ex_mmscore 0 None (ex_empty 0) (map (\<lambda>i. Some (ex_empty i)) [1..<8]) = (8, 0, Some (8, 15360)) \<and>
   \<not> mm_section_break (ex_empty 3) \<and> \<not> mm_repeat_end (ex_empty 3) \<and> \<not> mm_jump (ex_empty 3)"
proof -
  have e: "getNextMeasure_mm ex_mmscore 0 None (ex_empty 0) (map (\<lambda>i. Some (ex_empty i)) [1..<8]) = (8, 0, Some (8, 15360))"
    by (simp add: ex_run_eval)
  have "take 8 (Some (ex_empty 0) # map (\<lambda>i. Some (ex_empty i)) [1..<8]) ! 3 = Some (ex_empty 3)"
    by (simp add: upt_rec eval_nat_numeral)
  then show ?thesis using getNextMeasure_mm_no_section_break [OF e, of 3] e by simp
qed

text \<open>
  Eight empty 4/4 measures at the start of the score with \<open>minEmptyMeasures = 2\<close>
  become one rest of eight measures and 15360 ticks; the first keeps number 0 and the
  counter continues at 8.
\<close>

theorem getNextMeasure_mm_eight:
  "getNextMeasure_mm ex_mmscore 0 None (ex_empty 0) (map (\<lambda>i. Some (ex_empty i)) [1..<8]) = (8, 0, Some (8, 15360))"
  by (simp add: ex_run_eval)

text \<open>
  A measure with a number offset that does not start a rest is numbered with its
  offset twice.  \<open>getNextMeasure\<close> numbers the current measure (\<open>adjustMeasureNo\<close>),
  sets \<open>lc.measureNo = m->no()\<close>, which already holds the offset, and the run loop
  calls \<open>adjustMeasureNo\<close> on the same measure again.  The counter is restored
  (\<open>lc.measureNo = mno\<close>) but the measure's number is not: offset 5 gives number 10.
\<close>

theorem getNextMeasure_mm_double_offset:
  "getNextMeasure_mm ex_mmscore 0 None ((ex_empty 0)\<lparr>mm_no_offset := 5\<rparr>) [None] = (6, 10, None)"
  using ex_empty_valid [of 0]
  by (simp add: getNextMeasure_mm_def adjustMeasureNo_def validMMRestMeasure_def ex_mmscore_def ex_empty_def)

end
