(* ===== verification/Accidentals.thy ===== *)
theory Accidentals
  imports Layout_Prelude
begin

text \<open>
  Accidental placement, \<open>struct AcEl\<close>, \<open>resolveAccidentals\<close>,
  \<open>layoutAccidental\<close> and the accidental part of \<open>Score::layoutChords3\<close> of
  \<open>src/libmscore/layout.cpp\<close>.  Positions are relative to the segment, x grows to the
  right and y downwards; an accidental is placed by its right edge, to the left of the
  notes.  What the code asks the accidental's symbol for (its bounding box, the cut-outs
  of its strokes, its magnification) is stored in the \<open>AcEl\<close> record when the
  record is built; a note to the left of the origin is its line and its x position.
\<close>

text \<open>
  \<open>struct AcEl\<close>, with three values of the note's accidental the layout reads
  through \<open>me->note\<close>: \<open>mag()\<close>, \<open>bbox().x()\<close> and the staff's
  \<open>lines()\<close>.  \<open>ac_width\<close> is \<open>acel.width = ac->width()\<close>, which
  \<open>layoutAccidental\<close> reads again as \<open>acc->width()\<close>.
\<close>

record acel =
  ac_x :: qreal
  ac_top :: qreal
  ac_bottom :: qreal
  ac_line :: staff_line
  ac_next :: int
  ac_width :: qreal
  ac_ascent :: qreal
  ac_descent :: qreal
  ac_right_clear :: qreal
  ac_left_clear :: qreal
  ac_mag :: qreal
  ac_bbox_x :: qreal
  ac_staff_lines :: int

text \<open>
  \<open>resolveAccidentals(left, right, lx, pd, sp)\<close>: whether the two accidentals
  conflict, and the new \<open>lx\<close> (a reference parameter of the code).  \<open>left\<close> is
  the one being placed, \<open>right\<close> one already placed; the test \<open>left == lower\<close>
  compares pointers to two distinct elements and holds exactly when \<open>left\<close> was
  chosen as the lower one, i.e. when its line is not above \<open>right\<close>'s.
\<close>

definition resolveAccidentals :: "acel \<Rightarrow> acel \<Rightarrow> qreal \<Rightarrow> qreal \<Rightarrow> qreal \<Rightarrow> bool \<times> qreal" where
  "resolveAccidentals left right lx pd sp =
     (let left_lower = (ac_line right \<le> ac_line left);
          (upper, lower) = (if left_lower then (right, left) else (left, right));
          gap = ac_top lower - ac_bottom upper
      in if pd \<le> gap \<or> 7 \<le> ac_line lower - ac_line upper then (False, lx)
      else
        let allowableOverlap = max (ac_descent upper) (ac_ascent lower) - pd
        in if \<bar>gap\<bar> \<le> 0.33 * sp \<and> - gap \<le> allowableOverlap \<and>
              0 < min (ac_descent upper) (ac_ascent lower)
           then (True, min lx (ac_x right + min (ac_width left) (ac_width right) - pd))
        else
          let overlapShift = pd * 1.41
          in if left_lower \<and> - gap \<le> allowableOverlap
             then (True, min lx (ac_x right + (min (max (ac_right_clear left) (ac_left_clear right))
                                                   (ac_width left) - overlapShift)))
          else
            let offset = min (ac_right_clear left) (ac_left_clear right) - overlapShift
            in if left_lower \<and> - gap \<le> ac_descent upper + ac_ascent lower - pd \<and> 0 < offset
               then (True, min lx (ac_x right + offset))
               else (True, min lx (ac_x right - pd)))"

text \<open>
  The loop of \<open>layoutAccidental\<close> over the notes left of the origin (line and
  \<open>ln->x() + ln->chord()->x()\<close>), in the order \<open>layoutChords3\<close> collected them,
  from the top; it stops at the first note wholly below the accidental.
\<close>

fun la_left_notes :: "acel \<Rightarrow> qreal \<Rightarrow> qreal \<Rightarrow> (staff_line \<times> qreal) list \<Rightarrow> qreal \<Rightarrow> qreal" where
  "la_left_notes me pnd sp [] lx = lx"
| "la_left_notes me pnd sp ((lnLine, lnX) # lns) lx =
     (let lnTop = of_int (lnLine - 1) * 0.5 * sp;
          lnBottom = lnTop + sp
      in if ac_top me - lnBottom \<le> pnd \<and> lnTop - ac_bottom me \<le> pnd then
           (if lnBottom - ac_top me \<le> ac_ascent me - pnd
            then la_left_notes me pnd sp lns (min lx (lnX + ac_right_clear me))
            else la_left_notes me pnd sp lns (min lx lnX))
         else if ac_bottom me < lnTop then lx
         else la_left_notes me pnd sp lns lx)"

text \<open>
  \<open>layoutAccidental(me, above, below, colOffset, leftNotes, pnd, pd, sp)\<close>: the
  accidental with its new \<open>x\<close> (the code stores it in \<open>me->x\<close> and returns it).
  \<open>above\<close> and \<open>below\<close> are \<open>acAbove\<close> and \<open>acBelow\<close> here (\<open>above\<close> is a
  HOL constant).
\<close>

definition layoutAccidental ::
  "acel \<Rightarrow> acel option \<Rightarrow> acel option \<Rightarrow> qreal \<Rightarrow> (staff_line \<times> qreal) list \<Rightarrow> qreal \<Rightarrow> qreal \<Rightarrow> qreal \<Rightarrow> acel" where
  "layoutAccidental me acAbove acBelow colOffset leftNotes pnd0 pd0 sp =
     (let mag = ac_mag me;
          pnd = pnd0 * mag;
          pd = pd0 * mag;
          lx0 = (if ac_line me \<le> -2 \<or> ac_staff_lines me * 2 \<le> ac_line me then min colOffset (-0.2 * sp)
                 else colOffset);
          lx1 = la_left_notes me pnd sp leftNotes lx0;
          (conflictAbove, lx2) = (case acAbove of None \<Rightarrow> (False, lx1)
                                  | Some a \<Rightarrow> resolveAccidentals me a lx1 pd sp);
          (conflictBelow, lx3) = (case acBelow of None \<Rightarrow> (False, lx2)
                                  | Some b \<Rightarrow> resolveAccidentals me b lx2 pd sp);
          x = (if conflictAbove \<or> conflictBelow then lx3 - ac_width me - ac_bbox_x me
               else if colOffset \<noteq> 0 then lx3 - pd - ac_width me - ac_bbox_x me
               else lx3 - pnd - ac_width me - ac_bbox_x me)
      in me\<lparr>ac_x := x\<rparr>)"

text \<open>
  What the first loop of \<open>layoutChords3\<close> reads of a note with an accidental: the
  accidental's bounding box (top, bottom, \<open>x\<close>), width and magnification, the
  corners of its symbol's box (\<open>topRight\<close>, \<open>bottomLeft\<close>) and the cut-outs
  \<open>symCutOutNE\<close>, \<open>symCutOutSW\<close> (\<open>(0, 0)\<close> is the null point).
\<close>

record acc_sym =
  as_bbox_top :: qreal
  as_bbox_bottom :: qreal
  as_bbox_x :: qreal
  as_width :: qreal
  as_mag :: qreal
  as_sym_ne :: "qreal \<times> qreal"
  as_sym_sw :: "qreal \<times> qreal"
  as_cut_ne :: "qreal \<times> qreal"
  as_cut_sw :: "qreal \<times> qreal"

record acc_note =
  an_line :: staff_line
  an_fixed :: bool
  an_acc :: "acc_sym option"

text \<open>The \<open>AcEl\<close> built for a note's accidental (\<open>next\<close> is set by the caller).\<close>

definition mk_acel :: "qreal \<Rightarrow> int \<Rightarrow> staff_line \<Rightarrow> acc_sym \<Rightarrow> acel" where
  "mk_acel sp lines line a =
     \<lparr>ac_x = 0, ac_top = of_int line * 0.5 * sp + as_bbox_top a,
      ac_bottom = of_int line * 0.5 * sp + as_bbox_bottom a, ac_line = line, ac_next = -1,
      ac_width = as_width a,
      ac_ascent = (if as_cut_ne a \<noteq> (0, 0) then snd (as_cut_ne a) - snd (as_sym_ne a) else 0),
      ac_descent = (if as_cut_sw a \<noteq> (0, 0) then snd (as_sym_sw a) - snd (as_cut_sw a) else 0),
      ac_right_clear = (if as_cut_ne a \<noteq> (0, 0) then fst (as_sym_ne a) - fst (as_cut_ne a) else 0),
      ac_left_clear = (if as_cut_sw a \<noteq> (0, 0) then fst (as_cut_sw a) - fst (as_sym_sw a) else 0),
      ac_mag = as_mag a, ac_bbox_x = as_bbox_x a, ac_staff_lines = lines\<rparr>"

text \<open>
  \<open>pitchClass = (line + 700) % 7\<close>, C++ remainder; it indexes \<open>columnBottom\<close>,
  so the code relies on \<open>line + 700 \<ge> 0\<close> (lines below \<open>-700\<close> would index out of
  the array).
\<close>

definition ac_pc :: "acel \<Rightarrow> nat" where
  "ac_pc e = nat (cxx_mod (ac_line e + 700) 7)"

text \<open>
  One step of the loop \<open>for (int i = nNotes-1; i >= 0; --i)\<close>: the accidentals
  collected so far and \<open>columnBottom\<close>.  The new element is linked to the last one of
  its pitch class, and becomes the bottom of that column.
\<close>

fun ac_collect_step :: "qreal \<Rightarrow> int \<Rightarrow> acel list \<times> int list \<Rightarrow> acc_note \<Rightarrow> acel list \<times> int list" where
  "ac_collect_step sp lines (acs, columnBottom) n =
     (case an_acc n of
        None \<Rightarrow> (acs, columnBottom)
      | Some a \<Rightarrow>
          if an_fixed n then (acs, columnBottom)
          else let e = mk_acel sp lines (an_line n) a;
                   pc = ac_pc e
               in (acs @ [e\<lparr>ac_next := columnBottom ! pc\<rparr>], columnBottom[pc := int (length acs)]))"

definition ac_collect :: "qreal \<Rightarrow> int \<Rightarrow> acc_note list \<Rightarrow> acel list \<times> int list" where
  "ac_collect sp lines notes = foldl (ac_collect_step sp lines) ([], replicate 7 (-1)) (rev notes)"

text \<open>
  The zig-zag of \<open>layoutChords3\<close> for accidentals without octave matches, as the
  sequence of calls to \<open>layoutAccidental\<close>: each entry is the position in
  \<open>umi\<close> of \<open>me\<close>, \<open>above\<close> and \<open>below\<close>.  \<open>zz_mid\<close> is the loop
  \<open>for (int i = 1; i < n; ++i, --n)\<close>: the next highest, then (unless
  \<open>i == n - 1\<close>) the next lowest.
\<close>

fun zz_mid :: "nat \<Rightarrow> nat \<Rightarrow> nat \<Rightarrow> nat \<Rightarrow> (nat \<times> nat option \<times> nat option) list" where
  "zz_mid i n ab me =
     (if i < n then
        (i, Some ab, Some me) #
        (if i = n - 1 then [] else (n - 1, Some i, Some me) # zz_mid (Suc i) (n - 1) i (n - 1))
      else [])"

definition zz_schedule :: "nat \<Rightarrow> (nat \<times> nat option \<times> nat option) list" where
  "zz_schedule nAcc =
     (if nAcc = 0 then []
      else let n = nAcc - 1
           in (0, None, None) #
              (if 0 < n then (n, Some 0, None) # (if 1 < n then zz_mid 1 n 0 n else []) else []))"

text \<open>
  One call \<open>layoutAccidental(me, above, below, ...)\<close> on the accidental list: the
  pointers are indices of \<open>aclist\<close> (through \<open>umi\<close>), so a neighbour placed
  earlier is read with its new \<open>x\<close>.
\<close>

fun zz_step ::
  "nat list \<Rightarrow> qreal \<Rightarrow> (staff_line \<times> qreal) list \<Rightarrow> qreal \<Rightarrow> qreal \<Rightarrow> qreal \<Rightarrow> acel list \<Rightarrow>
   nat \<times> nat option \<times> nat option \<Rightarrow> acel list" where
  "zz_step umi colOffset leftNotes pnd pd sp acs (me, ab, bl) =
     acs[umi ! me := layoutAccidental (acs ! (umi ! me)) (map_option (\<lambda>k. acs ! (umi ! k)) ab)
                       (map_option (\<lambda>k. acs ! (umi ! k)) bl) colOffset leftNotes pnd pd sp]"

definition zz_layout ::
  "nat list \<Rightarrow> qreal \<Rightarrow> (staff_line \<times> qreal) list \<Rightarrow> qreal \<Rightarrow> qreal \<Rightarrow> qreal \<Rightarrow> acel list \<Rightarrow> acel list" where
  "zz_layout umi colOffset leftNotes pnd pd sp acs =
     foldl (zz_step umi colOffset leftNotes pnd pd sp) acs (zz_schedule (length umi))"

subsection \<open>Reference properties and examples\<close>

text \<open>
  \<open>sched_ok placed s\<close>: in the call sequence \<open>s\<close>, every \<open>above\<close> is an
  accidental placed before and higher (smaller index), every \<open>below\<close> one placed
  before and lower.
\<close>

fun sched_ok :: "nat list \<Rightarrow> (nat \<times> nat option \<times> nat option) list \<Rightarrow> bool" where
  "sched_ok placed [] = True"
| "sched_ok placed ((m, ab, bl) # r) \<longleftrightarrow>
     pred_option (\<lambda>x. x \<in> set placed \<and> x < m) ab \<and> pred_option (\<lambda>y. y \<in> set placed \<and> m < y) bl \<and>
     sched_ok (m # placed) r"

text \<open>
  The index of the last accidental of pitch class \<open>p\<close> in a list, \<open>-1\<close> if none:
  what \<open>columnBottom[p]\<close> and the \<open>next\<close> links are meant to hold.
\<close>

definition col_last :: "acel list \<Rightarrow> nat \<Rightarrow> int" where
  "col_last acs p =
     (let js = filter (\<lambda>j. ac_pc (acs ! j) = p) [0..<length acs] in if js = [] then -1 else int (last js))"

definition ac_links_ok :: "acel list \<Rightarrow> int list \<Rightarrow> bool" where
  "ac_links_ok acs cb \<longleftrightarrow>
     length cb = 7 \<and> (\<forall>p<7. cb ! p = col_last acs p) \<and>
     (\<forall>k<length acs. ac_next (acs ! k) = col_last (take k acs) (ac_pc (acs ! k)))"

text \<open>Two accidentals 3 spaces tall, of width 1, without cut-outs.\<close>

definition ex_acc :: "staff_line \<Rightarrow> acel" where
  "ex_acc line = \<lparr>ac_x = 0, ac_top = of_int line / 2 - 3 / 2, ac_bottom = of_int line / 2 + 3 / 2,
     ac_line = line, ac_next = -1, ac_width = 1, ac_ascent = 0, ac_descent = 0, ac_right_clear = 0,
     ac_left_clear = 0, ac_mag = 1, ac_bbox_x = 0, ac_staff_lines = 5\<rparr>"

definition ex_sharp :: acc_sym where
  "ex_sharp = \<lparr>as_bbox_top = - 3 / 2, as_bbox_bottom = 3 / 2, as_bbox_x = 0, as_width = 1, as_mag = 1,
     as_sym_ne = (1, - 3 / 2), as_sym_sw = (0, 3 / 2), as_cut_ne = (0, 0), as_cut_sw = (0, 0)\<rparr>"

definition ex_notes :: "acc_note list" where
  "ex_notes = map (\<lambda>l. \<lparr>an_line = l, an_fixed = False, an_acc = Some ex_sharp\<rparr>) [7, 3, 0]"

subsection \<open>Lemmas\<close>

declare zz_mid.simps [simp del]

lemma zz_mid_Cons:
  "i < n \<Longrightarrow> zz_mid i n ab me =
     (i, Some ab, Some me) # (if i = n - 1 then [] else (n - 1, Some i, Some me) # zz_mid (Suc i) (n - 1) i (n - 1))"
  by (simp add: zz_mid.simps)

lemma zz_mid_Nil: "\<not> i < n \<Longrightarrow> zz_mid i n ab me = []"
  by (simp add: zz_mid.simps)

lemma zz_mid_perm: "i \<le> n \<Longrightarrow> mset (map fst (zz_mid i n ab me)) = mset [i..<n]"
proof (induction i n ab me rule: zz_mid.induct)
  case (1 i n ab me)
  show ?case
  proof (cases "i < n")
    case False
    then show ?thesis using "1.prems" by (simp add: zz_mid_Nil)
  next
    case lt: True
    show ?thesis
    proof (cases "i = n - 1")
      case True
      then show ?thesis using lt by (simp add: upt_rec zz_mid_Cons)
    next
      case False
      then have ih: "mset (map fst (zz_mid (Suc i) (n - 1) i (n - 1))) = mset [Suc i..<n - 1]"
        using "1.IH" lt by simp
      obtain m where m: "n = Suc m" using lt by (cases n) auto
      then have "[i..<n] = i # [Suc i..<n - 1] @ [n - 1]" using lt False by (simp add: upt_conv_Cons)
      then show ?thesis using lt False ih by (simp add: zz_mid_Cons)
    qed
  qed
qed

lemma zz_schedule_perm: "mset (map fst (zz_schedule k)) = mset [0..<k]"
proof -
  consider "k = 0" | "k = 1" | "k = 2" | "2 < k" by linarith
  then show ?thesis
  proof cases
    case 4
    obtain m where m: "k = Suc m" using 4 by (cases k) auto
    then have "[0..<k] = 0 # [1..<k - 1] @ [k - 1]" using 4 by (simp add: upt_conv_Cons)
    then show ?thesis using 4 zz_mid_perm [of 1 "k - 1" 0 "k - 1"]
      by (simp add: zz_schedule_def Let_def)
  qed (simp_all add: zz_schedule_def upt_rec)
qed

lemma zz_mid_ok:
  "ab \<in> set placed \<Longrightarrow> me \<in> set placed \<Longrightarrow> ab < i \<Longrightarrow> n \<le> me \<Longrightarrow> sched_ok placed (zz_mid i n ab me)"
proof (induction i n ab me arbitrary: placed rule: zz_mid.induct)
  case (1 i n ab me)
  show ?case
  proof (cases "i < n")
    case lt: True
    show ?thesis
    proof (cases "i = n - 1")
      case False
      have "sched_ok ((n - 1) # i # placed) (zz_mid (Suc i) (n - 1) i (n - 1))"
        using "1.IH" [OF lt False, of "(n - 1) # i # placed"] by simp
      then show ?thesis using lt False "1.prems" by (simp add: zz_mid_Cons, linarith)
    qed (use lt "1.prems" in \<open>simp add: zz_mid_Cons\<close>)
  qed (simp add: zz_mid_Nil)
qed

lemma zz_schedule_ok: "sched_ok [] (zz_schedule k)"
  using zz_mid_ok [of 0 "[k - 1, 0]" "k - 1" 1 "k - 1"]
  by (simp add: zz_schedule_def Let_def)

lemma la_left_notes_le: "la_left_notes me pnd sp lns lx \<le> lx"
proof (induction lns arbitrary: lx)
  case (Cons ln lns)
  obtain l x where ln: "ln = (l, x)" by fastforce
  show ?case using Cons.IH [of "min lx (x + ac_right_clear me)"] Cons.IH [of "min lx x"] Cons.IH [of lx]
    by (auto simp: ln Let_def)
qed simp

lemma resolveAccidentals_le: "snd (resolveAccidentals l r lx pd sp) \<le> lx"
  by (simp add: resolveAccidentals_def Let_def)

lemma resolveAccidentals_case_le:
  "snd (case ao of None \<Rightarrow> (False, lx) | Some a \<Rightarrow> resolveAccidentals me a lx pd sp) \<le> lx"
  by (cases ao) (simp_all add: resolveAccidentals_le)

lemma layoutAccidental_right_edge:
  assumes "0 \<le> pd" "0 \<le> pnd" "0 \<le> ac_mag me"
  shows "ac_x (layoutAccidental me ab bl colOffset lns pnd pd sp) + ac_width me + ac_bbox_x me \<le> colOffset"
proof -
  define lx0 where "lx0 = (if ac_line me \<le> -2 \<or> ac_staff_lines me * 2 \<le> ac_line me then min colOffset (-0.2 * sp)
                 else colOffset)"
  define lx1 where "lx1 = la_left_notes me (pnd * ac_mag me) sp lns lx0"
  obtain c2 lx2 where r2: "(case ab of None \<Rightarrow> (False, lx1) | Some a \<Rightarrow> resolveAccidentals me a lx1 (pd * ac_mag me) sp) = (c2, lx2)"
    by fastforce
  obtain c3 lx3 where r3: "(case bl of None \<Rightarrow> (False, lx2) | Some b \<Rightarrow> resolveAccidentals me b lx2 (pd * ac_mag me) sp) = (c3, lx3)"
    by fastforce
  have "lx0 \<le> colOffset" by (simp add: lx0_def)
  moreover have "lx1 \<le> lx0" using la_left_notes_le by (simp add: lx1_def)
  moreover have "lx2 \<le> lx1" using resolveAccidentals_case_le [where ao=ab and lx=lx1 and me=me and pd="pd * ac_mag me" and sp=sp] r2
    by simp
  moreover have "lx3 \<le> lx2" using resolveAccidentals_case_le [where ao=bl and lx=lx2 and me=me and pd="pd * ac_mag me" and sp=sp] r3
    by simp
  ultimately have le: "lx3 \<le> colOffset" by linarith
  have "0 \<le> pd * ac_mag me" "0 \<le> pnd * ac_mag me" using assms by simp_all
  moreover have "layoutAccidental me ab bl colOffset lns pnd pd sp =
      me\<lparr>ac_x := (if c2 \<or> c3 then lx3 - ac_width me - ac_bbox_x me
                     else if colOffset \<noteq> 0 then lx3 - pd * ac_mag me - ac_width me - ac_bbox_x me
                     else lx3 - pnd * ac_mag me - ac_width me - ac_bbox_x me)\<rparr>"
    using r2 [unfolded lx1_def lx0_def] r3 by (simp add: layoutAccidental_def Let_def)
  ultimately show ?thesis using le by simp
qed

lemma layoutAccidental_fields [simp]:
  "ac_width (layoutAccidental me ab bl c lns pnd pd sp) = ac_width me"
  "ac_bbox_x (layoutAccidental me ab bl c lns pnd pd sp) = ac_bbox_x me"
  "ac_mag (layoutAccidental me ab bl c lns pnd pd sp) = ac_mag me"
  by (simp_all add: layoutAccidental_def Let_def split: prod.splits)

lemma zz_step_length [simp]: "length (zz_step umi c lns pnd pd sp acs s) = length acs"
  by (cases s) simp

lemma zz_step_nth:
  "zz_step umi c lns pnd pd sp acs s ! j =
     (if j = umi ! fst s \<and> j < length acs
      then layoutAccidental (acs ! j) (map_option (\<lambda>k. acs ! (umi ! k)) (fst (snd s)))
             (map_option (\<lambda>k. acs ! (umi ! k)) (snd (snd s))) c lns pnd pd sp
      else acs ! j)"
  by (cases s) (auto simp: nth_list_update list_update_beyond)

lemma zz_step_fields:
  "ac_width (zz_step umi c lns pnd pd sp acs s ! j) = ac_width (acs ! j)"
  "ac_bbox_x (zz_step umi c lns pnd pd sp acs s ! j) = ac_bbox_x (acs ! j)"
  "ac_mag (zz_step umi c lns pnd pd sp acs s ! j) = ac_mag (acs ! j)"
  by (simp_all add: zz_step_nth)

lemma zz_fold_bound:
  assumes "0 \<le> pd" "0 \<le> pnd" "\<forall>i<length acs. 0 \<le> ac_mag (acs ! i)" "j < length acs"
    and "j \<in> (\<lambda>s. umi ! fst s) ` set sch \<or> ac_x (acs ! j) + ac_width (acs ! j) + ac_bbox_x (acs ! j) \<le> c"
  shows "ac_x (foldl (zz_step umi c lns pnd pd sp) acs sch ! j) + ac_width (acs ! j) + ac_bbox_x (acs ! j) \<le> c"
  using assms(3-)
proof (induction sch arbitrary: acs)
  case Nil
  then show ?case by simp
next
  case (Cons s sch)
  define acs1 where "acs1 = zz_step umi c lns pnd pd sp acs s"
  have len: "length acs1 = length acs" by (simp add: acs1_def)
  have f: "ac_width (acs1 ! j) = ac_width (acs ! j)" "ac_bbox_x (acs1 ! j) = ac_bbox_x (acs ! j)"
    "\<forall>i<length acs1. 0 \<le> ac_mag (acs1 ! i)"
    using Cons.prems(1) by (simp_all add: acs1_def zz_step_fields)
  have "j \<in> (\<lambda>s. umi ! fst s) ` set sch \<or> ac_x (acs1 ! j) + ac_width (acs1 ! j) + ac_bbox_x (acs1 ! j) \<le> c"
  proof (cases "j = umi ! fst s")
    case True
    then show ?thesis
      using layoutAccidental_right_edge [OF assms(1,2)] Cons.prems(1,2) by (simp add: acs1_def zz_step_nth)
  next
    case False
    then show ?thesis using Cons.prems(3) by (auto simp: acs1_def zz_step_nth)
  qed
  then show ?case using Cons.IH [of acs1] f len Cons.prems(2) by (simp add: acs1_def)
qed

lemma zz_schedule_fst: "(\<lambda>s. fst s) ` set (zz_schedule k) = {..<k}"
proof -
  have "set (map fst (zz_schedule k)) = set [0..<k]"
    using zz_schedule_perm [of k] by (metis set_mset_mset)
  then show ?thesis by auto
qed

theorem resolveAccidentals_no_conflict:
  "resolveAccidentals l r lx pd sp = (False, lx') \<longleftrightarrow>
   lx' = lx \<and>
   (if ac_line r \<le> ac_line l then pd \<le> ac_top l - ac_bottom r \<or> 7 \<le> ac_line l - ac_line r
    else pd \<le> ac_top r - ac_bottom l \<or> 7 \<le> ac_line r - ac_line l)"
  by (auto simp: resolveAccidentals_def Let_def)

theorem zz_layout_second:
  "zz_layout [0, 1] 0 [] (1 / 4) (1 / 5) 1 [ex_acc 0, ex_acc 1] =
   [(ex_acc 0)\<lparr>ac_x := - 5 / 4\<rparr>, (ex_acc 1)\<lparr>ac_x := - 49 / 20\<rparr>]"
  by (simp add: zz_layout_def zz_schedule_def layoutAccidental_def resolveAccidentals_def ex_acc_def Let_def)

lemma ac_pc_lt: "-700 \<le> ac_line e \<Longrightarrow> ac_pc e < 7"
  by (simp add: ac_pc_def cxx_mod_nonneg nat_less_iff)

lemma ac_pc_next [simp]: "ac_pc (e\<lparr>ac_next := v\<rparr>) = ac_pc e"
  by (simp add: ac_pc_def)

lemma mk_acel_line [simp]: "ac_line (mk_acel sp lines line a) = line"
  by (simp add: mk_acel_def)

lemma col_last_snoc:
  "col_last (acs @ [e]) p = (if ac_pc e = p then int (length acs) else col_last acs p)"
proof -
  have "filter (\<lambda>j. ac_pc ((acs @ [e]) ! j) = p) [0..<length acs] =
        filter (\<lambda>j. ac_pc (acs ! j) = p) [0..<length acs]"
    by (rule filter_cong) (simp_all add: nth_append)
  then show ?thesis by (simp add: col_last_def Let_def)
qed

lemma ac_collect_step_ok:
  assumes "ac_links_ok acs cb" "-700 \<le> an_line n"
  shows "ac_links_ok (fst (ac_collect_step sp lines (acs, cb) n)) (snd (ac_collect_step sp lines (acs, cb) n))"
proof (cases "an_acc n")
  case (Some a)
  show ?thesis
  proof (cases "an_fixed n")
    case False
    define e where "e = mk_acel sp lines (an_line n) a"
    have pc: "ac_pc e < 7" using assms(2) by (simp add: ac_pc_lt e_def)
    have st: "ac_collect_step sp lines (acs, cb) n =
              (acs @ [e\<lparr>ac_next := cb ! ac_pc e\<rparr>], cb[ac_pc e := int (length acs)])"
      using Some False by (simp add: e_def Let_def)
    have old: "\<forall>k<length acs. ac_next ((acs @ [e\<lparr>ac_next := cb ! ac_pc e\<rparr>]) ! k) =
                 col_last (take k (acs @ [e\<lparr>ac_next := cb ! ac_pc e\<rparr>])) (ac_pc ((acs @ [e\<lparr>ac_next := cb ! ac_pc e\<rparr>]) ! k))"
      using assms(1) by (simp add: ac_links_ok_def nth_append)
    have new: "ac_next ((acs @ [e\<lparr>ac_next := cb ! ac_pc e\<rparr>]) ! length acs) =
                 col_last (take (length acs) (acs @ [e\<lparr>ac_next := cb ! ac_pc e\<rparr>])) (ac_pc e)"
      using assms(1) pc by (simp add: ac_links_ok_def)
    have "\<forall>k<Suc (length acs). ac_next ((acs @ [e\<lparr>ac_next := cb ! ac_pc e\<rparr>]) ! k) =
                 col_last (take k (acs @ [e\<lparr>ac_next := cb ! ac_pc e\<rparr>])) (ac_pc ((acs @ [e\<lparr>ac_next := cb ! ac_pc e\<rparr>]) ! k))"
      using old new by (auto simp: less_Suc_eq)
    then show ?thesis unfolding st using assms(1) pc
      by (simp add: ac_links_ok_def col_last_snoc nth_list_update)
  qed (use Some assms(1) in simp)
qed (use assms(1) in simp)

lemma ac_collect_fold_ok:
  "ac_links_ok acs cb \<Longrightarrow> list_all (\<lambda>n. -700 \<le> an_line n) ns \<Longrightarrow>
   ac_links_ok (fst (foldl (ac_collect_step sp lines) (acs, cb) ns)) (snd (foldl (ac_collect_step sp lines) (acs, cb) ns))"
proof (induction ns arbitrary: acs cb)
  case (Cons n ns)
  then show ?case using ac_collect_step_ok [of acs cb n sp lines]
    by (cases "ac_collect_step sp lines (acs, cb) n") simp
qed simp

text \<open>
  C38: in the zig-zag layout of \<open>layoutChords3\<close> (no octave columns, column offset
  \<open>c\<close>), with nonnegative accidental distances and magnifications, every accidental
  ends left of \<open>c\<close>: its right edge \<open>x + width + bbox.x\<close> is at most \<open>c\<close>.
  With \<open>c = 0\<close> no accidental reaches into the noteheads at the origin.
\<close>

theorem zz_layout_right_edge:
  assumes "0 \<le> pd" "0 \<le> pnd" "list_all (\<lambda>e. 0 \<le> ac_mag e) acs" "j < length acs"
  shows "ac_x (zz_layout [0..<length acs] c lns pnd pd sp acs ! j) + ac_width (acs ! j) + ac_bbox_x (acs ! j) \<le> c"
proof -
  have "j \<in> (\<lambda>s. [0..<length acs] ! fst s) ` set (zz_schedule (length acs))"
  proof -
    obtain s where "s \<in> set (zz_schedule (length acs))" "fst s = j"
      using zz_schedule_fst [of "length acs"] assms(4) by (metis imageE lessThan_iff)
    then show ?thesis using assms(4) by (intro image_eqI [of _ _ s]) auto
  qed
  then show ?thesis unfolding zz_layout_def
    using zz_fold_bound [OF assms(1,2) _ assms(4)] assms(3) by (simp add: list_all_length)
qed

theorem zz_layout_right_edge_witness:
  "list_all (\<lambda>e. 0 \<le> ac_mag e) [ex_acc 0, ex_acc 1] \<and>
   ac_x (zz_layout [0..<2] 0 [] (1 / 4) (1 / 5) 1 [ex_acc 0, ex_acc 1] ! 1) + 1 \<le> 0"
proof -
  have m: "list_all (\<lambda>e. 0 \<le> ac_mag e) [ex_acc 0, ex_acc 1]" by (simp add: ex_acc_def)
  have "ac_x (zz_layout [0..<length [ex_acc 0, ex_acc 1]] 0 [] (1 / 4) (1 / 5) 1 [ex_acc 0, ex_acc 1] ! 1) +
        ac_width ([ex_acc 0, ex_acc 1] ! 1) + ac_bbox_x ([ex_acc 0, ex_acc 1] ! 1) \<le> 0"
    by (rule zz_layout_right_edge) (use m in simp_all)
  then show ?thesis using m by (simp add: ex_acc_def upt_rec)
qed

text \<open>
  C39: the zig-zag visits every accidental exactly once (the positions laid out are a
  permutation of \<open>0 .. nAcc - 1\<close>), and each call's \<open>above\<close> and \<open>below\<close>
  neighbours have been placed already, \<open>above\<close> higher and \<open>below\<close> lower.
\<close>

theorem zz_schedule_sound: "mset (map fst (zz_schedule k)) = mset [0..<k] \<and> sched_ok [] (zz_schedule k)"
  by (intro conjI zz_schedule_perm zz_schedule_ok)

text \<open>
  C40: the accidental list built by \<open>layoutChords3\<close> is well formed: each element's
  \<open>next\<close> is the index of the previous accidental of its pitch class (\<open>-1\<close> if
  none), and \<open>columnBottom\<close> holds the last index of each pitch class, provided every
  line is at least \<open>-700\<close>.
\<close>

theorem ac_collect_links:
  assumes "ac_collect sp lines notes = (acs, cb)" "list_all (\<lambda>n. -700 \<le> an_line n) notes"
  shows "ac_links_ok acs cb"
proof -
  have "ac_links_ok [] (replicate 7 (-1))" by (simp add: ac_links_ok_def col_last_def)
  then show ?thesis using ac_collect_fold_ok [of "[]" "replicate 7 (-1)" "rev notes" sp lines] assms
    by (simp add: ac_collect_def)
qed

theorem ac_collect_links_witness:
  "list_all (\<lambda>n. -700 \<le> an_line n) ex_notes \<and>
   ac_links_ok (fst (ac_collect 1 5 ex_notes)) (snd (ac_collect 1 5 ex_notes)) \<and>
   snd (ac_collect 1 5 ex_notes) = [2, -1, -1, 1, -1, -1, -1] \<and> ac_next (fst (ac_collect 1 5 ex_notes) ! 2) = 0"
proof -
  have h: "list_all (\<lambda>n. -700 \<le> an_line n) ex_notes" by (simp add: ex_notes_def)
  have c: "ac_collect 1 5 ex_notes = (fst (ac_collect 1 5 ex_notes), snd (ac_collect 1 5 ex_notes))" by simp
  have "snd (ac_collect 1 5 ex_notes) = [2, -1, -1, 1, -1, -1, -1] \<and> ac_next (fst (ac_collect 1 5 ex_notes) ! 2) = 0"
    by (simp add: ac_collect_def ex_notes_def ac_pc_def mk_acel_def cxx_mod_def numeral_eq_Suc)
  then show ?thesis using ac_collect_links [OF c h] h by simp
qed

end
