(* ===== verification/Layout_Helpers.thy ===== *)
theory Layout_Helpers
  imports Layout_Prelude
begin

text \<open>
  Small helpers of \<open>src/libmscore/layout.cpp\<close>: \<open>Score::searchNote\<close>,
  \<open>Score::updateBarLineSpans\<close>, and \<open>isTopBeam\<close> / \<open>notTopBeam\<close>, which
  \<open>collectSystem\<close> uses to lay out beams above or below the other elements.
\<close>

subsection \<open>\<open>searchNote\<close>\<close>

text \<open>
  The chord-rest segments of the score in order (\<open>firstSegment\<close>, \<open>next1\<close>), each
  with the chord-rest of the track or none (\<open>segment->cr(track)\<close>).  A chord-rest
  is a value of any type with its tick; \<open>ipe\<close> is the last one seen.
\<close>

fun searchNote_loop :: "('c \<Rightarrow> tick) \<Rightarrow> tick \<Rightarrow> 'c option \<Rightarrow> 'c option list \<Rightarrow> 'c option" where
  "searchNote_loop tk t ipe [] = None"
| "searchNote_loop tk t ipe (None # segs) = searchNote_loop tk t ipe segs"
| "searchNote_loop tk t ipe (Some cr # segs) =
     (if tk cr = t then Some cr
      else if t < tk cr then (case ipe of Some p \<Rightarrow> Some p | None \<Rightarrow> Some cr)
      else searchNote_loop tk t (Some cr) segs)"

definition searchNote :: "('c \<Rightarrow> tick) \<Rightarrow> tick \<Rightarrow> 'c option list \<Rightarrow> 'c option" where
  "searchNote tk t segs = searchNote_loop tk t None segs"

subsection \<open>\<open>updateBarLineSpans\<close>\<close>

text \<open>A staff's bar line span: \<open>barLineSpan\<close>, \<open>barLineFrom\<close>, \<open>barLineTo\<close>.\<close>

record bl_staff =
  st_span :: int
  st_from :: int
  st_to :: int

text \<open>
  The loop body for staff \<open>sIdx\<close>.  \<open>bl1_from\<close> and \<open>bl1_to\<close> are
  \<open>BARLINE_SPAN_1LINESTAFF_FROM\<close> and \<open>_TO\<close>, constants of \<open>staff.h\<close>,
  outside \<open>src/\<close>.
\<close>

definition ubs_staff :: "int \<Rightarrow> int \<Rightarrow> int \<Rightarrow> int \<Rightarrow> int \<Rightarrow> int \<Rightarrow> bl_staff \<Rightarrow> bl_staff" where
  "ubs_staff bl1_from bl1_to idx linesOld linesNew sIdx st =
     (let st1 = (if sIdx = idx then
                   (if st_span st = 0 then st\<lparr>st_to := (linesNew - 1) * 2\<rparr>
                    else if linesNew = 1 then st\<lparr>st_from := bl1_from\<rparr>
                    else if linesOld = 1 then st\<lparr>st_from := 0\<rparr>
                    else if linesOld - 1 < st_from st then st\<lparr>st_from := st_from st + (linesNew - linesOld) * 2\<rparr>
                    else st)
                 else st)
      in if sIdx + st_span st1 - 1 = idx then
           (if linesNew = 1 then st1\<lparr>st_to := bl1_to\<rparr>
            else if linesOld = 1 then st1\<lparr>st_to := (linesNew - 1) * 2\<rparr>
            else if linesOld - 1 < st_to st1 then st1\<lparr>st_to := st_to st1 + (linesNew - linesOld) * 2\<rparr>
            else st1)
         else st1)"

definition updateBarLineSpans :: "int \<Rightarrow> int \<Rightarrow> int \<Rightarrow> int \<Rightarrow> int \<Rightarrow> bl_staff list \<Rightarrow> bl_staff list" where
  "updateBarLineSpans bl1_from bl1_to idx linesOld linesNew staves =
     map (\<lambda>(sIdx, st). ubs_staff bl1_from bl1_to idx linesOld linesNew (int sIdx) st) (enumerate 0 staves)"

subsection \<open>\<open>isTopBeam\<close> and \<open>notTopBeam\<close>\<close>

text \<open>
  A beam: \<open>cross()\<close> and the \<open>staffMove()\<close> of its elements in order.  A
  chord-rest's beam is given with whether the chord-rest is its first element
  (\<open>cr->beam()->elements().front() == cr\<close>).
\<close>

record beam_v =
  bv_cross :: bool
  bv_moves :: "int list"

text \<open>The loop computing \<open>movedUp\<close>: every element moved to the staff above.\<close>

fun moved_up :: "int list \<Rightarrow> bool" where
  "moved_up [] = True"
| "moved_up (m # ms) = (if 0 \<le> m then False else moved_up ms)"

definition isTopBeam :: "(beam_v \<times> bool) option \<Rightarrow> bool" where
  "isTopBeam b =
     (case b of
        Some (bv, True) \<Rightarrow> \<not> bv_cross bv \<and> \<not> moved_up (bv_moves bv)
      | _ \<Rightarrow> False)"

definition notTopBeam :: "(beam_v \<times> bool) option \<Rightarrow> bool" where
  "notTopBeam b =
     (case b of
        Some (bv, True) \<Rightarrow> (if bv_cross bv then True else moved_up (bv_moves bv))
      | _ \<Rightarrow> False)"

subsection \<open>Reference specification of \<open>searchNote\<close>\<close>

text \<open>
  What the comment of \<open>searchNote\<close> promises: the note or rest before or at the
  tick; when there is none, the first one after it.
\<close>

definition searchNote_spec :: "('c \<Rightarrow> tick) \<Rightarrow> tick \<Rightarrow> 'c list \<Rightarrow> 'c option" where
  "searchNote_spec tk t crs =
     (case filter (\<lambda>c. tk c \<le> t) crs of
        [] \<Rightarrow> (case crs of [] \<Rightarrow> None | c # _ \<Rightarrow> Some c)
      | bs \<Rightarrow> Some (last bs))"

subsection \<open>Lemmas\<close>

lemma searchNote_loop_spec:
  assumes "sorted_wrt (\<lambda>a b. tk a < tk b) [c. Some c \<leftarrow> segs]"
    and "\<exists>c\<in>set [c. Some c \<leftarrow> segs]. t \<le> tk c"
    and "pred_option (\<lambda>p. tk p < t) ipe"
  shows "searchNote_loop tk t ipe segs =
         (case filter (\<lambda>c. tk c \<le> t) [c. Some c \<leftarrow> segs] of
            [] \<Rightarrow> (case ipe of Some p \<Rightarrow> Some p | None \<Rightarrow> Some (hd [c. Some c \<leftarrow> segs]))
          | bs \<Rightarrow> Some (last bs))"
  using assms
proof (induction tk t ipe segs rule: searchNote_loop.induct)
  case (3 tk t ipe cr segs)
  have later: "\<forall>c\<in>set [c. Some c \<leftarrow> segs]. tk cr < tk c" using "3.prems"(1) by simp
  show ?case
  proof (cases "tk cr = t")
    case True
    then have "filter (\<lambda>c. tk c \<le> t) [c. Some c \<leftarrow> segs] = []" using later by (auto simp: filter_empty_conv)
    then show ?thesis using True by simp
  next
    case ne: False
    show ?thesis
    proof (cases "t < tk cr")
      case True
      then have "filter (\<lambda>c. tk c \<le> t) [c. Some c \<leftarrow> segs] = []" using later by (auto simp: filter_empty_conv)
      then show ?thesis using True ne by (simp split: option.splits)
    next
      case False
      then have lt: "tk cr < t" using ne by simp
      have ih: "searchNote_loop tk t (Some cr) segs =
         (case filter (\<lambda>c. tk c \<le> t) [c. Some c \<leftarrow> segs] of [] \<Rightarrow> Some cr | bs \<Rightarrow> Some (last bs))"
        using "3.IH" [OF ne False] "3.prems" lt by (simp split: option.splits)
      show ?thesis using ih lt ne False by (simp split: list.splits)
    qed
  qed
next
  case (2 tk t ipe segs)
  have e: "[c. Some c \<leftarrow> None # segs] = [c. Some c \<leftarrow> segs]" by simp
  show ?case unfolding e using 2 by simp
qed simp

lemma searchNote_loop_after_last:
  "\<forall>c\<in>set [c. Some c \<leftarrow> segs]. tk c < t \<Longrightarrow> searchNote_loop tk t ipe segs = None"
  by (induction tk t ipe segs rule: searchNote_loop.induct) auto

lemma moved_up_iff: "moved_up ms \<longleftrightarrow> list_all (\<lambda>m. m < 0) ms"
  by (induction ms) auto

lemma ubs_staff_other:
  "sIdx \<noteq> idx \<Longrightarrow> sIdx + st_span st - 1 \<noteq> idx \<Longrightarrow> ubs_staff f1 t1 idx lold lnew sIdx st = st"
  by (simp add: ubs_staff_def)

lemma ubs_staff_span [simp]: "st_span (ubs_staff f1 t1 idx lold lnew sIdx st) = st_span st"
  by (simp add: ubs_staff_def Let_def)

lemma updateBarLineSpans_nth:
  "i < length staves \<Longrightarrow>
   updateBarLineSpans f1 t1 idx lold lnew staves ! i = ubs_staff f1 t1 idx lold lnew (int i) (staves ! i)"
  by (simp add: updateBarLineSpans_def nth_enumerate_eq)

text \<open>
  C36: \<open>searchNote\<close> implements its specification on a track whose chord-rests have
  increasing ticks, when some chord-rest lies at or after the tick.
\<close>

theorem searchNote_correct:
  assumes "sorted_wrt (\<lambda>a b. tk a < tk b) [c. Some c \<leftarrow> segs]"
    and "\<exists>c\<in>set [c. Some c \<leftarrow> segs]. t \<le> tk c"
  shows "searchNote tk t segs = searchNote_spec tk t [c. Some c \<leftarrow> segs]"
proof -
  have ne: "[c. Some c \<leftarrow> segs] \<noteq> []" using assms(2) by (metis empty_iff list.set(1))
  show ?thesis using searchNote_loop_spec [OF assms, of None] ne
    by (cases "[c. Some c \<leftarrow> segs]") (simp_all add: searchNote_def searchNote_spec_def split: list.splits)
qed

theorem searchNote_correct_witness:
  "sorted_wrt (\<lambda>a b. id a < id b) [c. Some c \<leftarrow> [Some 0, None, Some (5 :: tick)]] \<and>
   searchNote id 3 [Some 0, None, Some 5] = Some (0 :: tick)"
  using searchNote_correct [of id "[Some 0, None, Some 5]" 3] by (simp add: searchNote_spec_def)

text \<open>
  Past the last chord-rest of the track \<open>searchNote\<close> returns null, where its
  comment and the specification give the last chord-rest.
\<close>

theorem searchNote_after_last:
  "searchNote id 10 [Some 0, None, Some 5] = None \<and> searchNote_spec id 10 [0, 5] = Some (5 :: tick)"
  using searchNote_loop_after_last [of "[Some 0, None, Some 5]" id 10 None]
  by (simp add: searchNote_def searchNote_spec_def)

text \<open>
  For a chord-rest that starts a beam exactly one of \<open>isTopBeam\<close> and
  \<open>notTopBeam\<close> holds; for any other, neither.
\<close>

theorem notTopBeam_iff: "notTopBeam b \<longleftrightarrow> (\<exists>bv. b = Some (bv, True)) \<and> \<not> isTopBeam b"
  by (auto simp: notTopBeam_def isTopBeam_def split: option.splits bool.splits)

text \<open>
  \<open>updateBarLineSpans\<close> on the staff whose line count changes: a bar line start in the
  bottom half keeps its distance from the bottom line.
\<close>

theorem ubs_bottom_half:
  assumes "1 < st_span st" "lold \<noteq> 1" "lnew \<noteq> 1" "lold - 1 < st_from st"
  shows "(lnew - 1) * 2 - st_from (ubs_staff f1 t1 idx lold lnew idx st) = (lold - 1) * 2 - st_from st"
  using assms by (simp add: ubs_staff_def Let_def algebra_simps)

end
