(* ===== verification/System_Header.thy ===== *)
theory System_Header
  imports Layout_Prelude
begin

text \<open>
  The start and end of a system, \<open>src/libmscore/layout.cpp\<close>:
  \<open>Score::hideEmptyStaves\<close> (which staves of a system are shown),
  \<open>Score::cautionaryWidth\<close> (the width of the courtesy time and key signatures a
  measure would need at the end of a system) and \<open>Score::addSystemHeader\<close> (the key
  signatures, clefs and start bar line of a system's first measure).  Element widths
  and the undo commands the code issues are inputs and outputs of the model: a header
  decision is what the code does with each element (keep, create, change, remove).
\<close>

subsection \<open>\<open>hideEmptyStaves\<close>\<close>

text \<open>\<open>Staff::HideMode\<close>: the code tests \<open>ALWAYS\<close> and \<open>NEVER\<close>; every other mode
  behaves as \<open>AUTO\<close>.\<close>

datatype hide_mode = HM_AUTO | HM_ALWAYS | HM_NEVER

text \<open>
  A staff of the score: \<open>hideWhenEmpty()\<close>, \<open>show()\<close>, \<open>showIfEmpty()\<close>, and its
  part's first staff index and number of staves.
\<close>

record he_staff =
  hs_hide :: hide_mode
  hs_show :: bool
  hs_show_if_empty :: bool
  hs_part_first :: nat
  hs_part_n :: nat

text \<open>
  A measure of the system: \<open>isMeasureRest(staffIdx)\<close> and its chord-rest segments,
  each with the chord-rest of every track (\<open>isRest()\<close>, \<open>staffMove()\<close>).  Boxes
  are \<open>HB_Box\<close>.
\<close>

record he_measure =
  hm_is_rest :: "nat \<Rightarrow> bool"
  hm_crs :: "(bool \<times> int) option list list"

datatype he_mbase = HB_Box | HB_Measure he_measure

definition he_cr :: "(bool \<times> int) option list \<Rightarrow> nat \<Rightarrow> (bool \<times> int) option" where
  "he_cr seg track = (if track < length seg then seg ! track else None)"

text \<open>
  The check \<open>if notes moved into this staff\<close>: some note of a staff of the part,
  moved by \<open>staffMove\<close>, lands on staff \<open>staffIdx\<close>.  The loops only break out
  early once it is found.
\<close>

definition he_moved_into :: "he_mbase list \<Rightarrow> nat \<Rightarrow> nat \<Rightarrow> nat \<Rightarrow> bool" where
  "he_moved_into ms staffIdx idx n =
     list_ex (\<lambda>i. let st = idx + i in
       list_ex (\<lambda>mb. case mb of HB_Box \<Rightarrow> False
                  | HB_Measure m \<Rightarrow>
                      list_ex (\<lambda>seg. list_ex (\<lambda>voice.
                                  case he_cr seg (st * VOICES + voice) of
                                    None \<Rightarrow> False
                                  | Some (isRest, staffMove) \<Rightarrow>
                                      \<not> isRest \<and> int staffIdx = int st + staffMove) [0..<VOICES])
                        (hm_crs m)) ms) [0..<n]"

text \<open>\<open>hideStaff\<close> for a staff whose mode allows hiding.\<close>

definition he_hide_staff :: "he_mbase list \<Rightarrow> nat \<Rightarrow> he_staff \<Rightarrow> bool" where
  "he_hide_staff ms staffIdx staff =
     (let hideStaff = list_all (\<lambda>mb. case mb of HB_Box \<Rightarrow> True | HB_Measure m \<Rightarrow> hm_is_rest m staffIdx) ms
      in if hideStaff \<and> 1 < hs_part_n staff
         then \<not> he_moved_into ms staffIdx (hs_part_first staff) (hs_part_n staff)
         else hideStaff)"

text \<open>
  The style values the function reads: \<open>hideEmptyStaves\<close> and
  \<open>dontHideStavesInFirstSystem\<close>.
\<close>

record he_style =
  hst_hide_empty :: bool
  hst_dont_hide_first :: bool

text \<open>
  The staff loop: the \<open>show\<close> flags of the system's staves so far, and
  \<open>systemIsEmpty\<close>.
\<close>

fun he_loop :: "he_style \<Rightarrow> bool \<Rightarrow> nat \<Rightarrow> he_mbase list \<Rightarrow> nat \<Rightarrow> he_staff list \<Rightarrow> bool list \<times> bool \<Rightarrow> bool list \<times> bool" where
  "he_loop sty isFirst staves ms staffIdx [] acc = acc"
| "he_loop sty isFirst staves ms staffIdx (staff # rest) (shows, systemIsEmpty) =
     (if hs_hide staff = HM_ALWAYS \<or>
         (hst_hide_empty sty \<and> 1 < staves \<and> \<not> (isFirst \<and> hst_dont_hide_first sty) \<and> hs_hide staff \<noteq> HM_NEVER)
      then let show = (if he_hide_staff ms staffIdx staff then False else hs_show staff)
           in he_loop sty isFirst staves ms (Suc staffIdx) rest (shows @ [show], systemIsEmpty \<and> \<not> show)
      else he_loop sty isFirst staves ms (Suc staffIdx) rest (shows @ [True], False))"

text \<open>
  The whole function: the staff loop, then \<open>showIfEmpty\<close> staves when the system is
  empty, then the first staff when it is still empty.
\<close>

definition hideEmptyStaves :: "he_style \<Rightarrow> he_staff list \<Rightarrow> he_mbase list \<Rightarrow> bool \<Rightarrow> bool list" where
  "hideEmptyStaves sty staves ms isFirst =
     (let (shows, systemIsEmpty) = he_loop sty isFirst (length staves) ms 0 staves ([], True);
          shows' = (if systemIsEmpty
                    then map (\<lambda>(staff, sh). if hs_show_if_empty staff \<and> \<not> sh then True else sh) (zip staves shows)
                    else shows);
          systemIsEmpty' = systemIsEmpty \<and> \<not> list_ex (\<lambda>(staff, sh). hs_show_if_empty staff \<and> \<not> sh) (zip staves shows)
      in if systemIsEmpty' \<and> staves \<noteq> [] then shows'[0 := True] else shows')"

subsection \<open>\<open>cautionaryWidth\<close>\<close>

text \<open>
  What \<open>cautionaryWidth(m, hasCourtesy)\<close> reads of a measure \<open>m\<close> and the measure
  after it: whether there is a next measure, \<open>m\<close>'s section break, the time
  signature segment of the next measure at \<open>m\<close>'s end tick (\<open>None\<close>: no segment;
  \<open>Some None\<close>: no element on track 0; else \<open>showCourtesySig()\<close> and its width once
  laid out), \<open>m\<close>'s time signature announcement (its element's width), and per staff
  the next measure's key signature (\<open>showCourtesy()\<close>, \<open>generated()\<close>, width)
  and \<open>m\<close>'s key signature announcement.
\<close>

record cw_measure =
  cw_has_next :: bool
  cw_section_break :: bool
  cw_ts :: "(bool \<times> qreal) option option"
  cw_ts_announce :: "qreal option option"
  cw_ks :: "(bool \<times> bool \<times> qreal) option list option"
  cw_ks_announce :: "qreal option list option"

text \<open>The styles read: \<open>genCourtesyTimesig\<close>, \<open>genCourtesyKeysig\<close>, the two left
  margins, and whether the layout mode is \<open>FLOAT\<close>.\<close>

record cw_style =
  cws_courtesy_ts :: bool
  cws_courtesy_ks :: bool
  cws_ts_margin :: qreal
  cws_ks_margin :: qreal
  cws_float :: bool

definition opt_nth :: "'a option list \<Rightarrow> nat \<Rightarrow> 'a option" where
  "opt_nth xs i = (if i < length xs then xs ! i else None)"

text \<open>The staff loop for courtesy key signatures: \<open>wwMax\<close> and \<open>hasCourtesy\<close>.\<close>

fun cw_ks_loop ::
  "qreal \<Rightarrow> qreal option list option \<Rightarrow> (bool \<times> bool \<times> qreal) option list \<Rightarrow> nat \<Rightarrow> nat \<Rightarrow> qreal \<times> bool \<Rightarrow> qreal \<times> bool" where
  "cw_ks_loop leftMargin ann ks staffIdx 0 acc = acc"
| "cw_ks_loop leftMargin ann ks staffIdx (Suc k) (wwMax, hasCourtesy) =
     cw_ks_loop leftMargin ann ks (Suc staffIdx) k
       (case opt_nth ks staffIdx of
          Some (showCourtesy, generated, width) \<Rightarrow>
            if showCourtesy \<and> \<not> generated then
              (case ann of
                 Some a \<Rightarrow> (case opt_nth a staffIdx of
                              Some aw \<Rightarrow> (max wwMax (aw + leftMargin), True)
                            | None \<Rightarrow> (max wwMax (width + leftMargin), hasCourtesy))
               | None \<Rightarrow> (max wwMax (width + leftMargin), hasCourtesy))
            else (wwMax, hasCourtesy)
        | None \<Rightarrow> (wwMax, hasCourtesy))"

text \<open>\<open>cautionaryWidth\<close> for \<open>nstaves\<close> staves; \<open>None\<close> is \<open>m == 0\<close>.
  Result: the width and \<open>hasCourtesy\<close>.\<close>

definition cautionaryWidth :: "cw_style \<Rightarrow> nat \<Rightarrow> cw_measure option \<Rightarrow> qreal \<times> bool" where
  "cautionaryWidth sty nstaves mo =
     (case mo of
        None \<Rightarrow> (0, False)
      | Some m \<Rightarrow>
          if \<not> cw_has_next m \<or> (cw_section_break m \<and> \<not> cws_float sty) then (0, False)
          else
            let (w, hasCourtesy) =
                  (case cw_ts m of
                     Some (Some (showCourtesySig, tsWidth)) \<Rightarrow>
                       if cws_courtesy_ts sty \<and> showCourtesySig then
                         (case cw_ts_announce m of
                            Some (Some aw) \<Rightarrow> (aw + cws_ts_margin sty, True)
                          | _ \<Rightarrow> (tsWidth + cws_ts_margin sty, False))
                       else (0, False)
                   | _ \<Rightarrow> (0, False));
                (wwMax, hasCourtesy') =
                  (case cw_ks m of
                     Some ks \<Rightarrow>
                       if cws_courtesy_ks sty
                       then cw_ks_loop (cws_ks_margin sty) (cw_ks_announce m) ks 0 nstaves (0, hasCourtesy)
                       else (0, hasCourtesy)
                   | None \<Rightarrow> (0, hasCourtesy))
            in (w + wwMax, hasCourtesy'))"

subsection \<open>\<open>addSystemHeader\<close>\<close>

text \<open>
  Key signature events \<open>'k\<close> (\<open>KeySigEvent\<close>, compared with \<open>==\<close>) and clef type
  lists \<open>'c\<close> are outside \<open>src/\<close>; the function reads whether an event is
  \<open>Key::C\<close>, custom or atonal.
\<close>

record 'k key_iface =
  ki_is_C :: "'k \<Rightarrow> bool"
  ki_custom :: "'k \<Rightarrow> bool"
  ki_atonal :: "'k \<Rightarrow> bool"

text \<open>A segment before the first chord-rest: its kind and its element on the staff's
  first track (a key signature with its event and \<open>generated()\<close>, a clef, or other).\<close>

datatype hdr_seg_kind = HK_ChordRest | HK_StartRepeatBarLine | HK_Other

datatype ('k, 'c) hdr_el = HE_KeySig 'k bool | HE_Clef 'c | HE_Other

text \<open>The search loop of \<open>addSystemHeader\<close>: the last key signature and clef before the
  first chord-rest or start-repeat bar line.\<close>

fun hdr_scan ::
  "(hdr_seg_kind \<times> ('k, 'c) hdr_el option) list \<Rightarrow> ('k \<times> bool) option \<Rightarrow> 'c option \<Rightarrow>
   ('k \<times> bool) option \<times> 'c option" where
  "hdr_scan [] keysig clef = (keysig, clef)"
| "hdr_scan ((kind, el) # segs) keysig clef =
     (if kind = HK_ChordRest \<or> kind = HK_StartRepeatBarLine then (keysig, clef)
      else case el of
             None \<Rightarrow> hdr_scan segs keysig clef
           | Some (HE_KeySig k g) \<Rightarrow> hdr_scan segs (Some (k, g)) clef
           | Some (HE_Clef c) \<Rightarrow> hdr_scan segs keysig (Some c)
           | Some HE_Other \<Rightarrow> hdr_scan segs keysig clef)"

text \<open>
  A staff of the system's first measure: \<open>show()\<close> of its system staff, the key
  signature event and clef type at the tick, its segments, \<open>staffType()->genClef()\<close>,
  and whether the previous measure has a courtesy key signature
  (\<open>pm && pm->hasCourtesyKeySig()\<close>) with an announcement element on the track.
\<close>

record ('k, 'c) hdr_staff =
  hd_visible :: bool
  hd_key :: 'k
  hd_clef :: 'c
  hd_segs :: "(hdr_seg_kind \<times> ('k, 'c) hdr_el option) list"
  hd_gen_clef :: bool
  hd_pm_courtesy :: bool
  hd_pm_announce :: bool

text \<open>What the code does with an element: nothing, keep it, create it, change it (an
  undo command), remove it.\<close>

datatype hdr_op = HO_None | HO_Keep | HO_Create | HO_Change | HO_Remove

record hdr_out =
  ho_keysig :: hdr_op
  ho_clef :: hdr_op
  ho_swap :: bool

text \<open>The loop body for a visible staff; \<open>genKeysig\<close> and \<open>genClef\<close> are the styles
  read.\<close>

definition addSystemHeader_staff ::
  "'k key_iface \<Rightarrow> bool \<Rightarrow> bool \<Rightarrow> bool \<Rightarrow> ('k, 'c) hdr_staff \<Rightarrow> hdr_out" where
  "addSystemHeader_staff ki genKeysig genClef isFirst st =
     (let (keysig, clef) = hdr_scan (hd_segs st) None None;
          keyIdx = hd_key st;
          needKeysig0 = (isFirst \<or> genKeysig);
          announce = (needKeysig0 \<and> ki_is_C ki keyIdx \<and> hd_pm_courtesy st \<and> hd_pm_announce st);
          needKeysig1 = (needKeysig0 \<and> \<not> announce);
          swap = (announce \<and> keysig \<noteq> None);
          keysig' = (case keysig of Some (k, g) \<Rightarrow> Some (k, g \<or> swap) | None \<Rightarrow> None);
          needKeysig2 = (needKeysig1 \<and> (\<not> ki_is_C ki keyIdx \<or> ki_custom ki keyIdx \<or> ki_atonal ki keyIdx));
          needKeysig3 = (needKeysig2 \<or> (case keysig' of Some (_, g) \<Rightarrow> \<not> g | None \<Rightarrow> False));
          ksOp = (if needKeysig3 then
                    (case keysig of None \<Rightarrow> HO_Create | Some (k, _) \<Rightarrow> if k = keyIdx then HO_Keep else HO_Change)
                  else if keysig \<noteq> None then HO_Remove else HO_None);
          showClef = (hd_gen_clef st \<and> (isFirst \<or> genClef));
          clefOp = (if showClef then
                      (case clef of None \<Rightarrow> HO_Create | Some c \<Rightarrow> if hd_clef st = c then HO_Keep else HO_Change)
                    else if clef \<noteq> None then HO_Remove else HO_None)
      in \<lparr>ho_keysig = ksOp, ho_clef = clefOp, ho_swap = swap\<rparr>)"

text \<open>
  \<open>addSystemHeader\<close>: the decision for each staff (\<open>None\<close> for a hidden one,
  skipped by \<open>continue\<close>) and for the start bar line (\<open>startBarlineSingle\<close>,
  \<open>startBarlineMultiple\<close>; whether the measure has one).
\<close>

definition addSystemHeader ::
  "'k key_iface \<Rightarrow> bool \<Rightarrow> bool \<Rightarrow> bool \<Rightarrow> bool \<Rightarrow> bool \<Rightarrow> bool \<Rightarrow> ('k, 'c) hdr_staff list \<Rightarrow>
   hdr_out option list \<times> hdr_op" where
  "addSystemHeader ki genKeysig genClef blSingle blMultiple hasBl isFirst staves =
     (let ops = map (\<lambda>st. if hd_visible st then Some (addSystemHeader_staff ki genKeysig genClef isFirst st) else None)
                  staves;
          n = length staves;
          blOp = (if (1 < n \<and> blMultiple) \<or> (n = 1 \<and> blSingle) then (if hasBl then HO_Keep else HO_Create)
                  else if hasBl then HO_Remove else HO_None)
      in (ops, blOp))"

subsection \<open>The staff loop\<close>

text \<open>
  \<open>he_may_hide\<close>: the condition under which the staff loop considers hiding a staff.
\<close>

definition he_may_hide :: "he_style \<Rightarrow> bool \<Rightarrow> nat \<Rightarrow> he_staff \<Rightarrow> bool" where
  "he_may_hide sty isFirst staves staff \<longleftrightarrow>
     hs_hide staff = HM_ALWAYS \<or>
     (hst_hide_empty sty \<and> 1 < staves \<and> \<not> (isFirst \<and> hst_dont_hide_first sty) \<and> hs_hide staff \<noteq> HM_NEVER)"

text \<open>
  \<open>he_keep\<close>: the staff loop keeps a staff when it may not hide it, or when the staff is
  not empty (nothing moved into it either) and its \<open>show()\<close> is set.
\<close>

definition he_keep :: "he_style \<Rightarrow> bool \<Rightarrow> he_staff list \<Rightarrow> he_mbase list \<Rightarrow> nat \<Rightarrow> bool" where
  "he_keep sty isFirst staves ms j \<longleftrightarrow>
     \<not> he_may_hide sty isFirst (length staves) (staves ! j) \<or>
     (\<not> he_hide_staff ms j (staves ! j) \<and> hs_show (staves ! j))"

subsection \<open>Examples\<close>

text \<open>Two one-staff parts, the hiding style on, a measure of rests and one with notes on
  the second staff.\<close>

definition ex_he_staff :: "nat \<Rightarrow> he_staff" where
  "ex_he_staff i = \<lparr>hs_hide = HM_AUTO, hs_show = True, hs_show_if_empty = False, hs_part_first = i,
     hs_part_n = 1\<rparr>"

definition ex_he_style :: he_style where
  "ex_he_style = \<lparr>hst_hide_empty = True, hst_dont_hide_first = False\<rparr>"

definition ex_he_rests :: he_measure where
  "ex_he_rests = \<lparr>hm_is_rest = (\<lambda>_. True), hm_crs = []\<rparr>"

definition ex_he_notes :: he_measure where
  "ex_he_notes = \<lparr>hm_is_rest = (\<lambda>i. i \<noteq> 1), hm_crs = []\<rparr>"

subsection \<open>Lemmas\<close>

lemma he_loop_shape:
  "\<exists>new. fst (he_loop sty isFirst n ms i staves (shs, e)) = shs @ new \<and> length new = length staves \<and>
     (\<forall>j<length staves. new ! j =
        (if he_may_hide sty isFirst n (staves ! j)
         then \<not> he_hide_staff ms (i + j) (staves ! j) \<and> hs_show (staves ! j) else True)) \<and>
     snd (he_loop sty isFirst n ms i staves (shs, e)) = (e \<and> True \<notin> set new)"
proof (induction staves arbitrary: i shs e)
  case Nil
  then show ?case by simp
next
  case (Cons staff rest)
  define sh where "sh = (if he_may_hide sty isFirst n staff
                         then \<not> he_hide_staff ms i staff \<and> hs_show staff else True)"
  have step: "he_loop sty isFirst n ms i (staff # rest) (shs, e) =
              he_loop sty isFirst n ms (Suc i) rest (shs @ [sh], e \<and> \<not> sh)"
    by (auto simp: sh_def he_may_hide_def Let_def)
  obtain new where new: "fst (he_loop sty isFirst n ms (Suc i) rest (shs @ [sh], e \<and> \<not> sh)) = (shs @ [sh]) @ new"
      "length new = length rest"
      "\<forall>j<length rest. new ! j = (if he_may_hide sty isFirst n (rest ! j)
           then \<not> he_hide_staff ms (Suc i + j) (rest ! j) \<and> hs_show (rest ! j) else True)"
      "snd (he_loop sty isFirst n ms (Suc i) rest (shs @ [sh], e \<and> \<not> sh)) = ((e \<and> \<not> sh) \<and> True \<notin> set new)"
    using Cons.IH [of "Suc i" "shs @ [sh]" "e \<and> \<not> sh"] by blast
  have nth: "\<forall>j<length (staff # rest). (sh # new) ! j =
        (if he_may_hide sty isFirst n ((staff # rest) ! j)
         then \<not> he_hide_staff ms (i + j) ((staff # rest) ! j) \<and> hs_show ((staff # rest) ! j) else True)"
  proof (intro allI impI)
    fix j assume "j < length (staff # rest)"
    then show "(sh # new) ! j = (if he_may_hide sty isFirst n ((staff # rest) ! j)
         then \<not> he_hide_staff ms (i + j) ((staff # rest) ! j) \<and> hs_show ((staff # rest) ! j) else True)"
      using new(3) by (cases j) (simp_all add: sh_def)
  qed
  show ?case using new nth unfolding step
    by (intro exI [of _ "sh # new"]) (auto simp: sh_def)
qed

lemma hideEmptyStaves_cases:
  obtains new where "length new = length staves"
    "\<forall>j<length staves. new ! j =
        (if he_may_hide sty isFirst (length staves) (staves ! j)
         then \<not> he_hide_staff ms j (staves ! j) \<and> hs_show (staves ! j) else True)"
    "hideEmptyStaves sty staves ms isFirst =
       (let shs' = (if True \<notin> set new
                    then map (\<lambda>(staff, sh). if hs_show_if_empty staff \<and> \<not> sh then True else sh) (zip staves new)
                    else new);
            e' = (True \<notin> set new \<and> \<not> list_ex (\<lambda>(staff, sh). hs_show_if_empty staff \<and> \<not> sh) (zip staves new))
        in if e' \<and> staves \<noteq> [] then shs'[0 := True] else shs')"
proof -
  obtain new where new: "fst (he_loop sty isFirst (length staves) ms 0 staves ([], True)) = new"
      "length new = length staves"
      "\<forall>j<length staves. new ! j =
        (if he_may_hide sty isFirst (length staves) (staves ! j)
         then \<not> he_hide_staff ms j (staves ! j) \<and> hs_show (staves ! j) else True)"
      "snd (he_loop sty isFirst (length staves) ms 0 staves ([], True)) = (True \<notin> set new)"
    using he_loop_shape [of sty isFirst "length staves" ms 0 staves "[]" True] by auto
  have "hideEmptyStaves sty staves ms isFirst =
       (let shs' = (if True \<notin> set new
                    then map (\<lambda>(staff, sh). if hs_show_if_empty staff \<and> \<not> sh then True else sh) (zip staves new)
                    else new);
            e' = (True \<notin> set new \<and> \<not> list_ex (\<lambda>(staff, sh). hs_show_if_empty staff \<and> \<not> sh) (zip staves new))
        in if e' \<and> staves \<noteq> [] then shs'[0 := True] else shs')"
    using new(1,4) unfolding hideEmptyStaves_def
    by (cases "he_loop sty isFirst (length staves) ms 0 staves ([], True)") (simp add: Let_def)
  then show ?thesis using that new(2,3) by blast
qed

lemma hideEmptyStaves_length: "length (hideEmptyStaves sty staves ms isFirst) = length staves"
proof (rule hideEmptyStaves_cases [of staves sty isFirst ms])
  fix new
  assume "length new = length staves"
    and "hideEmptyStaves sty staves ms isFirst =
       (let shs' = (if True \<notin> set new
                    then map (\<lambda>(staff, sh). if hs_show_if_empty staff \<and> \<not> sh then True else sh) (zip staves new)
                    else new);
            e' = (True \<notin> set new \<and> \<not> list_ex (\<lambda>(staff, sh). hs_show_if_empty staff \<and> \<not> sh) (zip staves new))
        in if e' \<and> staves \<noteq> [] then shs'[0 := True] else shs')"
  then show ?thesis by (auto simp: Let_def)
qed

lemma hideEmptyStaves_shown:
  assumes "j < length staves"
    and "\<not> he_may_hide sty isFirst (length staves) (staves ! j) \<or>
         (\<not> he_hide_staff ms j (staves ! j) \<and> hs_show (staves ! j))"
  shows "hideEmptyStaves sty staves ms isFirst ! j"
proof (rule hideEmptyStaves_cases [of staves sty isFirst ms])
  fix new
  assume len: "length new = length staves"
    and nth: "\<forall>j<length staves. new ! j =
        (if he_may_hide sty isFirst (length staves) (staves ! j)
         then \<not> he_hide_staff ms j (staves ! j) \<and> hs_show (staves ! j) else True)"
    and eq: "hideEmptyStaves sty staves ms isFirst =
       (let shs' = (if True \<notin> set new
                    then map (\<lambda>(staff, sh). if hs_show_if_empty staff \<and> \<not> sh then True else sh) (zip staves new)
                    else new);
            e' = (True \<notin> set new \<and> \<not> list_ex (\<lambda>(staff, sh). hs_show_if_empty staff \<and> \<not> sh) (zip staves new))
        in if e' \<and> staves \<noteq> [] then shs'[0 := True] else shs')"
  have nj: "new ! j" using nth assms by auto
  then have "True \<in> set new" using len assms(1) by (metis nth_mem)
  then show ?thesis using eq nj by (simp add: Let_def)
qed

lemma he_hide_staff_notes:
  assumes "HB_Measure m \<in> set ms" "\<not> hm_is_rest m j"
  shows "\<not> he_hide_staff ms j staff"
proof -
  have "\<not> list_all (\<lambda>mb. case mb of HB_Box \<Rightarrow> True | HB_Measure m \<Rightarrow> hm_is_rest m j) ms"
    unfolding list_all_iff using assms by (intro notI) (drule bspec, assumption, simp)
  then show ?thesis by (simp add: he_hide_staff_def Let_def)
qed

lemma cw_ks_loop_mono:
  "cw_ks_loop lm ann ks i k (w, h) = (w', h') \<Longrightarrow> w \<le> w' \<and> (h' \<longrightarrow> h \<or> (\<exists>a j. ann = Some a \<and> i \<le> j \<and> j < i + k \<and> opt_nth a j \<noteq> None))"
proof (induction k arbitrary: i w h)
  case 0
  then show ?case by simp
next
  case (Suc k)
  obtain w1 h1 where st: "(case opt_nth ks i of
          Some (showCourtesy, generated, width) \<Rightarrow>
            if showCourtesy \<and> \<not> generated then
              (case ann of
                 Some a \<Rightarrow> (case opt_nth a i of
                              Some aw \<Rightarrow> (max w (aw + lm), True)
                            | None \<Rightarrow> (max w (width + lm), h))
               | None \<Rightarrow> (max w (width + lm), h))
            else (w, h)
        | None \<Rightarrow> (w, h)) = (w1, h1)" by fastforce
  have rec: "cw_ks_loop lm ann ks (Suc i) k (w1, h1) = (w', h')" using Suc.prems st by simp
  have s1: "w \<le> w1 \<and> (h1 \<longrightarrow> h \<or> (\<exists>a. ann = Some a \<and> opt_nth a i \<noteq> None))"
    using st by (auto split: option.splits if_splits)
  have "w1 \<le> w' \<and> (h' \<longrightarrow> h1 \<or> (\<exists>a j. ann = Some a \<and> Suc i \<le> j \<and> j < Suc i + k \<and> opt_nth a j \<noteq> None))"
    using Suc.IH [OF rec] .
  then show ?case using s1 by (auto intro: order_trans)
qed

text \<open>
  C12: what \<open>hideEmptyStaves\<close> shows: a staff the staff loop keeps; and when the loop
  keeps none, every \<open>showIfEmpty\<close> staff, and the first staff only when there is no
  \<open>showIfEmpty\<close> staff.
\<close>

theorem hideEmptyStaves_spec:
  assumes "j < length staves"
  shows "hideEmptyStaves sty staves ms isFirst ! j \<longleftrightarrow>
    he_keep sty isFirst staves ms j \<or>
    ((\<forall>i<length staves. \<not> he_keep sty isFirst staves ms i) \<and>
     (hs_show_if_empty (staves ! j) \<or> (j = 0 \<and> (\<forall>i<length staves. \<not> hs_show_if_empty (staves ! i)))))"
proof (rule hideEmptyStaves_cases [of staves sty isFirst ms])
  fix new
  assume len: "length new = length staves"
    and nth: "\<forall>j<length staves. new ! j =
        (if he_may_hide sty isFirst (length staves) (staves ! j)
         then \<not> he_hide_staff ms j (staves ! j) \<and> hs_show (staves ! j) else True)"
    and eq: "hideEmptyStaves sty staves ms isFirst =
       (let shs' = (if True \<notin> set new
                    then map (\<lambda>(staff, sh). if hs_show_if_empty staff \<and> \<not> sh then True else sh) (zip staves new)
                    else new);
            e' = (True \<notin> set new \<and> \<not> list_ex (\<lambda>(staff, sh). hs_show_if_empty staff \<and> \<not> sh) (zip staves new))
        in if e' \<and> staves \<noteq> [] then shs'[0 := True] else shs')"
  have keep: "\<And>i. i < length staves \<Longrightarrow> new ! i = he_keep sty isFirst staves ms i"
    using nth by (simp add: he_keep_def)
  have none: "(True \<notin> set new) = (\<forall>i<length staves. \<not> he_keep sty isFirst staves ms i)"
    using len keep by (auto simp: in_set_conv_nth)
  show ?thesis
  proof (cases "True \<in> set new")
    case True
    then show ?thesis using eq none keep assms by (auto simp: Let_def)
  next
    case False
    then have nf: "\<And>i. i < length staves \<Longrightarrow> \<not> new ! i" using len by (metis nth_mem)
    have m: "map (\<lambda>(staff, sh). if hs_show_if_empty staff \<and> \<not> sh then True else sh) (zip staves new)
        = map hs_show_if_empty staves"
      using len nf by (auto intro: nth_equalityI)
    have ex: "list_ex (\<lambda>(staff, sh). hs_show_if_empty staff \<and> \<not> sh) (zip staves new)
        = (\<exists>i<length staves. hs_show_if_empty (staves ! i))"
      using len nf by (auto simp: list_ex_iff set_zip)
    have nk: "\<not> he_keep sty isFirst staves ms j" using keep nf assms by simp
    show ?thesis
      using eq False m ex nk none assms by (cases j) (auto simp: Let_def nth_list_update)
  qed
qed

theorem hideEmptyStaves_spec_witness:
  "hideEmptyStaves ex_he_style [ex_he_staff 0, ex_he_staff 1] [HB_Measure ex_he_rests] False ! 0 \<and>
   \<not> hideEmptyStaves ex_he_style [ex_he_staff 0, ex_he_staff 1] [HB_Measure ex_he_rests] False ! 1"
proof -
  have all2: "(\<forall>i<length [a, b]. P i) \<longleftrightarrow> P 0 \<and> P 1" for a b :: he_staff and P
    by (auto simp: less_Suc_eq)
  have k: "\<not> he_keep ex_he_style False [ex_he_staff 0, ex_he_staff 1] [HB_Measure ex_he_rests] 0"
    "\<not> he_keep ex_he_style False [ex_he_staff 0, ex_he_staff 1] [HB_Measure ex_he_rests] 1"
    by (simp_all add: he_keep_def he_may_hide_def ex_he_style_def ex_he_staff_def ex_he_rests_def he_hide_staff_def)
  have s: "\<not> hs_show_if_empty ([ex_he_staff 0, ex_he_staff 1] ! 0)" "\<not> hs_show_if_empty ([ex_he_staff 0, ex_he_staff 1] ! 1)"
    by (simp_all add: ex_he_staff_def)
  show ?thesis
    using hideEmptyStaves_spec [of 0 "[ex_he_staff 0, ex_he_staff 1]" ex_he_style "[HB_Measure ex_he_rests]" False]
          hideEmptyStaves_spec [of 1 "[ex_he_staff 0, ex_he_staff 1]" ex_he_style "[HB_Measure ex_he_rests]" False] k s
    unfolding all2
    by simp
qed

text \<open>
  A shown staff with notes in some measure of the system is never hidden.
\<close>

theorem hideEmptyStaves_keeps_notes:
  assumes "j < length staves" "hs_show (staves ! j)" "HB_Measure m \<in> set ms" "\<not> hm_is_rest m j"
  shows "hideEmptyStaves sty staves ms isFirst ! j"
  using hideEmptyStaves_shown [OF assms(1)] he_hide_staff_notes [OF assms(3,4)] assms(2) by blast

theorem hideEmptyStaves_keeps_notes_witness:
  "1 < length [ex_he_staff 0, ex_he_staff 1] \<and> hs_show ([ex_he_staff 0, ex_he_staff 1] ! 1) \<and>
   HB_Measure ex_he_notes \<in> set [HB_Measure ex_he_rests, HB_Measure ex_he_notes] \<and> \<not> hm_is_rest ex_he_notes 1 \<and>
   hideEmptyStaves ex_he_style [ex_he_staff 0, ex_he_staff 1] [HB_Measure ex_he_rests, HB_Measure ex_he_notes] False ! 1"
proof -
  have h: "1 < length [ex_he_staff 0, ex_he_staff 1]" "hs_show ([ex_he_staff 0, ex_he_staff 1] ! 1)"
    "HB_Measure ex_he_notes \<in> set [HB_Measure ex_he_rests, HB_Measure ex_he_notes]" "\<not> hm_is_rest ex_he_notes 1"
    by (simp_all add: ex_he_staff_def ex_he_notes_def)
  show ?thesis using h hideEmptyStaves_keeps_notes [OF h] by blast
qed

text \<open>A staff whose mode is \<open>NEVER\<close> is always shown.\<close>

theorem hideEmptyStaves_never:
  assumes "j < length staves" "hs_hide (staves ! j) = HM_NEVER"
  shows "hideEmptyStaves sty staves ms isFirst ! j"
  using hideEmptyStaves_shown [OF assms(1)] assms(2) by (simp add: he_may_hide_def)

text \<open>
  \<open>hasCourtesy\<close> is only set when courtesy elements are already present, as the comment
  of \<open>cautionaryWidth\<close> says: an announcement of the time signature, or of a key
  signature on one of the staves.
\<close>

theorem cautionaryWidth_courtesy_present:
  assumes "cautionaryWidth sty n (Some m) = (w, True)"
  shows "(\<exists>aw. cw_ts_announce m = Some (Some aw)) \<or>
         (\<exists>a j. cw_ks_announce m = Some a \<and> j < n \<and> opt_nth a j \<noteq> None)"
proof -
  have nx: "cw_has_next m" "\<not> (cw_section_break m \<and> \<not> cws_float sty)"
    using assms by (auto simp: cautionaryWidth_def split: if_splits)
  obtain w0 h0 where ts: "(case cw_ts m of
                     Some (Some (showCourtesySig, tsWidth)) \<Rightarrow>
                       if cws_courtesy_ts sty \<and> showCourtesySig then
                         (case cw_ts_announce m of
                            Some (Some aw) \<Rightarrow> (aw + cws_ts_margin sty, True)
                          | _ \<Rightarrow> (tsWidth + cws_ts_margin sty, False))
                       else (0, False)
                   | _ \<Rightarrow> (0, False)) = (w0, h0)" by fastforce
  have h0: "h0 \<Longrightarrow> \<exists>aw. cw_ts_announce m = Some (Some aw)"
    using ts by (auto split: option.splits if_splits)
  obtain w1 h1 where ks: "(case cw_ks m of
                     Some ks \<Rightarrow>
                       if cws_courtesy_ks sty
                       then cw_ks_loop (cws_ks_margin sty) (cw_ks_announce m) ks 0 n (0, h0)
                       else (0, h0)
                   | None \<Rightarrow> (0, h0)) = (w1, h1)" by fastforce
  have "h1" using assms nx ts ks by (simp add: cautionaryWidth_def)
  then have "h0 \<or> (\<exists>a j. cw_ks_announce m = Some a \<and> j < n \<and> opt_nth a j \<noteq> None)"
    using ks cw_ks_loop_mono [of "cws_ks_margin sty" "cw_ks_announce m" _ 0 n 0 h0 w1 h1]
    by (auto split: option.splits if_splits)
  then show ?thesis using h0 by blast
qed

text \<open>
  \<open>addSystemHeader\<close> keeps a user-placed key signature (\<open>dont remove user modified
  keysigs\<close>) except when a courtesy key signature of the previous system takes its role
  (the generated flags are switched and the key signature is removed).
\<close>

theorem addSystemHeader_user_keysig:
  assumes "hdr_scan (hd_segs st) None None = (Some (k, False), c)"
  shows "ho_keysig (addSystemHeader_staff ki gk gc isFirst st) \<noteq> HO_Remove \<or> ho_swap (addSystemHeader_staff ki gk gc isFirst st)"
  using assms by (auto simp: addSystemHeader_staff_def Let_def)

text \<open>In the first system every staff in a key other than C gets a key signature, and
  every staff whose type shows clefs gets a clef.\<close>

theorem addSystemHeader_first_key:
  assumes "isFirst" "\<not> ki_is_C ki (hd_key st)"
  shows "ho_keysig (addSystemHeader_staff ki gk gc isFirst st) \<in> {HO_Keep, HO_Create, HO_Change}"
  using assms by (auto simp: addSystemHeader_staff_def Let_def split: prod.splits option.splits)

theorem addSystemHeader_first_clef:
  assumes "isFirst" "hd_gen_clef st"
  shows "ho_clef (addSystemHeader_staff ki gk gc isFirst st) \<in> {HO_Keep, HO_Create, HO_Change}"
  using assms by (auto simp: addSystemHeader_staff_def Let_def split: prod.splits option.splits)

end
