(* ===== verification/Min_Width.thy ===== *)
theory Min_Width
  imports Layout_Prelude
begin

text \<open>
  \<open>Score::computeMinWidth\<close> of \<open>src/libmscore/layout.cpp\<close>: the x position and
  width of every segment of a measure, from the first segment \<open>s\<close> on, and the
  measure's minimum width.  A segment is a value of type \<open>'s\<close>; what the code asks of
  segments and their shapes (\<open>minLeft()\<close>, \<open>minLeft(ls)\<close> against the left margin
  or bar line shape \<open>ls\<close>, \<open>minHorizontalDistance\<close>, \<open>minRight()\<close>, the segment
  type, \<open>extraLeadingSpace()\<close>) is an interface record, since shapes are outside
  \<open>src/\<close>.  The segments' \<open>x\<close> and \<open>width\<close>, which the code writes, are two
  lists indexed by the segment's position in the measure.
\<close>

datatype mw_kind = MK_ChordRest | MK_Clef | MK_KeySig | MK_TimeSig | MK_EndBarLine | MK_Other

text \<open>The shape \<open>ls\<close>: left empty when the first segment is a chord-rest, else the
  left margin (first measure of a system) or a simulated bar line.\<close>

datatype ls_kind = LS_Empty | LS_Margin | LS_BarLine

record 's mw_iface =
  mw_kind :: "'s \<Rightarrow> mw_kind"
  mw_min_left :: "'s \<Rightarrow> qreal"
  mw_min_left_ls :: "ls_kind \<Rightarrow> 's \<Rightarrow> qreal"
  mw_min_hd :: "'s \<Rightarrow> 's \<Rightarrow> bool \<Rightarrow> qreal"
  mw_min_right :: "'s \<Rightarrow> qreal"
  mw_extra :: "'s \<Rightarrow> qreal"

text \<open>The styles read: \<open>barNoteDistance\<close>, \<open>clefLeftMargin\<close>,
  \<open>keysigLeftMargin\<close>, \<open>timesigLeftMargin\<close>, and the spatium.\<close>

record mw_style =
  mws_bar_note :: qreal
  mws_clef_left :: qreal
  mws_keysig_left :: qreal
  mws_timesig_left :: qreal
  mws_spatium :: qreal

abbreviation mw_cr :: "'s mw_iface \<Rightarrow> 's \<Rightarrow> bool" where
  "mw_cr mi seg \<equiv> mw_kind mi seg = MK_ChordRest"

text \<open>The start position of the first segment, before the segment loop.\<close>

definition mw_ls :: "'s mw_iface \<Rightarrow> 's \<Rightarrow> bool \<Rightarrow> ls_kind" where
  "mw_ls mi s isFirst = (if mw_cr mi s then LS_Empty else if isFirst then LS_Margin else LS_BarLine)"

definition mw_start :: "'s mw_iface \<Rightarrow> mw_style \<Rightarrow> 's \<Rightarrow> bool \<Rightarrow> qreal" where
  "mw_start mi sty s isFirst =
     (let x = (if mw_cr mi s then mw_min_left mi s + mws_bar_note sty
               else let x0 = mw_min_left_ls mi (mw_ls mi s isFirst) s
                    in if mw_kind mi s = MK_Clef then x0 + mws_clef_left sty
                       else if mw_kind mi s = MK_KeySig then max x0 (mws_keysig_left sty)
                       else if mw_kind mi s = MK_TimeSig then max x0 (mws_timesig_left sty)
                       else x0)
      in x + mw_extra mi s * mws_spatium sty)"

text \<open>
  The look-back loop for segment \<open>ss\<close> (index \<open>i\<close>, at \<open>xi\<close>) and the next one
  \<open>ns\<close>, with the distance \<open>w\<close> found so far: \<open>ps\<close> walks back from \<open>ss\<close>
  to the first segment, \<open>n\<close> counts \<open>ss\<close> and the chord-rest segments passed.  The
  result is the first overlap, as \<open>(ps, n, ww)\<close>, or none.
\<close>

fun mw_lookback ::
  "'s mw_iface \<Rightarrow> ls_kind \<Rightarrow> 's list \<Rightarrow> qreal list \<Rightarrow> 's \<Rightarrow> qreal \<Rightarrow> qreal \<Rightarrow> nat \<Rightarrow> nat \<Rightarrow>
   (nat \<times> nat \<times> qreal) option" where
  "mw_lookback mi ls segs xs ns xi w 0 n =
     (let ww = mw_min_left_ls mi ls ns - xi in if w < ww then Some (0, n, ww) else None)"
| "mw_lookback mi ls segs xs ns xi w (Suc p) n =
     (let n' = (if mw_cr mi (segs ! p) then n + 1 else n);
          ww = mw_min_hd mi (segs ! p) ns False - (xi - xs ! p)
      in if w < ww then Some (p, n', ww)
         else if p = 0 then None
         else mw_lookback mi ls segs xs ns xi w p n')"

text \<open>
  Distributing the extra space \<open>d\<close> over the segments from \<open>ps\<close> up to \<open>ss\<close>:
  chord-rest segments grow by \<open>d\<close>, and each following segment is placed after its
  predecessor.  State: positions, widths, \<open>xx\<close>.
\<close>

fun mw_dist ::
  "'s mw_iface \<Rightarrow> 's list \<Rightarrow> qreal \<Rightarrow> nat \<Rightarrow> nat \<Rightarrow> qreal list \<times> qreal list \<times> qreal \<Rightarrow> qreal list \<times> qreal list \<times> qreal" where
  "mw_dist mi segs d k 0 st = st"
| "mw_dist mi segs d k (Suc m) (xs, ws, xx) =
     (let ww = (if mw_cr mi (segs ! k) then ws ! k + d else ws ! k);
          ws' = (if mw_cr mi (segs ! k) then ws[k := ww] else ws);
          xx' = xx + ww
      in mw_dist mi segs d (Suc k) m (xs[Suc k := xx'], ws', xx'))"

text \<open>
  One iteration of the segment loop for \<open>ss\<close> at index \<open>i\<close>: state \<open>x\<close>, the
  positions, the widths and \<open>isSystemHeader\<close>.
\<close>

definition mw_step ::
  "'s mw_iface \<Rightarrow> ls_kind \<Rightarrow> 's list \<Rightarrow> nat \<Rightarrow> qreal \<times> qreal list \<times> qreal list \<times> bool \<Rightarrow>
   qreal \<times> qreal list \<times> qreal list \<times> bool" where
  "mw_step mi ls segs i st =
     (let (x, xs, ws, isSystemHeader) = st;
          xs1 = xs[i := x];
          ss = segs ! i
      in if Suc i < length segs then
           let ns = segs ! Suc i;
               (w, hdr) = (if isSystemHeader \<and> mw_cr mi ns then (mw_min_hd mi ss ns True, False)
                           else (mw_min_hd mi ss ns False, isSystemHeader))
           in case mw_lookback mi ls segs xs1 ns x w i 1 of
                None \<Rightarrow> (x + w, xs1, ws[i := w], hdr)
              | Some (ps, n, ww) \<Rightarrow>
                  let d = (ww - w) / of_nat n;
                      (xs2, ws2, xx) = mw_dist mi segs d ps (i - ps) (xs1, ws, xs1 ! ps)
                  in (xx + (w + d), xs2, ws2[i := w + d], hdr)
         else
           let w = (if mw_kind mi ss = MK_EndBarLine then 0 else mw_min_right mi ss)
           in (x + w, xs1, ws[i := w], isSystemHeader))"

text \<open>\<open>computeMinWidth(s, isFirstMeasureInSystem)\<close> on the segments of a measure: the
  returned width, and the segments' positions and widths.\<close>

definition computeMinWidth ::
  "'s mw_iface \<Rightarrow> mw_style \<Rightarrow> 's list \<Rightarrow> bool \<Rightarrow> qreal \<times> qreal list \<times> qreal list" where
  "computeMinWidth mi sty segs isFirst =
     (case segs of
        [] \<Rightarrow> (0, [], [])
      | s # _ \<Rightarrow>
          let (x, xs, ws, _) = foldl (\<lambda>st i. mw_step mi (mw_ls mi s isFirst) segs i st)
                                 (mw_start mi sty s isFirst, replicate (length segs) 0, replicate (length segs) 0, isFirst)
                                 [0..<length segs]
          in (x, xs, ws))"

subsection \<open>Invariant and example\<close>

text \<open>
  \<open>mw_inv\<close>: before segment \<open>i\<close> is placed, the segments before it abut (each
  starts where the previous one ends), each has at least its minimum distance to the
  next as width, and \<open>x\<close> is the end of segment \<open>i - 1\<close>.
\<close>

definition mw_inv :: "'s mw_iface \<Rightarrow> 's list \<Rightarrow> nat \<Rightarrow> qreal \<Rightarrow> qreal list \<Rightarrow> qreal list \<Rightarrow> bool" where
  "mw_inv mi segs i x xs ws \<longleftrightarrow>
     length xs = length segs \<and> length ws = length segs \<and>
     (\<forall>k. Suc k < i \<longrightarrow> xs ! Suc k = xs ! k + ws ! k) \<and>
     (\<forall>k. k < i \<and> Suc k < length segs \<longrightarrow> (\<exists>b. mw_min_hd mi (segs ! k) (segs ! Suc k) b \<le> ws ! k)) \<and>
     (0 < i \<longrightarrow> x = xs ! (i - 1) + ws ! (i - 1))"

text \<open>
  Four chord-rest segments: consecutive ones need 2, segment 1 needs 5 before segment 3,
  and segment 0 needs 10 before segment 3 (a long element of segment 0 at a height
  where only segment 3 has something).
\<close>

definition ex_mw :: "nat mw_iface" where
  "ex_mw = \<lparr>mw_kind = (\<lambda>_. MK_ChordRest), mw_min_left = (\<lambda>_. 0), mw_min_left_ls = (\<lambda>_ _. 0),
     mw_min_hd = (\<lambda>a b _. if (a, b) = (0, 3) then 10 else if (a, b) = (1, 3) then 5 else 2),
     mw_min_right = (\<lambda>_. 1), mw_extra = (\<lambda>_. 0)\<rparr>"

definition ex_mw_style :: mw_style where
  "ex_mw_style = \<lparr>mws_bar_note = 1, mws_clef_left = 0, mws_keysig_left = 0, mws_timesig_left = 0,
     mws_spatium = 1\<rparr>"

subsection \<open>Lemmas\<close>

lemmas ex_mw_eval = computeMinWidth_def mw_step_def mw_start_def mw_ls_def ex_mw_def ex_mw_style_def upt_rec
  numeral_eq_Suc Let_def

lemma mw_dist_props:
  assumes "mw_dist mi segs d k m (xs, ws, xs ! k) = (xs', ws', xx)" "k + m < length xs" "length ws = length xs" "0 \<le> d"
  shows "length xs' = length xs \<and> length ws' = length ws \<and> xx = xs' ! (k + m) \<and>
         (\<forall>j. j \<le> k \<or> k + m < j \<longrightarrow> xs' ! j = xs ! j) \<and>
         (\<forall>j. j < k \<or> k + m \<le> j \<longrightarrow> ws' ! j = ws ! j) \<and>
         (\<forall>j. ws ! j \<le> ws' ! j) \<and>
         (\<forall>j. k \<le> j \<and> j < k + m \<longrightarrow> xs' ! Suc j = xs' ! j + ws' ! j)"
  using assms
proof (induction m arbitrary: k xs ws)
  case 0
  then show ?case by auto
next
  case (Suc m)
  define ww where "ww = (if mw_cr mi (segs ! k) then ws ! k + d else ws ! k)"
  define ws1 where "ws1 = (if mw_cr mi (segs ! k) then ws[k := ww] else ws)"
  define xs1 where "xs1 = xs[Suc k := xs ! k + ww]"
  have rec: "mw_dist mi segs d (Suc k) m (xs1, ws1, xs1 ! Suc k) = (xs', ws', xx)"
    using Suc.prems(1,2) by (cases "mw_cr mi (segs ! k)") (simp_all add: ww_def ws1_def xs1_def Let_def)
  have len: "Suc k + m < length xs1" "length ws1 = length xs1"
    using Suc.prems(2,3) by (simp_all add: xs1_def ws1_def)
  note ih = Suc.IH [OF rec len Suc.prems(4)]
  have wk: "ws1 ! k = ww" "\<forall>j. j \<noteq> k \<longrightarrow> ws1 ! j = ws ! j" "\<forall>j. ws ! j \<le> ws1 ! j"
    using Suc.prems(2,3,4) by (auto simp: ws1_def ww_def nth_list_update)
  have xk: "xs1 ! k = xs ! k" "xs1 ! Suc k = xs ! k + ww" "\<forall>j. j \<noteq> Suc k \<longrightarrow> xs1 ! j = xs ! j"
    using Suc.prems(2) by (simp_all add: xs1_def)
  show ?case
  proof (intro conjI allI impI)
    show "length xs' = length xs" "length ws' = length ws" "xx = xs' ! (k + Suc m)"
      using ih len Suc.prems(3) by (simp_all add: xs1_def ws1_def)
  next
    fix j assume "j \<le> k \<or> k + Suc m < j"
    then show "xs' ! j = xs ! j" using ih xk by auto
  next
    fix j assume "j < k \<or> k + Suc m \<le> j"
    then show "ws' ! j = ws ! j" using ih wk by auto
  next
    fix j show "ws ! j \<le> ws' ! j" using ih wk by (meson order_trans)
  next
    fix j assume j: "k \<le> j \<and> j < k + Suc m"
    show "xs' ! Suc j = xs' ! j + ws' ! j"
    proof (cases "j = k")
      case True
      have "xs' ! Suc k = xs1 ! Suc k" "xs' ! k = xs1 ! k" "ws' ! k = ws1 ! k" using ih by auto
      then show ?thesis using True xk wk by simp
    next
      case False
      then show ?thesis using ih j by auto
    qed
  qed
qed

lemma mw_lookback_Some:
  "mw_lookback mi ls segs xs ns xi w p n = Some (ps, n', ww) \<Longrightarrow> ps \<le> p \<and> n \<le> n' \<and> w < ww"
proof (induction mi ls segs xs ns xi w p n rule: mw_lookback.induct)
  case (2 mi ls segs xs ns xi w p n)
  define n1 where "n1 = (if mw_cr mi (segs ! p) then n + 1 else n)"
  define ww1 where "ww1 = mw_min_hd mi (segs ! p) ns False - (xi - xs ! p)"
  show ?case
  proof (cases "w < ww1")
    case True
    then show ?thesis using "2.prems" by (auto simp: n1_def ww1_def Let_def)
  next
    case nlt: False
    show ?thesis
    proof (cases "p = 0")
      case True
      then show ?thesis using "2.prems" nlt by (simp add: ww1_def Let_def)
    next
      case False
      have r: "mw_lookback mi ls segs xs ns xi w p n1 = Some (ps, n', ww)"
        using "2.prems" nlt False by (simp add: n1_def ww1_def Let_def)
      have "ps \<le> p \<and> n1 \<le> n' \<and> w < ww" using "2.IH" [OF n1_def ww1_def] nlt False r by blast
      then show ?thesis by (auto simp: n1_def split: if_splits)
    qed
  qed
qed (auto simp: Let_def split: if_splits)

lemma mw_step_inv:
  assumes inv: "mw_inv mi segs i x xs ws" and i: "i < length segs"
    and st: "mw_step mi ls segs i (x, xs, ws, hdr) = (x', xs', ws', hdr')"
  shows "mw_inv mi segs (Suc i) x' xs' ws'"
proof -
  define xs1 where "xs1 = xs[i := x]"
  have L: "length xs = length segs" "length ws = length segs" using inv by (simp_all add: mw_inv_def)
  have ab1: "\<forall>k. Suc k < Suc i \<longrightarrow> xs1 ! Suc k = xs1 ! k + ws ! k"
  proof (intro allI impI)
    fix k assume k: "Suc k < Suc i"
    show "xs1 ! Suc k = xs1 ! k + ws ! k"
    proof (cases "Suc k = i")
      case True
      then show ?thesis using inv L i by (auto simp: mw_inv_def xs1_def)
    next
      case False
      then show ?thesis using inv L i k by (simp add: mw_inv_def xs1_def)
    qed
  qed
  have xi: "xs1 ! i = x" using L i by (simp add: xs1_def)
  show ?thesis
  proof (cases "Suc i < length segs")
    case nxt: True
    obtain w0 hdr0 where wh: "(if hdr \<and> mw_cr mi (segs ! Suc i) then (mw_min_hd mi (segs ! i) (segs ! Suc i) True, False)
                           else (mw_min_hd mi (segs ! i) (segs ! Suc i) False, hdr)) = (w0, hdr0)" by fastforce
    have wmin: "\<exists>b. mw_min_hd mi (segs ! i) (segs ! Suc i) b \<le> w0" using wh by (auto split: if_splits)
    show ?thesis
    proof (cases "mw_lookback mi ls segs xs1 (segs ! Suc i) x w0 i 1")
      case None
      then have e: "x' = x + w0" "xs' = xs1" "ws' = ws[i := w0]"
        using st nxt wh by (simp_all add: mw_step_def xs1_def Let_def)
      show ?thesis unfolding mw_inv_def e
      proof (intro conjI allI impI)
        fix k assume "Suc k < Suc i" then show "xs1 ! Suc k = xs1 ! k + ws[i := w0] ! k" using ab1 by simp
      next
        fix k assume k: "k < Suc i \<and> Suc k < length segs"
        show "\<exists>b. mw_min_hd mi (segs ! k) (segs ! Suc k) b \<le> ws[i := w0] ! k"
        proof (cases "k = i")
          case True then show ?thesis using wmin L i by simp
        next
          case False then show ?thesis using inv k by (simp add: mw_inv_def)
        qed
      qed (use L i xi in \<open>simp_all add: xs1_def\<close>)
    next
      case (Some r)
      obtain ps n ww where r: "r = (ps, n, ww)" by (cases r) auto
      have lb: "ps \<le> i" "1 \<le> n" "w0 < ww" using mw_lookback_Some [of mi ls segs xs1 "segs ! Suc i" x w0 i 1 ps n ww] Some r
        by auto
      define d where "d = (ww - w0) / of_nat n"
      have d: "0 < d" using lb by (simp add: d_def)
      obtain xs2 ws2 xx where dist: "mw_dist mi segs d ps (i - ps) (xs1, ws, xs1 ! ps) = (xs2, ws2, xx)"
        by (cases "mw_dist mi segs d ps (i - ps) (xs1, ws, xs1 ! ps)") auto
      have e: "x' = xx + (w0 + d)" "xs' = xs2" "ws' = ws2[i := w0 + d]"
        using st nxt wh Some r dist by (simp_all add: mw_step_def xs1_def Let_def d_def)
      have P: "length xs2 = length xs1 \<and> length ws2 = length ws \<and> xx = xs2 ! (ps + (i - ps)) \<and>
         (\<forall>j. j \<le> ps \<or> ps + (i - ps) < j \<longrightarrow> xs2 ! j = xs1 ! j) \<and>
         (\<forall>j. j < ps \<or> ps + (i - ps) \<le> j \<longrightarrow> ws2 ! j = ws ! j) \<and>
         (\<forall>j. ws ! j \<le> ws2 ! j) \<and>
         (\<forall>j. ps \<le> j \<and> j < ps + (i - ps) \<longrightarrow> xs2 ! Suc j = xs2 ! j + ws2 ! j)"
        by (rule mw_dist_props [OF dist]) (use L i lb d in \<open>simp_all add: xs1_def\<close>)
      have pi: "ps + (i - ps) = i" using lb by simp
      show ?thesis unfolding mw_inv_def e
      proof (intro conjI allI impI)
        show "length xs2 = length segs" "length (ws2[i := w0 + d]) = length segs"
          using P L by (simp_all add: xs1_def)
      next
        fix k assume k: "Suc k < Suc i"
        show "xs2 ! Suc k = xs2 ! k + ws2[i := w0 + d] ! k"
        proof (cases "ps \<le> k")
          case True then show ?thesis using P k pi by simp
        next
          case False
          then have "xs2 ! Suc k = xs1 ! Suc k" "xs2 ! k = xs1 ! k" "ws2 ! k = ws ! k" using P by auto
          then show ?thesis using ab1 k by simp
        qed
      next
        fix k assume k: "k < Suc i \<and> Suc k < length segs"
        show "\<exists>b. mw_min_hd mi (segs ! k) (segs ! Suc k) b \<le> ws2[i := w0 + d] ! k"
        proof (cases "k = i")
          case True
          obtain b where "mw_min_hd mi (segs ! i) (segs ! Suc i) b \<le> w0" using wmin by blast
          then have "mw_min_hd mi (segs ! i) (segs ! Suc i) b \<le> w0 + d" using d by linarith
          then show ?thesis using True P L i by auto
        next
          case False
          then have "k < i" using k by simp
          then obtain b where "mw_min_hd mi (segs ! k) (segs ! Suc k) b \<le> ws ! k"
            using inv k unfolding mw_inv_def by blast
          then show ?thesis using P False by (metis nth_list_update_neq order_trans)
        qed
      next
        assume "0 < Suc i"
        show "xx + (w0 + d) = xs2 ! (Suc i - 1) + ws2[i := w0 + d] ! (Suc i - 1)"
          using P pi L i by simp
      qed
    qed
  next
    case False
    define w where "w = (if mw_kind mi (segs ! i) = MK_EndBarLine then 0 else mw_min_right mi (segs ! i))"
    have e: "x' = x + w" "xs' = xs1" "ws' = ws[i := w]"
      using st False by (simp_all add: mw_step_def xs1_def Let_def w_def)
    show ?thesis unfolding mw_inv_def e
    proof (intro conjI allI impI)
      fix k assume "Suc k < Suc i" then show "xs1 ! Suc k = xs1 ! k + ws[i := w] ! k" using ab1 by simp
    next
      fix k assume k: "k < Suc i \<and> Suc k < length segs"
      then show "\<exists>b. mw_min_hd mi (segs ! k) (segs ! Suc k) b \<le> ws[i := w] ! k"
        using inv False by (auto simp: mw_inv_def)
    qed (use L i xi in \<open>simp_all add: xs1_def\<close>)
  qed
qed

lemma mw_fold_inv:
  assumes "j \<le> length segs"
    and "foldl (\<lambda>st i. mw_step mi ls segs i st) (x0, replicate (length segs) 0, replicate (length segs) 0, h0) [0..<j] =
         (x, xs, ws, h)"
  shows "mw_inv mi segs j x xs ws"
  using assms
proof (induction j arbitrary: x xs ws h)
  case 0
  then show ?case by (auto simp: mw_inv_def)
next
  case (Suc j)
  obtain x1 xs1 ws1 h1 where f: "foldl (\<lambda>st i. mw_step mi ls segs i st)
      (x0, replicate (length segs) 0, replicate (length segs) 0, h0) [0..<j] = (x1, xs1, ws1, h1)"
    by (cases "foldl (\<lambda>st i. mw_step mi ls segs i st)
      (x0, replicate (length segs) 0, replicate (length segs) 0, h0) [0..<j]") auto
  have "mw_step mi ls segs j (x1, xs1, ws1, h1) = (x, xs, ws, h)" using Suc.prems(2) f by simp
  then show ?case using mw_step_inv [OF Suc.IH [OF _ f]] Suc.prems(1) by simp
qed

text \<open>
  C10: \<open>computeMinWidth\<close> lays the segments of a measure end to end: each segment starts
  where the previous one ends, each is at least as wide as its minimum horizontal
  distance to the next, and the width returned is the end of the last segment.
\<close>

theorem computeMinWidth_spacing:
  assumes "computeMinWidth mi sty segs isFirst = (x, xs, ws)" "segs \<noteq> []"
  shows "x = last xs + last ws \<and>
         (\<forall>k. Suc k < length segs \<longrightarrow>
            xs ! Suc k = xs ! k + ws ! k \<and> (\<exists>b. mw_min_hd mi (segs ! k) (segs ! Suc k) b \<le> ws ! k))"
proof -
  obtain s rest where segs: "segs = s # rest" using assms(2) by (cases segs) auto
  obtain h where f: "foldl (\<lambda>st i. mw_step mi (mw_ls mi s isFirst) segs i st)
      (mw_start mi sty s isFirst, replicate (length segs) 0, replicate (length segs) 0, isFirst) [0..<length segs] =
      (x, xs, ws, h)"
    using assms(1) segs by (auto simp: computeMinWidth_def split: prod.splits)
  have inv: "mw_inv mi segs (length segs) x xs ws" by (rule mw_fold_inv [OF le_refl f])
  then have "xs \<noteq> []" "ws \<noteq> []" using assms(2) by (auto simp: mw_inv_def)
  then have "last xs = xs ! (length segs - 1)" "last ws = ws ! (length segs - 1)"
    using inv by (simp_all add: mw_inv_def last_conv_nth)
  then show ?thesis using inv assms(2) by (simp add: mw_inv_def)
qed

theorem computeMinWidth_spacing_witness:
  "\<exists>x xs ws. computeMinWidth ex_mw ex_mw_style [0, 1, 2, 3] False = (x, xs, ws) \<and>
     x = last xs + last ws \<and> xs ! 1 = xs ! 0 + ws ! 0 \<and> xs ! 3 = xs ! 2 + ws ! 2 \<and>
     (\<exists>b. mw_min_hd ex_mw 2 3 b \<le> ws ! 2)"
proof -
  have e: "computeMinWidth ex_mw ex_mw_style [0, 1, 2, 3] False = (9, [1, 3, 11 / 2, 8], [2, 5 / 2, 5 / 2, 1])"
    by (simp add: ex_mw_eval)
  have ne: "[0, 1, 2, 3 :: nat] \<noteq> []" by simp
  note sp = computeMinWidth_spacing [OF e ne]
  note all = conjunct2 [OF sp]
  have k0: "[1, 3, 11 / 2, 8 :: qreal] ! 1 = [1, 3, 11 / 2, 8] ! 0 + [2, 5 / 2, 5 / 2, 1 :: qreal] ! 0"
    using all [rule_format, of 0] by simp
  have k2: "[1, 3, 11 / 2, 8 :: qreal] ! 3 = [1, 3, 11 / 2, 8] ! 2 + [2, 5 / 2, 5 / 2, 1 :: qreal] ! 2 \<and>
      (\<exists>b. mw_min_hd ex_mw 2 3 b \<le> [2, 5 / 2, 5 / 2, 1 :: qreal] ! 2)"
    using all [rule_format, of 2] by (simp add: numeral_3_eq_3)
  have l: "(9::qreal) = last [1, 3, 11 / 2, 8] + last [2, 5 / 2, 5 / 2, 1 :: qreal]" using conjunct1 [OF sp] .
  show ?thesis
    by (intro exI [of _ 9] exI [of _ "[1, 3, 11 / 2, 8]"] exI [of _ "[2, 5 / 2, 5 / 2, 1]"] conjI e l k0 conjunct1 [OF k2] conjunct2 [OF k2])
qed

text \<open>
  The look-back of \<open>computeMinWidth\<close> stops at the nearest earlier segment that
  overlaps the next one.  Here segment 1 is found first, its overlap is removed, and
  segment 3 ends 7 from segment 0, which needs 10.
\<close>

theorem computeMinWidth_nearest_only:
  "computeMinWidth ex_mw ex_mw_style [0, 1, 2, 3] False = (9, [1, 3, 11 / 2, 8], [2, 5 / 2, 5 / 2, 1]) \<and>
   8 - 1 < mw_min_hd ex_mw 0 3 False"
  by (simp add: ex_mw_eval)

end
