(* ===== verification/Lyrics.thy ===== *)
theory Lyrics
  imports Layout_Prelude
begin

text \<open>
  Vertical alignment of lyrics, \<open>findLyricsMaxY\<close>, \<open>findLyricsMinY\<close>,
  \<open>applyLyricsMax\<close> and \<open>applyLyricsMin\<close> of \<open>src/libmscore/layout.cpp\<close>, for
  one staff.  Lyrics below the staff are moved down together, lyrics above it up
  together, so that every line of lyrics of a measure (or system, or segment) is at one
  height and clears what else is on the staff.  Rectangles are Qt's \<open>QRectF\<close>; the
  staff shapes of segments are values of a type \<open>'sh\<close> with the operations of
  \<open>Shape\<close> the code calls (\<open>add\<close>, \<open>remove\<close>, \<open>minVerticalDistance\<close>),
  which are outside \<open>src/\<close>.
\<close>

record rect =
  r_x :: qreal
  r_y :: qreal
  r_w :: qreal
  r_h :: qreal

definition r_translated :: "rect \<Rightarrow> qreal \<times> qreal \<Rightarrow> rect" where
  "r_translated r p = r\<lparr>r_x := r_x r + fst p, r_y := r_y r + snd p\<rparr>"

text \<open>\<open>QRectF::adjusted(0, dy1, 0, dy2)\<close>: the top moves by \<open>dy1\<close>, the bottom by
  \<open>dy2\<close>.\<close>

definition r_adjusted_y :: "rect \<Rightarrow> qreal \<Rightarrow> qreal \<Rightarrow> rect" where
  "r_adjusted_y r dy1 dy2 = r\<lparr>r_y := r_y r + dy1, r_h := r_h r - dy1 + dy2\<rparr>"

record 'sh shape_iface =
  sh_empty :: 'sh
  sh_add :: "'sh \<Rightarrow> rect \<Rightarrow> 'sh"
  sh_add_shape :: "'sh \<Rightarrow> 'sh \<Rightarrow> 'sh"
  sh_remove :: "'sh \<Rightarrow> 'sh \<Rightarrow> 'sh"
  sh_min_vdist :: "'sh \<Rightarrow> 'sh \<Rightarrow> qreal"

text \<open>
  A lyric: \<open>autoplace()\<close>, whether its placement is \<open>BELOW\<close> (else \<open>ABOVE\<close>),
  its bounding box, its position and its user offset; \<open>pos()\<close> is the position plus
  the user offset.
\<close>

record lyric =
  ly_autoplace :: bool
  ly_below :: bool
  ly_bbox :: rect
  ly_ipos :: "qreal \<times> qreal"
  ly_user_off :: "qreal \<times> qreal"

definition ly_pos :: "lyric \<Rightarrow> qreal \<times> qreal" where
  "ly_pos l = (fst (ly_ipos l) + fst (ly_user_off l), snd (ly_ipos l) + snd (ly_user_off l))"

definition ly_set_user_y :: "qreal \<Rightarrow> lyric \<Rightarrow> lyric" where
  "ly_set_user_y y l = l\<lparr>ly_user_off := (fst (ly_user_off l), y)\<rparr>"

text \<open>
  A segment, for the staff in question: whether it is a chord-rest segment, the lyrics of
  its chord-rest on the staff's first track (\<open>None\<close>: no chord-rest), and its staff
  shape.
\<close>

record 'sh lseg =
  lg_cr :: bool
  lg_lyrics :: "lyric list option"
  lg_shape :: 'sh

definition ly_sel :: "bool \<Rightarrow> lyric \<Rightarrow> bool" where
  "ly_sel below l \<longleftrightarrow> ly_autoplace l \<and> ly_below l = below"

text \<open>
  The shape of the selected lyrics of a chord-rest (the first loop of
  \<open>findLyricsMaxY\<close> and \<open>findLyricsMinY\<close>, after their user offset is reset).
\<close>

definition ly_shape :: "'sh shape_iface \<Rightarrow> bool \<Rightarrow> lyric list \<Rightarrow> 'sh" where
  "ly_shape si below ls =
     foldl (\<lambda>sh l. if ly_sel below l then sh_add si sh (r_translated (ly_bbox l) (ly_pos l)) else sh)
       (sh_empty si) ls"

text \<open>
  \<open>findLyricsMaxY(s, staffIdx)\<close> (\<open>below = True\<close>) and \<open>findLyricsMinY\<close>
  (\<open>below = False\<close>): the value found and the segment after the user offsets are
  reset and the lyrics removed from the staff shape.  The loop over the lyrics computes
  the same distance for each selected lyric.
\<close>

definition findLyrics_seg :: "'sh shape_iface \<Rightarrow> qreal \<Rightarrow> bool \<Rightarrow> 'sh lseg \<Rightarrow> qreal \<times> 'sh lseg" where
  "findLyrics_seg si minTop below s =
     (if \<not> lg_cr s then (0, s)
      else case lg_lyrics s of
        None \<Rightarrow> (0, s)
      | Some ls \<Rightarrow>
          let ls' = map (\<lambda>l. if ly_sel below l then ly_set_user_y 0 l else l) ls;
              sh = ly_shape si below ls';
              shape' = sh_remove si (lg_shape s) sh;
              y = (if below then sh_min_vdist si shape' sh else sh_min_vdist si sh shape');
              found = list_ex (ly_sel below) ls';
              v = (if found \<and> - minTop < y then (if below then y + minTop else - y - minTop) else 0)
          in ((if below then max 0 v else min 0 v), s\<lparr>lg_lyrics := Some ls', lg_shape := shape'\<rparr>))"

text \<open>
  \<open>applyLyricsMax(s, staffIdx, yMax)\<close> and \<open>applyLyricsMin\<close>: the selected lyrics
  get the user offset \<open>y\<close>, and their boxes, extended by
  \<open>lyricsMinBottomDistance\<close> below (or above), are added to the staff shape.
\<close>

definition applyLyrics_seg :: "'sh shape_iface \<Rightarrow> qreal \<Rightarrow> bool \<Rightarrow> qreal \<Rightarrow> 'sh lseg \<Rightarrow> 'sh lseg" where
  "applyLyrics_seg si minBottom below y s =
     (if \<not> lg_cr s then s
      else case lg_lyrics s of
        None \<Rightarrow> s
      | Some ls \<Rightarrow>
          let ls' = map (\<lambda>l. if ly_sel below l then ly_set_user_y y l else l) ls;
              sh = foldl (\<lambda>sh l. if ly_sel below l then
                                   sh_add si sh (if below then r_adjusted_y (r_translated (ly_bbox l) (ly_pos l)) 0 minBottom
                                                 else r_adjusted_y (r_translated (ly_bbox l) (ly_pos l)) (- minBottom) 0)
                                 else sh) (sh_empty si) ls'
          in s\<lparr>lg_lyrics := Some ls', lg_shape := sh_add_shape si (lg_shape s) sh\<rparr>)"

text \<open>The measure versions: over all segments of the measure.\<close>

fun findLyrics_m :: "'sh shape_iface \<Rightarrow> qreal \<Rightarrow> bool \<Rightarrow> 'sh lseg list \<Rightarrow> qreal \<times> 'sh lseg list" where
  "findLyrics_m si minTop below [] = (0, [])"
| "findLyrics_m si minTop below (s # ss) =
     (let (y1, s') = findLyrics_seg si minTop below s;
          (y2, ss') = findLyrics_m si minTop below ss
      in ((if below then max y1 y2 else min y1 y2), s' # ss'))"

definition applyLyrics_m :: "'sh shape_iface \<Rightarrow> qreal \<Rightarrow> bool \<Rightarrow> qreal \<Rightarrow> 'sh lseg list \<Rightarrow> 'sh lseg list" where
  "applyLyrics_m si minBottom below y ss = map (applyLyrics_seg si minBottom below y) ss"

text \<open>
  The per-measure alignment of \<open>collectSystem\<close> (\<open>LyricsDistributionMode\<close> of one
  measure): find, then apply, for the lyrics below the staff.
\<close>

definition alignLyrics_measure :: "'sh shape_iface \<Rightarrow> qreal \<Rightarrow> qreal \<Rightarrow> 'sh lseg list \<Rightarrow> qreal \<times> 'sh lseg list" where
  "alignLyrics_measure si minTop minBottom ss =
     (let (yMax, ss') = findLyrics_m si minTop True ss in (yMax, applyLyrics_m si minBottom True yMax ss'))"

text \<open>\<open>VerticalAlignRange\<close>, the style \<open>autoplaceVerticalAlignRange\<close>.\<close>

datatype valign = VA_MEASURE | VA_SYSTEM | VA_SEGMENT

text \<open>
  The first loop of the \<open>SYSTEM\<close> case: over the measures of the system (\<open>None\<close>
  for a box), \<open>findLyricsMaxY\<close> then \<open>findLyricsMinY\<close> on each, with the
  maximum and minimum so far.
\<close>

fun ly_sys_find ::
  "'sh shape_iface \<Rightarrow> qreal \<Rightarrow> qreal \<Rightarrow> qreal \<Rightarrow> 'sh lseg list option list \<Rightarrow> qreal \<times> qreal \<times> 'sh lseg list option list" where
  "ly_sys_find si minTop yMax yMin [] = (yMax, yMin, [])"
| "ly_sys_find si minTop yMax yMin (None # ms) =
     (let (a, b, ms') = ly_sys_find si minTop yMax yMin ms in (a, b, None # ms'))"
| "ly_sys_find si minTop yMax yMin (Some ss # ms) =
     (let (y1, ss1) = findLyrics_m si minTop True ss;
          (y2, ss2) = findLyrics_m si minTop False ss1;
          (a, b, ms') = ly_sys_find si minTop (max yMax y1) (min yMin y2) ms
      in (a, b, Some ss2 # ms'))"

text \<open>
  The vertical alignment of lyrics in \<open>collectSystem\<close>, for one staff, on the measures
  of the system.
\<close>

definition alignLyrics :: "'sh shape_iface \<Rightarrow> qreal \<Rightarrow> qreal \<Rightarrow> valign \<Rightarrow> 'sh lseg list option list \<Rightarrow> 'sh lseg list option list" where
  "alignLyrics si minTop minBottom ar ms =
     (case ar of
        VA_MEASURE \<Rightarrow> map (map_option (\<lambda>ss. snd (alignLyrics_measure si minTop minBottom ss))) ms
      | VA_SYSTEM \<Rightarrow>
          let (yMax, yMin, ms') = ly_sys_find si minTop 0 0 ms
          in map (map_option (\<lambda>ss. applyLyrics_m si minBottom False yMin (applyLyrics_m si minBottom True yMax ss))) ms'
      | VA_SEGMENT \<Rightarrow>
          map (map_option (map (\<lambda>s. let (y, s') = findLyrics_seg si minTop True s
                                   in applyLyrics_seg si minBottom True y s'))) ms)"

subsection \<open>Projections and examples\<close>

text \<open>The lyrics above the staff (autoplaced, placement \<open>ABOVE\<close>) of every segment.\<close>

definition ly_above_of :: "'sh lseg list option list \<Rightarrow> lyric list option list option list" where
  "ly_above_of ms = map (map_option (map (\<lambda>s. map_option (filter (ly_sel False)) (lg_lyrics s)))) ms"

text \<open>A shape of rectangles whose vertical distance is always 1, and one measure with a
  lyric above the staff.\<close>

definition ex_si :: "rect list shape_iface" where
  "ex_si = \<lparr>sh_empty = [], sh_add = (\<lambda>sh r. sh @ [r]), sh_add_shape = (@),
     sh_remove = (\<lambda>a b. filter (\<lambda>r. r \<notin> set b) a), sh_min_vdist = (\<lambda>a b. 1)\<rparr>"

definition ex_above :: lyric where
  "ex_above = \<lparr>ly_autoplace = True, ly_below = False, ly_bbox = \<lparr>r_x = 0, r_y = 0, r_w = 1, r_h = 1\<rparr>,
     ly_ipos = (0, 0), ly_user_off = (0, 0)\<rparr>"

definition ex_ly_ms :: "rect list lseg list option list" where
  "ex_ly_ms = [Some [\<lparr>lg_cr = True, lg_lyrics = Some [ex_above], lg_shape = []\<rparr>]]"

subsection \<open>Lemmas\<close>

lemma findLyrics_seg_nonneg: "0 \<le> fst (findLyrics_seg si minTop True s)"
  by (auto simp: findLyrics_seg_def Let_def split: option.splits)

lemma findLyrics_m_max:
  "findLyrics_m si minTop True ss = (y, ss') \<Longrightarrow>
   0 \<le> y \<and> (\<forall>s\<in>set ss. fst (findLyrics_seg si minTop True s) \<le> y) \<and> length ss' = length ss \<and>
   (\<forall>i<length ss. ss' ! i = snd (findLyrics_seg si minTop True (ss ! i)))"
proof (induction ss arbitrary: y ss')
  case Nil
  then show ?case by simp
next
  case (Cons s ss)
  obtain y1 s1 where f1: "findLyrics_seg si minTop True s = (y1, s1)" by fastforce
  obtain y2 ss2 where f2: "findLyrics_m si minTop True ss = (y2, ss2)" by fastforce
  have e: "y = max y1 y2" "ss' = s1 # ss2" using Cons.prems f1 f2 by auto
  have ih: "0 \<le> y2 \<and> (\<forall>s\<in>set ss. fst (findLyrics_seg si minTop True s) \<le> y2) \<and> length ss2 = length ss \<and>
     (\<forall>i<length ss. ss2 ! i = snd (findLyrics_seg si minTop True (ss ! i)))" using Cons.IH [OF f2] .
  have "0 \<le> y1" using findLyrics_seg_nonneg [of si minTop s] f1 by simp
  show ?case
  proof (intro conjI ballI allI impI)
    show "0 \<le> y" using ih e by (auto simp: le_max_iff_disj)
  next
    fix t assume "t \<in> set (s # ss)"
    then show "fst (findLyrics_seg si minTop True t) \<le> y" using ih e f1 by auto
  next
    show "length ss' = length (s # ss)" using ih e by simp
  next
    fix i assume "i < length (s # ss)"
    then show "ss' ! i = snd (findLyrics_seg si minTop True ((s # ss) ! i))" using ih e f1 by (cases i) auto
  qed
qed

lemma applyLyrics_seg_lyrics:
  "lg_lyrics (applyLyrics_seg si mb below y s) =
     (if lg_cr s then map_option (map (\<lambda>l. if ly_sel below l then ly_set_user_y y l else l)) (lg_lyrics s)
      else lg_lyrics s)"
  by (auto simp: applyLyrics_seg_def Let_def split: option.splits)

lemma applyLyrics_seg_cr [simp]: "lg_cr (applyLyrics_seg si mb below y s) = lg_cr s"
  by (auto simp: applyLyrics_seg_def Let_def split: option.splits)

lemma ly_sel_set_user_y [simp]: "ly_sel b (ly_set_user_y y l) = ly_sel b l"
  by (simp add: ly_sel_def ly_set_user_y_def)

lemma filter_above_map_below:
  "filter (ly_sel False) (map (\<lambda>l. if ly_sel True l then ly_set_user_y y l else l) ls) = filter (ly_sel False) ls"
  by (induction ls) (auto simp: ly_sel_def ly_set_user_y_def)

lemma findLyrics_seg_above:
  "map_option (filter (ly_sel False)) (lg_lyrics (snd (findLyrics_seg si mt True s))) =
   map_option (filter (ly_sel False)) (lg_lyrics s)"
  by (auto simp: findLyrics_seg_def Let_def filter_above_map_below split: option.splits)

lemma applyLyrics_seg_above:
  "map_option (filter (ly_sel False)) (lg_lyrics (applyLyrics_seg si mb True y s)) =
   map_option (filter (ly_sel False)) (lg_lyrics s)"
  by (auto simp: applyLyrics_seg_def Let_def filter_above_map_below split: option.splits)

lemma findLyrics_m_snd: "snd (findLyrics_m si mt b ss) = map (\<lambda>s. snd (findLyrics_seg si mt b s)) ss"
  by (induction ss) (auto split: prod.splits)

text \<open>
  In the measure alignment the lyrics below the staff all get the offset found, which is
  at least 0 and at least what each segment needs.
\<close>

theorem alignLyrics_measure_aligned:
  assumes "alignLyrics_measure si minTop minBottom ss = (yMax, ss')"
  shows "0 \<le> yMax \<and> (\<forall>s\<in>set ss. fst (findLyrics_seg si minTop True s) \<le> yMax) \<and>
         (\<forall>s\<in>set ss'. \<forall>ls l. lg_cr s \<and> lg_lyrics s = Some ls \<and> l \<in> set ls \<and> ly_sel True l \<longrightarrow>
                              snd (ly_user_off l) = yMax)"
proof -
  obtain ss1 where f: "findLyrics_m si minTop True ss = (yMax, ss1)" and a: "ss' = applyLyrics_m si minBottom True yMax ss1"
    using assms by (auto simp: alignLyrics_measure_def split: prod.splits)
  have "\<forall>s\<in>set ss'. \<forall>ls l. lg_cr s \<and> lg_lyrics s = Some ls \<and> l \<in> set ls \<and> ly_sel True l \<longrightarrow>
                              snd (ly_user_off l) = yMax"
  proof (intro ballI allI impI)
    fix s ls l
    assume s: "s \<in> set ss'" and h: "lg_cr s \<and> lg_lyrics s = Some ls \<and> l \<in> set ls \<and> ly_sel True l"
    obtain s0 where s0: "s0 \<in> set ss1" "s = applyLyrics_seg si minBottom True yMax s0"
      using s a by (auto simp: applyLyrics_m_def)
    obtain ls0 where ls0: "lg_lyrics s0 = Some ls0" "ls = map (\<lambda>l. if ly_sel True l then ly_set_user_y yMax l else l) ls0"
      using h s0 by (auto simp: applyLyrics_seg_lyrics split: if_splits)
    obtain l0 where "l0 \<in> set ls0" "l = (if ly_sel True l0 then ly_set_user_y yMax l0 else l0)"
      using h ls0 by auto
    then show "snd (ly_user_off l) = yMax"
      using h by (auto simp: ly_set_user_y_def ly_sel_def split: if_splits)
  qed
  then show ?thesis using findLyrics_m_max [OF f] by blast
qed

text \<open>
  C17: lyrics above the staff are aligned only when the range is \<open>SYSTEM\<close>: with the
  range \<open>MEASURE\<close> or \<open>SEGMENT\<close> the code only calls \<open>findLyricsMaxY\<close> and
  \<open>applyLyricsMax\<close>, and every lyric above the staff keeps its offset.
\<close>

theorem alignLyrics_above_untouched:
  assumes "ar \<noteq> VA_SYSTEM"
  shows "ly_above_of (alignLyrics si minTop minBottom ar ms) = ly_above_of ms"
proof (cases ar)
  case VA_MEASURE
  have "\<And>ss. map (\<lambda>s. map_option (filter (ly_sel False)) (lg_lyrics s)) (snd (alignLyrics_measure si minTop minBottom ss)) =
             map (\<lambda>s. map_option (filter (ly_sel False)) (lg_lyrics s)) ss"
    by (auto simp: alignLyrics_measure_def applyLyrics_m_def findLyrics_m_snd applyLyrics_seg_above
                   findLyrics_seg_above split: prod.splits dest!: arg_cong [where f = snd])
  then show ?thesis using VA_MEASURE
    by (simp add: alignLyrics_def ly_above_of_def option.map_comp comp_def)
next
  case VA_SEGMENT
  have "\<And>s. map_option (filter (ly_sel False))
         (lg_lyrics (let (y, s') = findLyrics_seg si minTop True s in applyLyrics_seg si minBottom True y s')) =
        map_option (filter (ly_sel False)) (lg_lyrics s)"
    by (auto simp: applyLyrics_seg_above findLyrics_seg_above split: prod.splits dest!: arg_cong [where f = snd])
  then show ?thesis using VA_SEGMENT
    by (simp add: alignLyrics_def ly_above_of_def option.map_comp comp_def)
qed (use assms in simp)

theorem alignLyrics_above_untouched_witness:
  "VA_MEASURE \<noteq> VA_SYSTEM \<and>
   ly_above_of (alignLyrics ex_si 1 1 VA_MEASURE ex_ly_ms) = [Some [Some [ex_above]]] \<and>
   ly_above_of (alignLyrics ex_si 1 1 VA_SYSTEM ex_ly_ms) = [Some [Some [ex_above\<lparr>ly_user_off := (0, -2)\<rparr>]]]"
proof -
  have "ly_above_of ex_ly_ms = [Some [Some [ex_above]]]"
    by (simp add: ly_above_of_def ex_ly_ms_def ex_above_def ly_sel_def)
  moreover have "ly_above_of (alignLyrics ex_si 1 1 VA_SYSTEM ex_ly_ms) = [Some [Some [ex_above\<lparr>ly_user_off := (0, -2)\<rparr>]]]"
    by (simp add: ly_above_of_def ex_ly_ms_def ex_above_def ly_sel_def alignLyrics_def findLyrics_seg_def
                  applyLyrics_m_def applyLyrics_seg_def ly_shape_def ex_si_def ly_set_user_y_def Let_def)
  ultimately show ?thesis using alignLyrics_above_untouched [of VA_MEASURE ex_si 1 1 ex_ly_ms] by simp
qed

end
