(* ===== verification/Chord_Notes.thy ===== *)
theory Chord_Notes
  imports Accidentals
begin

text \<open>
  The note loop of \<open>Score::layoutChords3\<close> (\<open>src/libmscore/layout.cpp\<close>): the
  position of each notehead from its mirror flag and stem side, the notes left of the
  origin that accidentals must clear (\<open>leftNotes\<close>) and the leftmost other note
  (\<open>lx\<close>), the x where the dots of up-stem and down-stem chords start, and the
  vertical direction of each note's dots.  The notes are the staff's notes of the
  segment in ascending pitch; the loop runs from the highest.  \<open>Note::setDotY\<close> is
  outside \<open>src/\<close>: the model records the direction passed to it.
\<close>

datatype dot_dir = D_AUTO | D_UP | D_DOWN

text \<open>
  What the loop reads of a note and its chord: line, mirror flag, \<open>up()\<close>,
  \<open>stemPosX()\<close>, head width, the stem's line width (none without a stem), whether
  the head is a whole note, the chord's magnification, x and position, the number of
  dots, the user dot position, visibility, \<open>dotsHidden()\<close>, voice, and the note's
  user x offset (so that \<open>note->x()\<close> is the position set plus the offset).
\<close>

record n3 =
  n3_line :: staff_line
  n3_mirror :: bool
  n3_up :: bool
  n3_stem_x :: qreal
  n3_hw :: qreal
  n3_stem :: "qreal option"
  n3_whole :: bool
  n3_mag :: qreal
  n3_chord_x :: qreal
  n3_chord_pos_x :: qreal
  n3_dots :: nat
  n3_user_dot :: dot_dir
  n3_visible :: bool
  n3_dots_hidden :: bool
  n3_voice :: nat
  n3_user_x :: qreal

text \<open>\<open>stemWidth\<close>, the staff type's \<open>stepOffset\<close> and the step distance.\<close>

record n3_env =
  ne_stem_width :: qreal
  ne_step_offset :: int
  ne_step_distance :: qreal

record lc3_st =
  l3_xs :: "qreal list"
  l3_ys :: "qreal list"
  l3_dots :: "dot_dir list"
  l3_left :: "(staff_line \<times> qreal) list"
  l3_lx :: qreal
  l3_up_dot :: qreal
  l3_down_dot :: qreal

text \<open>The notehead x of a note relative to its chord.\<close>

definition n3_x :: "n3_env \<Rightarrow> n3 \<Rightarrow> qreal" where
  "n3_x env n =
     (let overlapMirror = (case n3_stem n of Some lw \<Rightarrow> lw
                           | None \<Rightarrow> if n3_whole n then ne_stem_width env * n3_mag n else 0)
      in if n3_mirror n then (if n3_up n then n3_stem_x n - overlapMirror else n3_stem_x n - n3_hw n + overlapMirror)
         else (if n3_up n then n3_stem_x n - n3_hw n else 0))"

text \<open>A neighbour taken into account by the dot resolution: visible, dots not hidden.\<close>

definition n3_dot_nb :: "n3 list \<Rightarrow> nat \<Rightarrow> bool" where
  "n3_dot_nb nts j \<longleftrightarrow> n3_visible (nts ! j) \<and> \<not> n3_dots_hidden (nts ! j)"

text \<open>
  The dot resolution of note \<open>i\<close>: its direction, and whether the note above is set
  to \<open>UP\<close>.
\<close>

definition n3_dot :: "n3 list \<Rightarrow> nat \<Rightarrow> dot_dir \<times> bool" where
  "n3_dot nts i =
     (let n = nts ! i;
          nNotes = length nts
      in if 0 < n3_dots n \<and> n3_user_dot n = D_AUTO \<and> 1 < nNotes \<and> n3_visible n \<and> \<not> n3_dots_hidden n then
           let line = n3_line n;
               above = (if i < nNotes - 1 \<and> n3_dot_nb nts (Suc i) then Some (nts ! Suc i) else None);
               intervalAbove = (case above of Some a \<Rightarrow> line - n3_line a | None \<Rightarrow> 1000);
               below = (if 0 < i \<and> n3_dot_nb nts (i - 1) then Some (nts ! (i - 1)) else None);
               intervalBelow = (case below of Some b \<Rightarrow> n3_line b - line | None \<Rightarrow> 1000);
               aboveDots = (case above of Some a \<Rightarrow> 0 < n3_dots a | None \<Rightarrow> False);
               aboveVoice = (case above of Some a \<Rightarrow> n3_voice a | None \<Rightarrow> 0)
           in if even line then
                (if intervalAbove = 1 \<and> intervalBelow \<noteq> 1 then (D_DOWN, False)
                 else if intervalBelow = 1 \<and> intervalAbove \<noteq> 1 then (D_UP, False)
                 else if intervalAbove = 0 \<and> aboveDots then
                   (if odd aboveVoice = odd (n3_voice n) then (D_DOWN, True) else (D_AUTO, False))
                 else (D_AUTO, False))
              else
                (if intervalAbove = 0 \<and> aboveDots then
                   (if \<not> odd (n3_voice n) then (D_UP, False)
                    else if \<not> odd aboveVoice then (D_AUTO, True)
                    else (D_DOWN, False))
                 else (D_AUTO, False))
         else (n3_user_dot n, False))"

text \<open>One iteration of the loop, for note \<open>i\<close>.\<close>

definition lc3_note :: "n3_env \<Rightarrow> n3 list \<Rightarrow> nat \<Rightarrow> lc3_st \<Rightarrow> lc3_st" where
  "lc3_note env nts i st =
     (let n = nts ! i;
          x = n3_x env n;
          sx = x + n3_chord_x n;
          (left, lx) = (if n3_mirror n \<and> \<not> n3_up n \<and> sx < 0
                        then (l3_left st @ [(n3_line n, x + n3_user_x n + n3_chord_x n)], l3_lx st)
                        else if sx < l3_lx st then (l3_left st, sx) else (l3_left st, l3_lx st));
          xx = x + n3_hw n + n3_chord_pos_x n;
          (upDot, downDot) = (if 0 < n3_dots n then
                                (if n3_up n then (max (l3_up_dot st) xx, l3_down_dot st)
                                 else (l3_up_dot st, max (l3_down_dot st) xx))
                              else (l3_up_dot st, l3_down_dot st));
          (dp, setAbove) = n3_dot nts i;
          dots1 = (if setAbove then (l3_dots st)[Suc i := D_UP] else l3_dots st)
      in st\<lparr>l3_xs := (l3_xs st)[i := x],
            l3_ys := (l3_ys st)[i := of_int (n3_line n + ne_step_offset env) * ne_step_distance env],
            l3_dots := dots1[i := dp], l3_left := left, l3_lx := lx,
            l3_up_dot := upDot, l3_down_dot := downDot\<rparr>)"

fun lc3_loop :: "n3_env \<Rightarrow> n3 list \<Rightarrow> nat \<Rightarrow> lc3_st \<Rightarrow> lc3_st" where
  "lc3_loop env nts 0 st = st"
| "lc3_loop env nts (Suc i) st = lc3_loop env nts i (lc3_note env nts i st)"

text \<open>
  The note loop from the highest note down (\<open>lx\<close> starts at 10000), and the dot
  position of the segment for the staff, \<open>qMax(upDotPosX, downDotPosX)\<close>.
\<close>

definition lc3_notes :: "n3_env \<Rightarrow> n3 list \<Rightarrow> lc3_st" where
  "lc3_notes env nts =
     lc3_loop env nts (length nts)
       \<lparr>l3_xs = replicate (length nts) 0, l3_ys = replicate (length nts) 0,
        l3_dots = replicate (length nts) D_AUTO, l3_left = [], l3_lx = 10000,
        l3_up_dot = 0, l3_down_dot = 0\<rparr>"

definition lc3_dot_pos_x :: "n3_env \<Rightarrow> n3 list \<Rightarrow> qreal" where
  "lc3_dot_pos_x env nts = (let st = lc3_notes env nts in max (l3_up_dot st) (l3_down_dot st))"

text \<open>
  The loop of \<open>layoutAccidental\<close> over \<open>leftNotes\<close> without its \<open>break\<close>: every
  note is tested.  The reference against which the early exit is proved.
\<close>

fun la_left_full :: "acel \<Rightarrow> qreal \<Rightarrow> qreal \<Rightarrow> (staff_line \<times> qreal) list \<Rightarrow> qreal \<Rightarrow> qreal" where
  "la_left_full me pnd sp [] lx = lx"
| "la_left_full me pnd sp ((lnLine, lnX) # lns) lx =
     (let lnTop = of_int (lnLine - 1) * 0.5 * sp;
          lnBottom = lnTop + sp
      in if ac_top me - lnBottom \<le> pnd \<and> lnTop - ac_bottom me \<le> pnd then
           (if lnBottom - ac_top me \<le> ac_ascent me - pnd
            then la_left_full me pnd sp lns (min lx (lnX + ac_right_clear me))
            else la_left_full me pnd sp lns (min lx lnX))
         else la_left_full me pnd sp lns lx)"

text \<open>Fixtures: a dotted note on a line, with stem direction and mirror flag.\<close>

definition ex_n3 :: "staff_line \<Rightarrow> bool \<Rightarrow> bool \<Rightarrow> n3" where
  "ex_n3 l up mir = \<lparr>n3_line = l, n3_mirror = mir, n3_up = up, n3_stem_x = (if up then 6 / 5 else 0), n3_hw = 6 / 5,
     n3_stem = Some (1 / 10), n3_whole = False, n3_mag = 1, n3_chord_x = 0, n3_chord_pos_x = 0,
     n3_dots = 1, n3_user_dot = D_AUTO, n3_visible = True, n3_dots_hidden = False, n3_voice = 0,
     n3_user_x = 0\<rparr>"

definition ex_env :: n3_env where
  "ex_env = \<lparr>ne_stem_width = 1 / 10, ne_step_offset = 0, ne_step_distance = 1 / 2\<rparr>"

subsection \<open>Lemmas\<close>

lemma la_left_full_below:
  assumes "0 \<le> sp" "\<forall>(l, x)\<in>set lns. l0 \<le> l" "pnd < of_int (l0 - 1) * 0.5 * sp - ac_bottom me"
  shows "la_left_full me pnd sp lns lx = lx"
  using assms(2)
proof (induction lns arbitrary: lx)
  case (Cons ln lns)
  obtain l x where ln: "ln = (l, x)" by fastforce
  have "l0 \<le> l" using Cons.prems ln by auto
  then have "of_int (l0 - 1) * 0.5 * sp \<le> of_int (l - 1) * 0.5 * sp"
    using assms(1) by (intro mult_right_mono) simp_all
  then have "\<not> (of_int (l - 1) * 0.5 * sp - ac_bottom me \<le> pnd)" using assms(3) by linarith
  then show ?case using Cons ln by (simp add: Let_def)
qed simp

lemma la_left_notes_early_exit:
  assumes "0 \<le> sp" "0 \<le> pnd" "ac_top me \<le> ac_bottom me" "sorted (map fst lns)"
  shows "la_left_notes me pnd sp lns lx = la_left_full me pnd sp lns lx"
  using assms(4)
proof (induction lns arbitrary: lx)
  case (Cons ln lns)
  obtain l x where ln: "ln = (l, x)" by fastforce
  have s: "sorted (map fst lns)" "\<forall>(l', x')\<in>set lns. l \<le> l'" using Cons.prems ln by auto
  define lnTop where "lnTop = of_int (l - 1) * 0.5 * sp"
  have eqN: "la_left_notes me pnd sp (ln # lns) lx =
      (if ac_top me - (lnTop + sp) \<le> pnd \<and> lnTop - ac_bottom me \<le> pnd then
         (if lnTop + sp - ac_top me \<le> ac_ascent me - pnd
          then la_left_notes me pnd sp lns (min lx (x + ac_right_clear me))
          else la_left_notes me pnd sp lns (min lx x))
       else if ac_bottom me < lnTop then lx
       else la_left_notes me pnd sp lns lx)"
    unfolding ln by (simp only: la_left_notes.simps Let_def lnTop_def [symmetric])
  have eqF: "la_left_full me pnd sp (ln # lns) lx =
      (if ac_top me - (lnTop + sp) \<le> pnd \<and> lnTop - ac_bottom me \<le> pnd then
         (if lnTop + sp - ac_top me \<le> ac_ascent me - pnd
          then la_left_full me pnd sp lns (min lx (x + ac_right_clear me))
          else la_left_full me pnd sp lns (min lx x))
       else la_left_full me pnd sp lns lx)"
    unfolding ln by (simp only: la_left_full.simps Let_def lnTop_def [symmetric])
  show ?case
  proof (cases "ac_top me - (lnTop + sp) \<le> pnd \<and> lnTop - ac_bottom me \<le> pnd")
    case True
    then show ?thesis using Cons.IH [OF s(1)] unfolding eqN eqF by simp
  next
    case nc: False
    show ?thesis
    proof (cases "ac_bottom me < lnTop")
      case True
      have "pnd < lnTop - ac_bottom me" using nc True assms(1-3) by linarith
      then have "la_left_full me pnd sp lns lx = lx"
        using la_left_full_below [OF assms(1) s(2)] by (simp add: lnTop_def)
      then show ?thesis unfolding eqN eqF if_not_P [OF nc] if_P [OF True] by simp
    next
      case False
      then show ?thesis using Cons.IH [OF s(1)] unfolding eqN eqF if_not_P [OF nc] if_not_P [OF False] by simp
    qed
  qed
qed simp

lemma lc3_note_fields:
  "l3_xs (lc3_note env nts i st) = (l3_xs st)[i := n3_x env (nts ! i)]"
  "length (l3_ys (lc3_note env nts i st)) = length (l3_ys st)"
  "length (l3_dots (lc3_note env nts i st)) = length (l3_dots st)"
  "l3_up_dot st \<le> l3_up_dot (lc3_note env nts i st)"
  "l3_down_dot st \<le> l3_down_dot (lc3_note env nts i st)"
  by (auto simp: lc3_note_def Let_def split: prod.splits)

lemma lc3_note_dot:
  "0 < n3_dots (nts ! i) \<Longrightarrow>
   n3_x env (nts ! i) + n3_hw (nts ! i) + n3_chord_pos_x (nts ! i)
     \<le> (if n3_up (nts ! i) then l3_up_dot else l3_down_dot) (lc3_note env nts i st)"
  by (auto simp: lc3_note_def Let_def split: prod.splits)

lemma lc3_note_left:
  "l3_left (lc3_note env nts i st) = l3_left st \<or>
   (\<exists>x. l3_left (lc3_note env nts i st) = l3_left st @ [(n3_line (nts ! i), x)])"
  by (auto simp: lc3_note_def Let_def split: prod.splits)

lemma lc3_loop_xs:
  "length (l3_xs (lc3_loop env nts i st)) = length (l3_xs st)"
  "k < length (l3_xs st) \<Longrightarrow>
   l3_xs (lc3_loop env nts i st) ! k = (if k < i then n3_x env (nts ! k) else l3_xs st ! k)"
proof (induction i arbitrary: st)
  case (Suc i)
  { case 1 show ?case using Suc.IH(1) by (simp add: lc3_note_fields) }
  { case 2 show ?case using Suc.IH(2) [of "lc3_note env nts i st"] 2
      by (cases "k = i") (simp_all add: lc3_note_fields) }
qed simp_all

lemma lc3_loop_dot_mono:
  "l3_up_dot st \<le> l3_up_dot (lc3_loop env nts i st)"
  "l3_down_dot st \<le> l3_down_dot (lc3_loop env nts i st)"
proof (induction i arbitrary: st)
  case (Suc i)
  { case 1 show ?case using Suc.IH(1) [of "lc3_note env nts i st"] lc3_note_fields(4) [where st = st and i = i and env = env and nts = nts] by simp }
  { case 2 show ?case using Suc.IH(2) [of "lc3_note env nts i st"] lc3_note_fields(5) [where st = st and i = i and env = env and nts = nts] by simp }
qed simp_all

lemma lc3_loop_dot:
  "k < i \<Longrightarrow> 0 < n3_dots (nts ! k) \<Longrightarrow>
   n3_x env (nts ! k) + n3_hw (nts ! k) + n3_chord_pos_x (nts ! k)
     \<le> (if n3_up (nts ! k) then l3_up_dot else l3_down_dot) (lc3_loop env nts i st)"
proof (induction i arbitrary: st)
  case (Suc i)
  show ?case
  proof (cases "k = i")
    case True
    then show ?thesis using lc3_note_dot [OF Suc.prems(2), of env st]
        lc3_loop_dot_mono [where st = "lc3_note env nts i st" and i = i]
      by (auto intro: order_trans)
  next
    case False
    then show ?thesis using Suc by simp
  qed
qed simp

text \<open>
  C24: the dot column clears every dotted note: the x the segment's dots start at for
  the staff is at least the right edge of each dotted notehead (its x, head width and
  chord position).
\<close>

theorem lc3_dot_pos_x_bound:
  assumes "k < length nts" "0 < n3_dots (nts ! k)"
  shows "l3_xs (lc3_notes env nts) ! k + n3_hw (nts ! k) + n3_chord_pos_x (nts ! k) \<le> lc3_dot_pos_x env nts"
proof -
  have "l3_xs (lc3_notes env nts) ! k = n3_x env (nts ! k)"
    using assms(1) by (simp add: lc3_notes_def lc3_loop_xs)
  moreover have "n3_x env (nts ! k) + n3_hw (nts ! k) + n3_chord_pos_x (nts ! k)
      \<le> max (l3_up_dot (lc3_notes env nts)) (l3_down_dot (lc3_notes env nts))"
    using lc3_loop_dot [OF assms(1,2), where env = env] unfolding lc3_notes_def
    by (cases "n3_up (nts ! k)") (auto intro: max.coboundedI1 max.coboundedI2)
  ultimately show ?thesis by (simp add: lc3_dot_pos_x_def Let_def)
qed

lemma lc3_loop_left_sorted:
  assumes "sorted (rev (map n3_line nts))" "i \<le> length nts"
    "sorted (map fst (l3_left st))" "\<forall>(l, x)\<in>set (l3_left st). \<forall>j<i. l \<le> n3_line (nts ! j)"
  shows "sorted (map fst (l3_left (lc3_loop env nts i st)))"
  using assms(2-4)
proof (induction i arbitrary: st)
  case (Suc i)
  have mono: "\<forall>j<i. n3_line (nts ! i) \<le> n3_line (nts ! j)"
    using sorted_rev_nth_mono [OF assms(1)] Suc.prems(1) by fastforce
  from lc3_note_left [of env nts i st]
  have "sorted (map fst (l3_left (lc3_loop env nts i (lc3_note env nts i st))))"
  proof
    assume "l3_left (lc3_note env nts i st) = l3_left st"
    then show ?thesis using Suc by (intro Suc.IH) auto
  next
    assume "\<exists>x. l3_left (lc3_note env nts i st) = l3_left st @ [(n3_line (nts ! i), x)]"
    then obtain x where e: "l3_left (lc3_note env nts i st) = l3_left st @ [(n3_line (nts ! i), x)]" ..
    show ?thesis
    proof (rule Suc.IH)
      show "sorted (map fst (l3_left (lc3_note env nts i st)))"
        using Suc.prems(2,3) by (fastforce simp: e sorted_append)
      show "\<forall>(l, x)\<in>set (l3_left (lc3_note env nts i st)). \<forall>j<i. l \<le> n3_line (nts ! j)"
        using Suc.prems(3) mono by (fastforce simp: e)
    qed (use Suc.prems in simp)
  qed
  then show ?case by simp
qed simp

theorem lc3_left_notes_sorted:
  assumes "sorted (rev (map n3_line nts))"
  shows "sorted (map fst (l3_left (lc3_notes env nts)))"
  unfolding lc3_notes_def by (rule lc3_loop_left_sorted [OF assms]) simp_all

lemma n3_dot_pair:
  assumes "n3_line a = n3_line b + 1" "0 < n3_dots a" "0 < n3_dots b"
    "n3_user_dot a = D_AUTO" "n3_user_dot b = D_AUTO"
    "n3_visible a" "n3_visible b" "\<not> n3_dots_hidden a" "\<not> n3_dots_hidden b"
  shows "n3_dot [a, b] 1 = (if even (n3_line a) then (D_AUTO, False) else (D_UP, False))"
    "n3_dot [a, b] 0 = (if even (n3_line a) then (D_DOWN, False) else (D_AUTO, False))"
  using assms by (auto simp: n3_dot_def n3_dot_nb_def Let_def)

theorem lc3_second_dots:
  assumes "n3_line a = n3_line b + 1" "0 < n3_dots a" "0 < n3_dots b"
    "n3_user_dot a = D_AUTO" "n3_user_dot b = D_AUTO"
    "n3_visible a" "n3_visible b" "\<not> n3_dots_hidden a" "\<not> n3_dots_hidden b"
  shows "l3_dots (lc3_notes env [a, b]) = (if even (n3_line a) then [D_DOWN, D_AUTO] else [D_AUTO, D_UP])"
  using n3_dot_pair [OF assms]
  by (simp add: lc3_notes_def lc3_note_def Let_def numeral_2_eq_2 split: prod.splits)

text \<open>
  C23: the \<open>break\<close> in the left-note loop of \<open>layoutAccidental\<close> is only an
  early exit: on the \<open>leftNotes\<close> the note loop of \<open>layoutChords3\<close> builds from
  notes in ascending pitch, with nonnegative spatium and distance and an accidental
  whose top is above its bottom, the loop gives the same \<open>lx\<close> as the loop that tests
  every note.
\<close>

theorem lc3_left_notes_early_exit:
  assumes "sorted (rev (map n3_line nts))" "0 \<le> sp" "0 \<le> pnd" "ac_top me \<le> ac_bottom me"
  shows "Accidentals.la_left_notes me pnd sp (l3_left (lc3_notes env nts)) lx =
         la_left_full me pnd sp (l3_left (lc3_notes env nts)) lx"
  using la_left_notes_early_exit [OF assms(2-4) lc3_left_notes_sorted [OF assms(1)]] .

lemmas ex_n3_eval = ex_n3_def ex_env_def lc3_notes_def lc3_note_def n3_x_def n3_dot_def n3_dot_nb_def
  Let_def numeral_2_eq_2

text \<open>
  Two mirrored down-stem notes on lines 1 and 5: both go to \<open>leftNotes\<close>, the
  higher first; the dots start at the notes' right edge and keep their automatic direction.
\<close>

lemma lc3_example:
  "l3_left (lc3_notes ex_env [ex_n3 5 False True, ex_n3 1 False True]) = [(1, - 11 / 10), (5, - 11 / 10)]"
  "lc3_dot_pos_x ex_env [ex_n3 5 False True, ex_n3 1 False True] = 1 / 10"
  "l3_dots (lc3_notes ex_env [ex_n3 5 False True, ex_n3 1 False True]) = [D_AUTO, D_AUTO]"
  by (simp_all add: ex_n3_eval lc3_dot_pos_x_def)

theorem lc3_dot_pos_x_bound_witness:
  "0 < length [ex_n3 4 True False, ex_n3 3 True True] \<and> 0 < n3_dots (ex_n3 4 True False) \<and>
   l3_xs (lc3_notes ex_env [ex_n3 4 True False, ex_n3 3 True True]) ! 0 + n3_hw (ex_n3 4 True False)
     + n3_chord_pos_x (ex_n3 4 True False) \<le> lc3_dot_pos_x ex_env [ex_n3 4 True False, ex_n3 3 True True]"
  using lc3_dot_pos_x_bound [where k = 0 and nts = "[ex_n3 4 True False, ex_n3 3 True True]" and env = ex_env]
  by (simp add: ex_n3_def)

theorem lc3_left_notes_early_exit_witness:
  "sorted (rev (map n3_line [ex_n3 5 False True, ex_n3 1 False True])) \<and> (0::real) \<le> 1 \<and> (0::real) \<le> 1 / 4 \<and>
   ac_top (ex_acc 0) \<le> ac_bottom (ex_acc 0) \<and>
   Accidentals.la_left_notes (ex_acc 0) (1 / 4) 1 (l3_left (lc3_notes ex_env [ex_n3 5 False True, ex_n3 1 False True])) 0 =
   la_left_full (ex_acc 0) (1 / 4) 1 (l3_left (lc3_notes ex_env [ex_n3 5 False True, ex_n3 1 False True])) 0"
  using lc3_left_notes_early_exit [where nts = "[ex_n3 5 False True, ex_n3 1 False True]" and sp = 1
      and pnd = "1 / 4" and me = "ex_acc 0" and env = ex_env and lx = 0]
  by (simp add: ex_n3_def ex_acc_def)

end
