(* ===== verification/Accidental_Columns.thy ===== *)
theory Accidental_Columns
  imports Accidentals
begin

text \<open>
  The octave-column branch of \<open>Score::layoutChords3\<close>
  (\<open>src/libmscore/layout.cpp\<close>), taken when the accidentals of a chord span an octave
  or more: the pitch-class columns are walked through their \<open>next\<close> links, the
  columns with accidentals on different lines are ordered by a zig-zag from the outside
  in, the other (unmatched) accidentals are slotted into a column where they fit or
  left for the zig-zag, the columns are laid out right to left and aligned, and the
  rest goes through the zig-zag of \<open>Accidentals\<close>.  The \<open>next\<close> links are
  indices into the accidental list, \<open>-1\<close> for none; every walk along them is a
  \<open>partial_function\<close> in the option monad (\<open>None\<close>: an index out of the list, or
  a walk that never reaches \<open>-1\<close>), and the walks are proved to return on the lists
  \<open>layoutChords3\<close> builds.
\<close>

subsection \<open>Walking a column\<close>

text \<open>
  \<open>for (int j = columnBottom[pc]; j != -1; j = aclist[j].next)\<close>: the indices
  visited from \<open>j\<close>.
\<close>

partial_function (option) col_walk :: "acel list \<Rightarrow> int \<Rightarrow> nat list option" where
  "col_walk acs j =
     (if j = -1 then Some []
      else if j < 0 \<or> int (length acs) \<le> j then None
      else Option.bind (col_walk acs (ac_next (acs ! nat j))) (\<lambda>ws. Some (nat j # ws)))"

text \<open>
  The first loop of the branch: \<open>columnTop[pc]\<close>, the last accidental reached from
  \<open>columnBottom[pc]\<close>, or \<open>-1\<close> for an empty column.
\<close>

definition oc_top :: "acel list \<Rightarrow> int \<Rightarrow> int option" where
  "oc_top acs b = (if b = -1 then Some (-1) else map_option (\<lambda>ws. int (last ws)) (col_walk acs b))"

definition oc_tops :: "acel list \<Rightarrow> int list \<Rightarrow> int list option" where
  "oc_tops acs cb = those (map (oc_top acs) cb)"

subsection \<open>Column order\<close>

text \<open>
  The order of \<open>for (int i = 0; i <= n; ++i, --n)\<close> with \<open>n = nAcc - 1\<close>: the
  highest, the lowest, the next highest, the next lowest, and so on, stopping at
  \<open>i == n\<close>.
\<close>

function oc_seq :: "nat \<Rightarrow> nat \<Rightarrow> nat list" where
  "oc_seq i n = (if n < i then [] else if i = n then [i] else i # n # oc_seq (Suc i) (n - 1))"
  by pat_completeness auto
termination by (relation "measure (\<lambda>(i, n). Suc n - i)") auto

text \<open>
  One accidental of that loop: its pitch class joins \<open>column\<close> (once) when the top
  and bottom of its column are on different lines, else the accidental is unmatched.
\<close>

definition oc_class_step ::
  "acel list \<Rightarrow> int list \<Rightarrow> int list \<Rightarrow> nat list \<times> nat list \<Rightarrow> nat \<Rightarrow> nat list \<times> nat list" where
  "oc_class_step acs cb ct st i =
     (let (column, unmatched) = st;
          pc = ac_pc (acs ! i)
      in if ac_line (acs ! nat (ct ! pc)) \<noteq> ac_line (acs ! nat (cb ! pc)) then
           (if pc \<in> set column then column else column @ [pc], unmatched)
         else (column, unmatched @ [i]))"

definition oc_classify :: "acel list \<Rightarrow> int list \<Rightarrow> int list \<Rightarrow> nat list \<times> nat list" where
  "oc_classify acs cb ct = foldl (oc_class_step acs cb ct) ([], []) (oc_seq 0 (length acs - 1))"

subsection \<open>Slotting the unmatched accidentals\<close>

text \<open>
  The slot of an accidental on \<open>line\<close> in a column: the walk from the bottom stops at
  the first accidental higher than \<open>line\<close> (\<open>above\<close>); \<open>below\<close> is the last
  one passed.  Result \<open>(above, below)\<close>.
\<close>

partial_function (option) oc_slot :: "acel list \<Rightarrow> staff_line \<Rightarrow> int \<Rightarrow> int \<Rightarrow> (int \<times> int) option" where
  "oc_slot acs line k below =
     (if k = -1 then Some (-1, below)
      else if k < 0 \<or> int (length acs) \<le> k then None
      else if ac_line (acs ! nat k) < line then Some (k, below)
      else oc_slot acs line (ac_next (acs ! nat k)) k)"

text \<open>
  The loop over the columns for the unmatched accidental \<open>u\<close>: the first column whose
  slot leaves \<open>accidentalDistance\<close> (times the accidental's magnification) to the
  neighbours takes it, linked between \<open>below\<close> and \<open>above\<close>.  State: the list,
  \<open>columnBottom\<close>, \<open>columnTop\<close>; the flag is \<open>found\<close>.
\<close>

fun oc_try ::
  "qreal \<Rightarrow> nat \<Rightarrow> acel list \<times> int list \<times> int list \<Rightarrow> nat list \<Rightarrow> (acel list \<times> int list \<times> int list \<times> bool) option" where
  "oc_try pd u (acs, cb, ct) [] = Some (acs, cb, ct, False)"
| "oc_try pd u (acs, cb, ct) (pc # cols) =
     Option.bind (oc_slot acs (ac_line (acs ! u)) (cb ! pc) (-1)) (\<lambda>(above, below).
       let me = acs ! u;
           myPd = pd * ac_mag me;
           conflict = (if above \<noteq> -1 \<and> ac_top me - ac_bottom (acs ! nat above) < myPd then True
                       else below \<noteq> -1 \<and> ac_top (acs ! nat below) - ac_bottom me < myPd)
       in if \<not> conflict then
            let acs1 = acs[u := me\<lparr>ac_next := above\<rparr>];
                ct1 = (if above = -1 then ct[pc := int u] else ct)
            in if below \<noteq> -1 then Some (acs1[nat below := (acs1 ! nat below)\<lparr>ac_next := int u\<rparr>], cb, ct1, True)
               else Some (acs1, cb[pc := int u], ct1, True)
          else oc_try pd u (acs, cb, ct) cols)"

text \<open>The loop over the unmatched accidentals; those not slotted are collected in \<open>umi\<close>.\<close>

fun oc_match ::
  "qreal \<Rightarrow> nat list \<Rightarrow> acel list \<times> int list \<times> int list \<times> nat list \<Rightarrow> nat list \<Rightarrow>
   (acel list \<times> int list \<times> int list \<times> nat list) option" where
  "oc_match pd cols st [] = Some st"
| "oc_match pd cols (acs, cb, ct, umi) (u # us) =
     Option.bind (oc_try pd u (acs, cb, ct) cols) (\<lambda>(acs1, cb1, ct1, found).
       oc_match pd cols (acs1, cb1, ct1, if found then umi else umi @ [u]) us)"

subsection \<open>Laying out the columns\<close>

text \<open>
  The layout loop of one column, from the bottom up: each accidental is placed by
  \<open>layoutAccidental\<close> with no \<open>above\<close> and the one placed before as
  \<open>below\<close>; \<open>minX\<close> is the leftmost position so far.
\<close>

partial_function (option) oc_lay_walk ::
  "qreal \<Rightarrow> (staff_line \<times> qreal) list \<Rightarrow> qreal \<Rightarrow> qreal \<Rightarrow> qreal \<Rightarrow> acel list \<Rightarrow> int \<Rightarrow> acel option \<Rightarrow> qreal \<Rightarrow>
   (acel list \<times> qreal) option" where
  "oc_lay_walk colOffset lns pnd pd sp acs j below minX =
     (if j = -1 then Some (acs, minX)
      else if j < 0 \<or> int (length acs) \<le> j then None
      else let e = layoutAccidental (acs ! nat j) None below colOffset lns pnd pd sp
           in oc_lay_walk colOffset lns pnd pd sp (acs[nat j := e]) (ac_next e) (Some e) (min minX (ac_x e)))"

text \<open>
  The alignment loop: every accidental of the column moves to \<open>minX\<close>, except one
  followed by an accidental on the same line.
\<close>

partial_function (option) oc_align_walk :: "qreal \<Rightarrow> acel list \<Rightarrow> int \<Rightarrow> acel list option" where
  "oc_align_walk minX acs j =
     (if j = -1 then Some acs
      else if j < 0 \<or> int (length acs) \<le> j then None
      else let next = ac_next (acs ! nat j)
           in if next \<noteq> -1 \<and> ac_line (acs ! nat j) = ac_line (acs ! nat next) then oc_align_walk minX acs next
              else oc_align_walk minX (acs[nat j := (acs ! nat j)\<lparr>ac_x := minX\<rparr>]) next)"

text \<open>The loop over the columns; state: the list, \<open>colOffset\<close> and \<open>minX\<close>.\<close>

fun oc_lay_cols ::
  "(staff_line \<times> qreal) list \<Rightarrow> qreal \<Rightarrow> qreal \<Rightarrow> qreal \<Rightarrow> int list \<Rightarrow> nat list \<Rightarrow> acel list \<times> qreal \<times> qreal \<Rightarrow>
   (acel list \<times> qreal \<times> qreal) option" where
  "oc_lay_cols lns pnd pd sp cb [] st = Some st"
| "oc_lay_cols lns pnd pd sp cb (pc # cols) (acs, colOffset, minX) =
     Option.bind (oc_lay_walk colOffset lns pnd pd sp acs (cb ! pc) None minX) (\<lambda>(acs1, minX1).
       Option.bind (oc_align_walk minX1 acs1 (cb ! pc)) (\<lambda>acs2.
         oc_lay_cols lns pnd pd sp cb cols (acs2, minX1, minX1)))"

subsection \<open>The accidental layout of \<open>layoutChords3\<close>\<close>

text \<open>
  From \<open>if (nAcc == 0) return;\<close> to the zig-zag: the octave branch when there are at
  least two accidentals and the lowest is an octave or more below the highest, else the
  zig-zag over all accidentals at column offset 0.  \<open>pnd\<close> and \<open>pd\<close> are the styles
  \<open>accidentalNoteDistance\<close> and \<open>accidentalDistance\<close>; \<open>cb\<close> is
  \<open>columnBottom\<close> as the note loop left it.
\<close>

definition lc3_accidentals ::
  "(staff_line \<times> qreal) list \<Rightarrow> qreal \<Rightarrow> qreal \<Rightarrow> qreal \<Rightarrow> acel list \<Rightarrow> int list \<Rightarrow> acel list option" where
  "lc3_accidentals lns pnd pd sp acs cb =
     (let nAcc = length acs
      in if nAcc = 0 then Some acs
         else if 2 \<le> nAcc \<and> 7 \<le> ac_line (acs ! (nAcc - 1)) - ac_line (acs ! 0) then
           Option.bind (oc_tops acs cb) (\<lambda>ct.
             let (column, unmatched) = oc_classify acs cb ct
             in Option.bind (oc_match pd column (acs, cb, ct, []) unmatched) (\<lambda>(acs1, cb1, ct1, umi).
                  Option.bind (oc_lay_cols lns pnd pd sp cb1 column (acs1, 0, 0)) (\<lambda>(acs2, colOffset, minX).
                    Some (zz_layout (sort umi) colOffset lns pnd pd sp acs2))))
         else Some (zz_layout [0..<nAcc] 0 lns pnd pd sp acs))"

text \<open>
  The last loop of \<open>layoutChords3\<close>: each accidental's position relative to its note,
  \<open>e.x + lx - (note->x() + note->chord()->x())\<close>, given the note positions in the
  order of the list and the leftmost notehead \<open>lx\<close>.
\<close>

definition lc3_acc_pos :: "qreal \<Rightarrow> acel list \<Rightarrow> qreal list \<Rightarrow> qreal list" where
  "lc3_acc_pos lx acs nxs = map2 (\<lambda>e nx. ac_x e + lx - nx) acs nxs"


subsection \<open>The column invariant\<close>

text \<open>
  While the unmatched accidentals are slotted: the columns are distinct pitch classes,
  each column's walk returns (\<open>W pc\<close>), the walks of different columns are
  disjoint, and no accidental still to be slotted (\<open>us\<close>) is in a column.
\<close>

definition oc_inv :: "acel list \<Rightarrow> int list \<Rightarrow> nat list \<Rightarrow> (nat \<Rightarrow> nat list) \<Rightarrow> nat list \<Rightarrow> bool" where
  "oc_inv acs cb cols W us \<longleftrightarrow>
     distinct cols \<and> (\<forall>pc\<in>set cols. pc < length cb \<and> col_walk acs (cb ! pc) = Some (W pc)) \<and>
     (\<forall>pc\<in>set cols. \<forall>pc'\<in>set cols. pc \<noteq> pc' \<longrightarrow> set (W pc) \<inter> set (W pc') = {}) \<and>
     (\<forall>pc\<in>set cols. set (W pc) \<inter> set us = {}) \<and> distinct us \<and> (\<forall>u\<in>set us. u < length acs)"

subsection \<open>Walks\<close>

declare oc_seq.simps [simp del]

lemma col_walk_Nil_iff: "col_walk acs j = Some [] \<longleftrightarrow> j = -1"
  by (subst col_walk.simps) (auto split: bind_splits)

lemma col_walk_Cons_iff:
  "col_walk acs j = Some (a # ws) \<longleftrightarrow>
   j = int a \<and> a < length acs \<and> col_walk acs (ac_next (acs ! a)) = Some ws"
  by (subst col_walk.simps) (auto split: bind_splits)

lemma col_walk_cong_Some:
  "col_walk acs j = Some ws \<Longrightarrow> length acs' = length acs \<Longrightarrow>
   \<forall>k\<in>set ws. ac_next (acs' ! k) = ac_next (acs ! k) \<Longrightarrow> col_walk acs' j = Some ws"
proof (induction ws arbitrary: j)
  case Nil
  then show ?case by (simp add: col_walk_Nil_iff)
next
  case (Cons a ws)
  then show ?case by (simp add: col_walk_Cons_iff)
qed

lemma col_walk_cong:
  assumes "map ac_next acs' = map ac_next acs"
  shows "col_walk acs' j = col_walk acs j"
proof -
  have l: "length acs' = length acs" using map_eq_imp_length_eq [OF assms] .
  have n: "\<And>k. k < length acs \<Longrightarrow> ac_next (acs' ! k) = ac_next (acs ! k)"
    using assms l by (metis nth_map)
  have s: "\<And>(xs :: acel list) (ys :: acel list) ws. map ac_next xs = map ac_next ys \<Longrightarrow> col_walk ys j = Some ws \<Longrightarrow> col_walk xs j = Some ws"
  proof -
    fix xs ys :: "acel list" and ws
    assume m: "map ac_next xs = map ac_next ys" and w: "col_walk ys j = Some ws"
    have "\<forall>k\<in>set ws. k < length ys"
      using w by (induction ws arbitrary: j) (auto simp: col_walk_Cons_iff)
    then show "col_walk xs j = Some ws"
      using col_walk_cong_Some [OF w] m map_eq_imp_length_eq [OF m] by (metis nth_map)
  qed
  show ?thesis
  proof (cases "col_walk acs j")
    case None
    then show ?thesis using s [of acs acs'] assms by (cases "col_walk acs' j") auto
  qed (use s [OF assms] in simp)
qed

lemma col_walk_drop:
  "col_walk acs j = Some ws \<Longrightarrow> i < length ws \<Longrightarrow> col_walk acs (int (ws ! i)) = Some (drop i ws)"
proof (induction ws arbitrary: j i)
  case (Cons a ws)
  then show ?case by (cases i) (auto simp: col_walk_Cons_iff)
qed simp

lemma col_walk_distinct: "col_walk acs j = Some ws \<Longrightarrow> distinct ws"
proof (induction ws arbitrary: j)
  case (Cons a ws)
  then have w: "col_walk acs (ac_next (acs ! a)) = Some ws" by (simp add: col_walk_Cons_iff)
  have "a \<notin> set ws"
  proof
    assume "a \<in> set ws"
    then obtain i where i: "i < length ws" "ws ! i = a" by (metis in_set_conv_nth)
    have "col_walk acs (int a) = Some (drop i ws)" using col_walk_drop [OF w i(1)] i(2) by simp
    moreover have "col_walk acs (int a) = Some (a # ws)" using Cons.prems by (simp add: col_walk_Cons_iff)
    ultimately show False using i(1) by (metis option.inject length_Cons length_drop not_less_eq_eq le_refl diff_le_self)
  qed
  then show ?case using Cons.IH [OF w] by simp
qed simp

lemma col_walk_lt: "col_walk acs j = Some ws \<Longrightarrow> k \<in> set ws \<Longrightarrow> k < length acs"
  by (induction ws arbitrary: j) (auto simp: col_walk_Cons_iff)


lemma col_last_take_Suc:
  "m < length acs \<Longrightarrow>
   col_last (take (Suc m) acs) p = (if ac_pc (acs ! m) = p then int m else col_last (take m acs) p)"
  by (simp add: take_Suc_conv_app_nth col_last_snoc)

text \<open>
  On a well-linked list the walk from the last accidental of a pitch class among the
  first \<open>m\<close> lists that class from the bottom up.
\<close>

lemma col_walk_class:
  assumes "\<forall>k<length acs. ac_next (acs ! k) = col_last (take k acs) (ac_pc (acs ! k))" "m \<le> length acs"
  shows "col_walk acs (col_last (take m acs) p) = Some (rev (filter (\<lambda>j. ac_pc (acs ! j) = p) [0..<m]))"
  using assms(2)
proof (induction m)
  case 0
  then show ?case by (simp add: col_last_def col_walk_Nil_iff)
next
  case (Suc m)
  then have m: "m < length acs" by simp
  show ?case
  proof (cases "ac_pc (acs ! m) = p")
    case True
    then show ?thesis using Suc.IH m assms(1)
      by (simp add: col_last_take_Suc col_walk_Cons_iff)
  next
    case False
    then show ?thesis using Suc.IH m by (simp add: col_last_take_Suc)
  qed
qed


lemma oc_slot_walk:
  "col_walk acs k = Some ws \<Longrightarrow>
   \<exists>pre rest. ws = pre @ rest \<and>
     oc_slot acs line k bel = Some (case rest of [] \<Rightarrow> -1 | a # _ \<Rightarrow> int a, if pre = [] then bel else int (last pre))"
proof (induction ws arbitrary: k bel)
  case Nil
  then show ?case by (simp add: col_walk_Nil_iff oc_slot.simps)
next
  case (Cons a ws)
  then have k: "k = int a" "a < length acs" "col_walk acs (ac_next (acs ! a)) = Some ws"
    by (simp_all add: col_walk_Cons_iff)
  show ?case
  proof (cases "ac_line (acs ! a) < line")
    case True
    then show ?thesis using k by (intro exI [of _ "[]"] exI [of _ "a # ws"]) (simp add: oc_slot.simps)
  next
    case False
    obtain pre rest where "ws = pre @ rest"
      "oc_slot acs line (ac_next (acs ! a)) k =
         Some (case rest of [] \<Rightarrow> -1 | a # _ \<Rightarrow> int a, if pre = [] then k else int (last pre))"
      using Cons.IH [OF k(3)] by blast
    then show ?thesis using k False
      by (intro exI [of _ "a # pre"] exI [of _ rest]) (subst oc_slot.simps, simp)
  qed
qed

lemma col_walk_splice:
  assumes "col_walk acs j = Some (pre @ rest)" "pre \<noteq> []" "length acs' = length acs"
    "\<forall>k\<in>set (butlast pre). ac_next (acs' ! k) = ac_next (acs ! k)" "ac_next (acs' ! last pre) = t"
    "col_walk acs' t = Some r'"
  shows "col_walk acs' j = Some (pre @ r')"
  using assms(1,2,4,5)
proof (induction pre arbitrary: j)
  case (Cons a pre)
  show ?case
  proof (cases "pre = []")
    case True
    then show ?thesis using Cons.prems assms(3,6) by (simp add: col_walk_Cons_iff)
  next
    case False
    then show ?thesis using Cons.prems assms(3) Cons.IH [of "ac_next (acs ! a)"]
      by (simp add: col_walk_Cons_iff)
  qed
qed simp

lemma sum_list_map_upd:
  "distinct xs \<Longrightarrow> x \<in> set xs \<Longrightarrow>
   sum_list (map (g(x := g x + a)) xs) = sum_list (map g xs) + (a :: 'b :: comm_monoid_add)"
proof (induction xs)
  case (Cons y xs)
  show ?case
  proof (cases "y = x")
    case True
    then show ?thesis using Cons.prems by (simp del: fun_upd_apply add: map_fun_upd ac_simps) (simp add: ac_simps)
  qed (use Cons in \<open>simp add: ac_simps\<close>)
qed simp


text \<open>Linking an unmatched accidental into the slot \<open>pre @ rest\<close> of a column keeps the invariant.\<close>

lemma oc_link_inv:
  assumes inv: "oc_inv acs cb cols W (u # us)" and pc: "pc \<in> set cols" and w: "W pc = pre @ rest"
    and abv_def: "abv = (case rest of [] \<Rightarrow> -1 | a # _ \<Rightarrow> int a)"
    and acs1_def: "acs1 = acs[u := (acs ! u)\<lparr>ac_next := abv\<rparr>]"
    and acs'_def: "acs' = (if pre \<noteq> [] then acs1[last pre := (acs1 ! last pre)\<lparr>ac_next := int u\<rparr>] else acs1)"
    and cb'_def: "cb' = (if pre \<noteq> [] then cb else cb[pc := int u])"
  shows "oc_inv acs' cb' cols (W(pc := pre @ u # rest)) us"
proof -
  have dc: "distinct cols" and walks: "\<And>p. p \<in> set cols \<Longrightarrow> p < length cb \<and> col_walk acs (cb ! p) = Some (W p)"
    and disj: "\<And>p p'. p \<in> set cols \<Longrightarrow> p' \<in> set cols \<Longrightarrow> p \<noteq> p' \<Longrightarrow> set (W p) \<inter> set (W p') = {}"
    and disj_us: "\<And>p. p \<in> set cols \<Longrightarrow> set (W p) \<inter> set (u # us) = {}"
    and du: "distinct (u # us)" and bnd: "\<forall>v\<in>set (u # us). v < length acs"
    using inv unfolding oc_inv_def by blast+
  have wpc: "col_walk acs (cb ! pc) = Some (pre @ rest)" using walks [OF pc] w by simp
  have dist: "distinct (pre @ rest)" using col_walk_distinct [OF wpc] .
  have uW: "u \<notin> set (pre @ rest)" using disj_us [OF pc] w by auto
  have ulen: "u < length acs" using bnd by simp
  have inlen: "\<And>k. k \<in> set (pre @ rest) \<Longrightarrow> k < length acs" using col_walk_lt [OF wpc] by blast
  have len: "length acs' = length acs" by (simp add: acs'_def acs1_def)
  have same: "\<And>k. k \<noteq> u \<Longrightarrow> (pre \<noteq> [] \<longrightarrow> k \<noteq> last pre) \<Longrightarrow> acs' ! k = acs ! k"
    by (auto simp: acs'_def acs1_def)
  have lastpre: "pre \<noteq> [] \<Longrightarrow> last pre \<in> set (pre @ rest)" by simp
  have ul: "pre \<noteq> [] \<Longrightarrow> last pre \<noteq> u" using uW by auto
  have nu: "ac_next (acs' ! u) = abv"
    using ulen ul by (auto simp: acs'_def acs1_def nth_list_update)
  have rest_walk: "col_walk acs' abv = Some rest"
  proof (cases rest)
    case Nil
    then show ?thesis by (simp add: abv_def col_walk_Nil_iff)
  next
    case (Cons a r)
    have "col_walk acs abv = Some rest"
      using col_walk_drop [OF wpc, of "length pre"] Cons by (simp add: abv_def nth_append)
    moreover have "\<forall>k\<in>set rest. ac_next (acs' ! k) = ac_next (acs ! k)"
      using same uW dist by (metis Un_iff disjoint_iff distinct_append last_in_set set_append)
    ultimately show ?thesis using col_walk_cong_Some len by blast
  qed
  have uwalk: "col_walk acs' (int u) = Some (u # rest)"
    using rest_walk nu ulen len by (simp add: col_walk_Cons_iff)
  have newpc: "col_walk acs' (cb' ! pc) = Some (pre @ u # rest)"
  proof (cases "pre = []")
    case True
    then show ?thesis using uwalk walks [OF pc] by (simp add: cb'_def)
  next
    case False
    have lp: "last pre < length acs" using inlen lastpre False by blast
    have "\<forall>k\<in>set (butlast pre). ac_next (acs' ! k) = ac_next (acs ! k)"
    proof
      fix k assume k: "k \<in> set (butlast pre)"
      then have "k \<noteq> last pre" using dist False
        by (metis append_butlast_last_id distinct_append distinct_butlast not_distinct_conv_prefix
            in_set_conv_decomp)
      moreover have "k \<noteq> u" using k uW by (auto dest: in_set_butlastD)
      ultimately show "ac_next (acs' ! k) = ac_next (acs ! k)" using same by simp
    qed
    moreover have "ac_next (acs' ! last pre) = int u" using False lp by (simp add: acs'_def acs1_def)
    ultimately show ?thesis
      using col_walk_splice [OF wpc False len _ _ uwalk] False by (simp add: cb'_def)
  qed
  have others: "\<And>p. p \<in> set cols \<Longrightarrow> p \<noteq> pc \<Longrightarrow> col_walk acs' (cb' ! p) = Some (W p)"
  proof -
    fix p assume p: "p \<in> set cols" "p \<noteq> pc"
    have "\<forall>k\<in>set (W p). ac_next (acs' ! k) = ac_next (acs ! k)"
      using same disj_us [OF p(1)] disj [OF p(1) pc p(2)] w lastpre by fastforce
    then show "col_walk acs' (cb' ! p) = Some (W p)"
      using col_walk_cong_Some [of acs "cb ! p" "W p" acs'] walks [OF p(1)] len p(2) by (simp add: cb'_def)
  qed
  have A: "\<forall>p\<in>set cols. p < length cb' \<and> col_walk acs' (cb' ! p) = Some ((W(pc := pre @ u # rest)) p)"
  proof
    fix p assume "p \<in> set cols"
    then show "p < length cb' \<and> col_walk acs' (cb' ! p) = Some ((W(pc := pre @ u # rest)) p)"
      using walks newpc others by (cases "p = pc") (auto simp: cb'_def)
  qed
  have B: "\<forall>p\<in>set cols. \<forall>p'\<in>set cols. p \<noteq> p' \<longrightarrow>
             set ((W(pc := pre @ u # rest)) p) \<inter> set ((W(pc := pre @ u # rest)) p') = {}"
  proof (intro ballI impI)
    fix p p' assume p: "p \<in> set cols" "p' \<in> set cols" "p \<noteq> p'"
    have "set (W p) \<inter> set (W p') = {}" using disj [OF p] .
    moreover have "p = pc \<Longrightarrow> u \<notin> set (W p')" using disj_us [OF p(2)] by auto
    moreover have "p' = pc \<Longrightarrow> u \<notin> set (W p)" using disj_us [OF p(1)] by auto
    ultimately show "set ((W(pc := pre @ u # rest)) p) \<inter> set ((W(pc := pre @ u # rest)) p') = {}"
      using w p(3) by auto
  qed
  have C: "\<forall>p\<in>set cols. set ((W(pc := pre @ u # rest)) p) \<inter> set us = {}"
  proof
    fix p assume p: "p \<in> set cols"
    have "set (W pc) \<inter> set us = {}" using disj_us [OF pc] by auto
    then show "set ((W(pc := pre @ u # rest)) p) \<inter> set us = {}"
      using disj_us [OF p] w du by auto
  qed
  show ?thesis unfolding oc_inv_def using dc A B C du bnd len by simp
qed


lemma mset_upd_sum:
  "distinct cols \<Longrightarrow> pc \<in> set cols \<Longrightarrow> W pc = pre @ rest \<Longrightarrow>
   sum_list (map (\<lambda>p. mset ((W(pc := pre @ u # rest)) p)) cols) = sum_list (map (\<lambda>p. mset (W p)) cols) + {#u#}"
proof -
  assume a: "distinct cols" "pc \<in> set cols" "W pc = pre @ rest"
  have "(\<lambda>p. mset ((W(pc := pre @ u # rest)) p)) = (\<lambda>p. mset (W p))(pc := mset (W pc) + {#u#})"
    using a(3) by (auto simp: fun_eq_iff)
  then show ?thesis using sum_list_map_upd [OF a(1,2), of "\<lambda>p. mset (W p)" "{#u#}"] by simp
qed

lemma oc_try_inv:
  assumes inv: "oc_inv acs cb cols W (u # us)" and sub: "set cs \<subseteq> set cols"
  shows "\<exists>acs' cb' ct' found. oc_try pd u (acs, cb, ct) cs = Some (acs', cb', ct', found) \<and>
           (if found then \<exists>W'. oc_inv acs' cb' cols W' us \<and>
                sum_list (map (\<lambda>p. mset (W' p)) cols) = sum_list (map (\<lambda>p. mset (W p)) cols) + {#u#}
            else acs' = acs \<and> cb' = cb)"
  using sub
proof (induction cs)
  case (Cons pc cs)
  then have pc: "pc \<in> set cols" and sub': "set cs \<subseteq> set cols" by auto
  have walk: "col_walk acs (cb ! pc) = Some (W pc)" and dc: "distinct cols"
    using inv pc unfolding oc_inv_def by blast+
  obtain pre rest where w: "W pc = pre @ rest" and
    slot: "oc_slot acs (ac_line (acs ! u)) (cb ! pc) (-1) =
             Some (case rest of [] \<Rightarrow> -1 | a # _ \<Rightarrow> int a, if pre = [] then -1 else int (last pre))"
    using oc_slot_walk [OF walk] by blast
  define abv :: int where "abv = (case rest of [] \<Rightarrow> -1 | a # _ \<Rightarrow> int a)"
  define bel where "bel = (if pre = [] then -1 else int (last pre))"
  have bel: "(bel \<noteq> -1) = (pre \<noteq> [])" "pre \<noteq> [] \<Longrightarrow> nat bel = last pre" by (simp_all add: bel_def)
  define conflict where "conflict =
    (if abv \<noteq> -1 \<and> ac_top (acs ! u) - ac_bottom (acs ! nat abv) < pd * ac_mag (acs ! u) then True
     else bel \<noteq> -1 \<and> ac_top (acs ! nat bel) - ac_bottom (acs ! u) < pd * ac_mag (acs ! u))"
  define acs1 where "acs1 = acs[u := (acs ! u)\<lparr>ac_next := abv\<rparr>]"
  have eq: "oc_try pd u (acs, cb, ct) (pc # cs) =
     (if \<not> conflict then
        (if pre \<noteq> [] then Some (acs1[last pre := (acs1 ! last pre)\<lparr>ac_next := int u\<rparr>], cb,
                                 if abv = -1 then ct[pc := int u] else ct, True)
         else Some (acs1, cb[pc := int u], if abv = -1 then ct[pc := int u] else ct, True))
      else oc_try pd u (acs, cb, ct) cs)"
    using slot bel unfolding abv_def [symmetric] bel_def [symmetric]
    by (simp add: Let_def conflict_def acs1_def)
  show ?case
  proof (cases conflict)
    case True
    then show ?thesis using Cons.IH [OF sub'] eq by simp
  next
    case False
    define acs' where "acs' = (if pre \<noteq> [] then acs1[last pre := (acs1 ! last pre)\<lparr>ac_next := int u\<rparr>] else acs1)"
    define cb' where "cb' = (if pre \<noteq> [] then cb else cb[pc := int u])"
    define ct' where "ct' = (if abv = -1 then ct[pc := int u] else ct)"
    have r: "oc_try pd u (acs, cb, ct) (pc # cs) = Some (acs', cb', ct', True)"
      using False unfolding eq acs'_def cb'_def ct'_def by simp
    have "oc_inv acs' cb' cols (W(pc := pre @ u # rest)) us"
      by (rule oc_link_inv [OF inv pc w abv_def acs1_def acs'_def cb'_def])
    then have "\<exists>W'. oc_inv acs' cb' cols W' us \<and>
                sum_list (map (\<lambda>p. mset (W' p)) cols) = sum_list (map (\<lambda>p. mset (W p)) cols) + {#u#}"
      using mset_upd_sum [where W = W and pc = pc and pre = pre and rest = rest and u = u, OF dc pc w] by blast
    then show ?thesis using r by (auto simp del: oc_try.simps)
  qed
qed auto


lemma oc_inv_tl: "oc_inv acs cb cols W (u # us) \<Longrightarrow> oc_inv acs cb cols W us"
  by (auto simp: oc_inv_def)

lemma oc_match_inv:
  assumes "oc_inv acs cb cols W us"
  shows "\<exists>acs' cb' ct' umi'. oc_match pd cols (acs, cb, ct, umi) us = Some (acs', cb', ct', umi') \<and>
           (\<exists>W'. oc_inv acs' cb' cols W' [] \<and>
              sum_list (map (\<lambda>p. mset (W' p)) cols) + mset umi' =
              sum_list (map (\<lambda>p. mset (W p)) cols) + mset umi + mset us)"
  using assms
proof (induction us arbitrary: acs cb ct umi W)
  case Nil
  then show ?case by auto
next
  case (Cons u us)
  obtain acs1 cb1 ct1 found where t: "oc_try pd u (acs, cb, ct) cols = Some (acs1, cb1, ct1, found)"
    and r: "if found then \<exists>W'. oc_inv acs1 cb1 cols W' us \<and>
                sum_list (map (\<lambda>p. mset (W' p)) cols) = sum_list (map (\<lambda>p. mset (W p)) cols) + {#u#}
            else acs1 = acs \<and> cb1 = cb"
    using oc_try_inv [OF Cons.prems order_refl, of pd ct] by blast
  show ?case
  proof (cases found)
    case True
    then obtain W' where "oc_inv acs1 cb1 cols W' us"
      "sum_list (map (\<lambda>p. mset (W' p)) cols) = sum_list (map (\<lambda>p. mset (W p)) cols) + {#u#}"
      using r by auto
    then show ?thesis using Cons.IH [of acs1 cb1 W' ct1 umi] t True by (simp add: ac_simps)
  next
    case False
    then show ?thesis using Cons.IH [OF oc_inv_tl [OF Cons.prems], of ct1 "umi @ [u]"] t r
      by (simp add: ac_simps)
  qed
qed


lemma layoutAccidental_next [simp]:
  "ac_next (layoutAccidental me ab bl c lns pnd pd sp) = ac_next me"
  "ac_line (layoutAccidental me ab bl c lns pnd pd sp) = ac_line me"
  by (simp_all add: layoutAccidental_def Let_def split: prod.splits)

lemma map_next_upd:
  "ac_next e = ac_next (acs ! a) \<Longrightarrow> map ac_next (acs[a := e]) = map ac_next acs"
proof (cases "a < length acs")
  case True
  assume "ac_next e = ac_next (acs ! a)"
  then show ?thesis using True list_update_id [of "map ac_next acs" a] by (simp add: map_update)
qed (simp add: list_update_beyond)

lemma oc_lay_walk_Some:
  "col_walk acs j = Some ws \<Longrightarrow>
   \<exists>acs' m'. oc_lay_walk c lns pnd pd sp acs j b m = Some (acs', m') \<and> map ac_next acs' = map ac_next acs"
proof (induction ws arbitrary: acs j b m)
  case Nil
  then show ?case by (simp add: col_walk_Nil_iff oc_lay_walk.simps)
next
  case (Cons a ws)
  then have j: "j = int a" "a < length acs" "col_walk acs (ac_next (acs ! a)) = Some ws"
    by (simp_all add: col_walk_Cons_iff)
  define e where "e = layoutAccidental (acs ! a) None b c lns pnd pd sp"
  have n: "map ac_next (acs[a := e]) = map ac_next acs" by (rule map_next_upd) (simp add: e_def)
  have "col_walk (acs[a := e]) (ac_next e) = Some ws" using j(3) col_walk_cong [OF n] by (simp add: e_def)
  then obtain acs' m' where "oc_lay_walk c lns pnd pd sp (acs[a := e]) (ac_next e) (Some e) (min m (ac_x e)) = Some (acs', m')"
      "map ac_next acs' = map ac_next (acs[a := e])"
    using Cons.IH by blast
  then show ?case using j n by (subst oc_lay_walk.simps) (simp add: e_def [symmetric])
qed

lemma oc_align_walk_Some:
  "col_walk acs j = Some ws \<Longrightarrow>
   \<exists>acs'. oc_align_walk mx acs j = Some acs' \<and> map ac_next acs' = map ac_next acs"
proof (induction ws arbitrary: acs j)
  case Nil
  then show ?case by (simp add: col_walk_Nil_iff oc_align_walk.simps)
next
  case (Cons a ws)
  then have j: "j = int a" "a < length acs" "col_walk acs (ac_next (acs ! a)) = Some ws"
    by (simp_all add: col_walk_Cons_iff)
  have n: "map ac_next (acs[a := (acs ! a)\<lparr>ac_x := mx\<rparr>]) = map ac_next acs" by (rule map_next_upd) simp
  have "col_walk (acs[a := (acs ! a)\<lparr>ac_x := mx\<rparr>]) (ac_next (acs ! a)) = Some ws"
    using j(3) col_walk_cong [OF n] by simp
  then obtain acs' where "oc_align_walk mx (acs[a := (acs ! a)\<lparr>ac_x := mx\<rparr>]) (ac_next (acs ! a)) = Some acs'"
      "map ac_next acs' = map ac_next (acs[a := (acs ! a)\<lparr>ac_x := mx\<rparr>])"
    using Cons.IH by blast
  moreover obtain acs'' where "oc_align_walk mx acs (ac_next (acs ! a)) = Some acs''"
      "map ac_next acs'' = map ac_next acs"
    using Cons.IH [OF j(3)] by blast
  ultimately show ?case using j n by (subst oc_align_walk.simps) (simp add: Let_def)
qed

lemma oc_lay_cols_Some:
  "\<forall>pc\<in>set cols. \<exists>ws. col_walk acs (cb ! pc) = Some ws \<Longrightarrow>
   \<exists>acs' c' m'. oc_lay_cols lns pnd pd sp cb cols (acs, c, m) = Some (acs', c', m')"
proof (induction cols arbitrary: acs c m)
  case (Cons pc cols)
  obtain ws where w: "col_walk acs (cb ! pc) = Some ws" using Cons.prems by auto
  obtain acs1 m1 where l: "oc_lay_walk c lns pnd pd sp acs (cb ! pc) None m = Some (acs1, m1)"
      "map ac_next acs1 = map ac_next acs"
    using oc_lay_walk_Some [OF w] by blast
  obtain acs2 where a: "oc_align_walk m1 acs1 (cb ! pc) = Some acs2" "map ac_next acs2 = map ac_next acs1"
    using oc_align_walk_Some [of acs1 "cb ! pc" ws m1] w col_walk_cong [OF l(2)] by auto
  have "\<forall>p\<in>set cols. \<exists>ws. col_walk acs2 (cb ! p) = Some ws"
    using Cons.prems col_walk_cong [of acs2 acs] a(2) l(2) by simp
  then show ?case using Cons.IH l a by simp
qed simp


subsection \<open>The lists \<open>layoutChords3\<close> builds\<close>

lemma ac_collect_fold_lines:
  "list_all (\<lambda>e. -700 \<le> ac_line e) acs \<Longrightarrow> list_all (\<lambda>n. -700 \<le> an_line n) ns \<Longrightarrow>
   list_all (\<lambda>e. -700 \<le> ac_line e) (fst (foldl (ac_collect_step sp lines) (acs, cb) ns))"
proof (induction ns arbitrary: acs cb)
  case (Cons n ns)
  have "list_all (\<lambda>e. -700 \<le> ac_line e) (fst (ac_collect_step sp lines (acs, cb) n))"
    using Cons.prems by (auto simp: Let_def split: option.splits)
  then show ?case using Cons.IH [of "fst (ac_collect_step sp lines (acs, cb) n)" "snd (ac_collect_step sp lines (acs, cb) n)"]
    Cons.prems by simp
qed simp

lemma ac_collect_ok:
  assumes "ac_collect sp lines nts = (acs, cb)" "list_all (\<lambda>n. -700 \<le> an_line n) nts"
  shows "ac_links_ok acs cb" "\<forall>e\<in>set acs. ac_pc e < 7"
proof -
  have "ac_links_ok [] (replicate 7 (-1))" by (simp add: ac_links_ok_def col_last_def)
  then show "ac_links_ok acs cb"
    using ac_collect_fold_ok [of "[]" "replicate 7 (-1)" "rev nts" sp lines] assms by (simp add: ac_collect_def)
  have "list_all (\<lambda>e. -700 \<le> ac_line e) acs"
    using ac_collect_fold_lines [of "[]" "rev nts" sp lines "replicate 7 (-1)"] assms by (simp add: ac_collect_def)
  then show "\<forall>e\<in>set acs. ac_pc e < 7" by (simp add: list_all_iff ac_pc_lt)
qed



lemma oc_seq_mset: "i \<le> Suc n \<Longrightarrow> mset (oc_seq i n) = mset [i..<Suc n]"
proof (induction i n rule: oc_seq.induct)
  case (1 i n)
  show ?case
  proof (cases "n < i")
    case True
    then show ?thesis using "1.prems" by (simp add: oc_seq.simps [of i n])
  next
    case ni: False
    show ?thesis
    proof (cases "i = n")
      case True
      then show ?thesis by (simp add: oc_seq.simps [of n n])
    next
      case False
      then have "mset (oc_seq (Suc i) (n - 1)) = mset [Suc i..<n]" using "1.IH" ni by simp
      moreover have "[i..<Suc n] = i # [Suc i..<n] @ [n]" using False ni by (simp add: upt_conv_Cons)
      ultimately show ?thesis using False ni by (simp add: oc_seq.simps [of i n])
    qed
  qed
qed

lemma oc_seq_all: "0 < k \<Longrightarrow> mset (oc_seq 0 (k - 1)) = mset [0..<k]"
  using oc_seq_mset [of 0 "k - 1"] by (cases k) simp_all


text \<open>The classification: \<open>oc_matched\<close> is the test of the loop.\<close>

lemma oc_class_fold:
  "foldl (oc_class_step acs cb ct) (col0, um0) xs = (col, um) \<Longrightarrow> distinct col0 \<Longrightarrow>
   distinct col \<and>
   set col = set col0 \<union> {ac_pc (acs ! i) |i. i \<in> set xs \<and>
        ac_line (acs ! nat (ct ! ac_pc (acs ! i))) \<noteq> ac_line (acs ! nat (cb ! ac_pc (acs ! i)))} \<and>
   um = um0 @ filter (\<lambda>i. ac_line (acs ! nat (ct ! ac_pc (acs ! i))) = ac_line (acs ! nat (cb ! ac_pc (acs ! i)))) xs"
proof (induction xs arbitrary: col0 um0)
  case (Cons x xs)
  let ?s = "oc_class_step acs cb ct (col0, um0) x"
  have d: "distinct (fst ?s)" using Cons.prems(2) by (auto simp: oc_class_step_def Let_def)
  have f: "foldl (oc_class_step acs cb ct) (fst ?s, snd ?s) xs = (col, um)" using Cons.prems(1) by simp
  show ?case using Cons.IH [OF f d] by (auto simp: oc_class_step_def Let_def split: if_splits)
qed simp




text \<open>The column of pitch class \<open>p\<close> on a list of \<open>n\<close> accidentals, from the bottom up.\<close>

lemma ac_collect_walks:
  assumes "ac_collect sp lines nts = (acs, cb)" "list_all (\<lambda>n. -700 \<le> an_line n) nts" "p < 7"
  shows "p < length cb \<and> col_walk acs (cb ! p) = Some (rev (filter (\<lambda>j. ac_pc (acs ! j) = p) [0..<length acs]))"
proof -
  have ok: "ac_links_ok acs cb" using ac_collect_ok(1) [OF assms(1,2)] .
  then have "cb ! p = col_last (take (length acs) acs) p" "length cb = 7" using assms(3) by (simp_all add: ac_links_ok_def)
  moreover have "col_walk acs (col_last (take (length acs) acs) p) = Some (rev (filter (\<lambda>j. ac_pc (acs ! j) = p) [0..<length acs]))"
    using ok by (intro col_walk_class) (simp_all add: ac_links_ok_def)
  ultimately show ?thesis using assms(3) by simp
qed


lemma oc_classify_facts:
  assumes "oc_classify acs cb ct = (column, unmatched)" "acs \<noteq> []"
  shows "distinct column" "distinct unmatched" "\<forall>u\<in>set unmatched. u < length acs"
    "\<forall>pc\<in>set column. \<exists>i<length acs. ac_pc (acs ! i) = pc"
    "\<forall>u\<in>set unmatched. ac_pc (acs ! u) \<notin> set column"
    "mset unmatched = filter_mset (\<lambda>j. ac_pc (acs ! j) \<notin> set column) (mset [0..<length acs])"
proof -
  let ?cond = "\<lambda>i. ac_line (acs ! nat (ct ! ac_pc (acs ! i))) \<noteq> ac_line (acs ! nat (cb ! ac_pc (acs ! i)))"
  have seq: "mset (oc_seq 0 (length acs - 1)) = mset [0..<length acs]" using oc_seq_all assms(2) by simp
  then have sset: "set (oc_seq 0 (length acs - 1)) = {..<length acs}" by (metis set_mset_mset set_upt atLeast_upt)
  have dseq: "distinct (oc_seq 0 (length acs - 1))" using seq by (metis distinct_upt mset_eq_imp_distinct_iff)
  have f: "distinct column \<and> set column = {ac_pc (acs ! i) |i. i \<in> set (oc_seq 0 (length acs - 1)) \<and> ?cond i} \<and>
           unmatched = filter (\<lambda>i. \<not> ?cond i) (oc_seq 0 (length acs - 1))"
    using oc_class_fold [of acs cb ct "[]" "[]" "oc_seq 0 (length acs - 1)" column unmatched] assms(1)
    unfolding oc_classify_def by simp
  show "distinct column" using f by simp
  show "distinct unmatched" using f dseq by simp
  show "\<forall>u\<in>set unmatched. u < length acs" using f sset by auto
  show "\<forall>pc\<in>set column. \<exists>i<length acs. ac_pc (acs ! i) = pc" using f sset by auto
  have col: "\<And>j. j < length acs \<Longrightarrow> ac_pc (acs ! j) \<in> set column \<longleftrightarrow> ?cond j"
  proof
    fix j assume "j < length acs" "?cond j"
    then show "ac_pc (acs ! j) \<in> set column" using f sset by auto
  next
    fix j assume "ac_pc (acs ! j) \<in> set column"
    then obtain i where "ac_pc (acs ! i) = ac_pc (acs ! j)" "?cond i" using f by auto
    then show "?cond j" by simp
  qed
  show "\<forall>u\<in>set unmatched. ac_pc (acs ! u) \<notin> set column" using f sset col by auto
  have "mset unmatched = filter_mset (\<lambda>i. \<not> ?cond i) (mset [0..<length acs])" using f seq by simp
  also have "\<dots> = filter_mset (\<lambda>j. ac_pc (acs ! j) \<notin> set column) (mset [0..<length acs])"
    using col by (intro filter_mset_cong) auto
  finally show "mset unmatched = filter_mset (\<lambda>j. ac_pc (acs ! j) \<notin> set column) (mset [0..<length acs])" .
qed


lemma oc_init_inv:
  assumes "ac_collect sp lines nts = (acs, cb)" "list_all (\<lambda>n. -700 \<le> an_line n) nts"
    "oc_classify acs cb ct = (column, unmatched)" "acs \<noteq> []"
  shows "oc_inv acs cb column (\<lambda>p. rev (filter (\<lambda>j. ac_pc (acs ! j) = p) [0..<length acs])) unmatched"
proof -
  note cf = oc_classify_facts [OF assms(3,4)]
  have pc7: "\<forall>pc\<in>set column. pc < 7"
    using cf(4) ac_collect_ok(2) [OF assms(1,2)] by (metis nth_mem)
  have "\<forall>pc\<in>set column. pc < length cb \<and>
          col_walk acs (cb ! pc) = Some (rev (filter (\<lambda>j. ac_pc (acs ! j) = pc) [0..<length acs]))"
    using ac_collect_walks [OF assms(1,2)] pc7 by blast
  then show ?thesis unfolding oc_inv_def using cf(1,2,3,5) by auto
qed

lemma those_map_Some: "\<forall>x\<in>set xs. f x \<noteq> None \<Longrightarrow> \<exists>ys. those (map f xs) = Some ys"
  by (induction xs) auto

lemma oc_tops_Some:
  assumes "ac_collect sp lines nts = (acs, cb)" "list_all (\<lambda>n. -700 \<le> an_line n) nts"
  shows "\<exists>ct. oc_tops acs cb = Some ct"
proof -
  have l: "length cb = 7" using ac_collect_ok(1) [OF assms] by (simp add: ac_links_ok_def)
  have "\<forall>x\<in>set cb. oc_top acs x \<noteq> None"
  proof
    fix x assume "x \<in> set cb"
    then obtain p where "p < 7" "x = cb ! p" using l by (metis in_set_conv_nth)
    then show "oc_top acs x \<noteq> None" using ac_collect_walks [OF assms] by (auto simp: oc_top_def)
  qed
  then show ?thesis unfolding oc_tops_def by (rule those_map_Some)
qed

lemma filter_mset_classes:
  "distinct cs \<Longrightarrow>
   sum_list (map (\<lambda>c. filter_mset (\<lambda>j. f j = c) M) cs) + filter_mset (\<lambda>j. f j \<notin> set cs) M = M"
proof (induction cs)
  case (Cons c cs)
  have "filter_mset (\<lambda>j. f j \<notin> set cs) M =
        filter_mset (\<lambda>j. f j = c) M + filter_mset (\<lambda>j. f j \<notin> set (c # cs)) M"
    using Cons.prems by (auto simp: multiset_eq_iff)
  then show ?case using Cons by (simp add: ac_simps)
qed simp

lemma mset_concat_map: "mset (concat (map W cs)) = sum_list (map (\<lambda>p. mset (W p)) cs)"
  by (induction cs) simp_all


text \<open>
  The alignment of a column: an accidental of the column moves to \<open>minX\<close> unless the
  next one up is on its line; the others keep their place.
\<close>

lemma oc_align_walk_x:
  "col_walk acs j = Some ws \<Longrightarrow> oc_align_walk mx acs j = Some acs' \<Longrightarrow> k < length acs \<Longrightarrow>
   ac_x (acs' ! k) =
     (if k \<in> set ws \<and> \<not> (ac_next (acs ! k) \<noteq> -1 \<and> ac_line (acs ! k) = ac_line (acs ! nat (ac_next (acs ! k))))
      then mx else ac_x (acs ! k))"
proof (induction ws arbitrary: acs j)
  case Nil
  then show ?case by (simp add: col_walk_Nil_iff oc_align_walk.simps)
next
  case (Cons a ws)
  then have j: "j = int a" "a < length acs" "col_walk acs (ac_next (acs ! a)) = Some ws"
    by (simp_all add: col_walk_Cons_iff)
  have d: "a \<notin> set ws" using col_walk_distinct [OF Cons.prems(1)] by simp
  show ?case
  proof (cases "ac_next (acs ! a) \<noteq> -1 \<and> ac_line (acs ! a) = ac_line (acs ! nat (ac_next (acs ! a)))")
    case True
    then have "oc_align_walk mx acs (ac_next (acs ! a)) = Some acs'"
      using Cons.prems(2) j by (subst (asm) oc_align_walk.simps) simp
    then show ?thesis using Cons.IH [OF j(3) _ Cons.prems(3)] True d by auto
  next
    case False
    define acs1 where "acs1 = acs[a := (acs ! a)\<lparr>ac_x := mx\<rparr>]"
    have n: "map ac_next acs1 = map ac_next acs" unfolding acs1_def by (rule map_next_upd) simp
    have l: "map ac_line acs1 = map ac_line acs" unfolding acs1_def
      using j(2) list_update_id [of "map ac_line acs" a] by (simp add: map_update)
    have w1: "col_walk acs1 (ac_next (acs ! a)) = Some ws" using j(3) col_walk_cong [OF n] by simp
    have "oc_align_walk mx acs1 (ac_next (acs ! a)) = Some acs'"
      using Cons.prems(2) j False by (subst (asm) oc_align_walk.simps) (simp add: acs1_def Let_def)
    then have IH: "ac_x (acs' ! k) =
      (if k \<in> set ws \<and> \<not> (ac_next (acs1 ! k) \<noteq> -1 \<and> ac_line (acs1 ! k) = ac_line (acs1 ! nat (ac_next (acs1 ! k))))
       then mx else ac_x (acs1 ! k))"
      using Cons.IH [OF w1] Cons.prems(3) by (simp add: acs1_def)
    have eqs: "\<And>i. i < length acs \<Longrightarrow> ac_next (acs1 ! i) = ac_next (acs ! i) \<and> ac_line (acs1 ! i) = ac_line (acs ! i)"
      using n l by (metis length_map nth_map)
    have ll: "length acs1 = length acs" by (simp add: acs1_def)
    show ?thesis
    proof (cases "k = a")
      case True
      then show ?thesis using IH d False j(2) by (simp add: acs1_def)
    next
      case ka: False
      have "ac_line (acs1 ! nat (ac_next (acs1 ! k))) = ac_line (acs ! nat (ac_next (acs ! k)))"
        using eqs [OF Cons.prems(3)] l ll by (metis nth_map nth_list_update_neq acs1_def
            list_update_beyond not_less)
      then show ?thesis using IH ka eqs [OF Cons.prems(3)] by (auto simp: acs1_def)
    qed
  qed
qed

text \<open>
  C3: the accidental layout of \<open>layoutChords3\<close> returns on every list of accidentals its
  note loop builds (lines at least \<open>-700\<close>): every walk along the \<open>next\<close> links of
  the octave columns, before and after the unmatched accidentals are linked in, reaches
  the end of its column.
\<close>

theorem lc3_accidentals_total:
  assumes "ac_collect sp lines nts = (acs, cb)" "list_all (\<lambda>n. -700 \<le> an_line n) nts"
  shows "\<exists>acs'. lc3_accidentals lns pnd pd sp' acs cb = Some acs'"
proof (cases "acs = [] \<or> \<not> (2 \<le> length acs \<and> 7 \<le> ac_line (acs ! (length acs - 1)) - ac_line (acs ! 0))")
  case True
  then show ?thesis by (auto simp: lc3_accidentals_def Let_def)
next
  case False
  then have ne: "acs \<noteq> []" and oct: "2 \<le> length acs \<and> 7 \<le> ac_line (acs ! (length acs - 1)) - ac_line (acs ! 0)"
    by simp_all
  obtain ct where ct: "oc_tops acs cb = Some ct" using oc_tops_Some [OF assms] by blast
  obtain column unmatched where cl: "oc_classify acs cb ct = (column, unmatched)" by fastforce
  obtain acs1 cb1 ct1 umi W' where m: "oc_match pd column (acs, cb, ct, []) unmatched = Some (acs1, cb1, ct1, umi)"
      "oc_inv acs1 cb1 column W' []"
    using oc_match_inv [OF oc_init_inv [OF assms cl ne], of pd ct "[]"] by blast
  have "\<forall>pc\<in>set column. \<exists>ws. col_walk acs1 (cb1 ! pc) = Some ws" using m(2) by (auto simp: oc_inv_def)
  then obtain acs2 c2 m2 where "oc_lay_cols lns pnd pd sp' cb1 column (acs1, 0, 0) = Some (acs2, c2, m2)"
    using oc_lay_cols_Some by blast
  then show ?thesis using ne oct ct cl m(1) by (simp add: lc3_accidentals_def Let_def)
qed

text \<open>
  C14: in the octave branch every accidental is laid out exactly once: after the
  unmatched accidentals are slotted, the accidentals reached from the bottoms of the
  columns and those left for the zig-zag (\<open>umi\<close>) are, together, each accidental once.
\<close>

theorem oc_match_partition:
  assumes "ac_collect sp lines nts = (acs, cb)" "list_all (\<lambda>n. -700 \<le> an_line n) nts" "acs \<noteq> []"
    "oc_classify acs cb ct = (column, unmatched)"
    "oc_match pd column (acs, cb, ct, []) unmatched = Some (acs1, cb1, ct1, umi)"
  shows "\<exists>W. (\<forall>pc\<in>set column. col_walk acs1 (cb1 ! pc) = Some (W pc)) \<and>
             mset (concat (map W column) @ umi) = mset [0..<length acs]"
proof -
  let ?W = "\<lambda>p. rev (filter (\<lambda>j. ac_pc (acs ! j) = p) [0..<length acs])"
  obtain acs' cb' ct' umi' W' where r: "oc_match pd column (acs, cb, ct, []) unmatched = Some (acs', cb', ct', umi')"
      "oc_inv acs' cb' column W' []"
      "sum_list (map (\<lambda>p. mset (W' p)) column) + mset umi' =
         sum_list (map (\<lambda>p. mset (?W p)) column) + mset [] + mset unmatched"
    using oc_match_inv [OF oc_init_inv [OF assms(1,2,4,3)], of pd ct "[]"] by blast
  have eq: "acs' = acs1" "cb' = cb1" "umi' = umi" using r(1) assms(5) by simp_all
  note cf = oc_classify_facts [OF assms(4,3)]
  have "sum_list (map (\<lambda>p. mset (?W p)) column) + mset unmatched = mset [0..<length acs]"
    using filter_mset_classes [OF cf(1), of "\<lambda>j. ac_pc (acs ! j)" "mset [0..<length acs]"] cf(6)
    by (simp add: mset_filter)
  then show ?thesis using r(2,3) eq
    by (intro exI [of _ W']) (auto simp: oc_inv_def mset_concat_map)
qed

text \<open>
  Accidentals on lines 0, 3 and 7 (two a seventh apart share pitch class 0): the octave
  pair forms a column, aligned at \<open>-5/4\<close>; the accidental on line 3 does not fit
  between them and is laid out by the zig-zag left of the column.
\<close>

lemma lc3_accidentals_example:
  "map ac_x (the (lc3_accidentals [] (1 / 4) (1 / 5) 1 (fst (ac_collect 1 5 ex_notes)) (snd (ac_collect 1 5 ex_notes))))
   = [- 5 / 4, - 49 / 20, - 5 / 4]"
  by (simp add: ac_collect_def ex_notes_def ac_pc_def mk_acel_def cxx_mod_def numeral_eq_Suc ex_sharp_def
      lc3_accidentals_def oc_tops_def oc_top_def col_walk.simps oc_classify_def oc_class_step_def oc_seq.simps
      oc_slot.simps oc_lay_walk.simps oc_align_walk.simps layoutAccidental_def Let_def resolveAccidentals_def
      zz_layout_def zz_schedule_def)

theorem lc3_accidentals_total_witness:
  "list_all (\<lambda>n. -700 \<le> an_line n) ex_notes \<and>
   (\<exists>acs'. lc3_accidentals [] (1 / 4) (1 / 5) 1 (fst (ac_collect 1 5 ex_notes)) (snd (ac_collect 1 5 ex_notes)) = Some acs')"
proof -
  have h: "list_all (\<lambda>n. -700 \<le> an_line n) ex_notes" by (simp add: ex_notes_def)
  have c: "ac_collect 1 5 ex_notes = (fst (ac_collect 1 5 ex_notes), snd (ac_collect 1 5 ex_notes))" by simp
  show ?thesis using lc3_accidentals_total [OF c h, of "[]" "1 / 4" "1 / 5" 1] h by simp
qed


lemmas ex_oc_eval = ac_collect_def ex_notes_def ac_pc_def mk_acel_def cxx_mod_def numeral_eq_Suc ex_sharp_def
      oc_classify_def oc_class_step_def oc_seq.simps oc_slot.simps Let_def

theorem oc_match_partition_witness:
  "list_all (\<lambda>n. -700 \<le> an_line n) ex_notes \<and> fst (ac_collect 1 5 ex_notes) \<noteq> [] \<and>
   oc_classify (fst (ac_collect 1 5 ex_notes)) (snd (ac_collect 1 5 ex_notes)) [0, -1, -1, 1, -1, -1, -1] = ([0], [1]) \<and>
   oc_match (1 / 5) [0] (fst (ac_collect 1 5 ex_notes), snd (ac_collect 1 5 ex_notes), [0, -1, -1, 1, -1, -1, -1], []) [1] =
     Some (fst (ac_collect 1 5 ex_notes), snd (ac_collect 1 5 ex_notes), [0, -1, -1, 1, -1, -1, -1], [1]) \<and>
   (\<exists>W. col_walk (fst (ac_collect 1 5 ex_notes)) (snd (ac_collect 1 5 ex_notes) ! 0) = Some (W (0::nat)) \<and>
        mset (W 0 @ [1]) = mset [0..<3])"
proof -
  have h: "list_all (\<lambda>n. -700 \<le> an_line n) ex_notes" by (simp add: ex_notes_def)
  have c: "ac_collect 1 5 ex_notes = (fst (ac_collect 1 5 ex_notes), snd (ac_collect 1 5 ex_notes))" by simp
  have ne: "fst (ac_collect 1 5 ex_notes) \<noteq> []" "length (fst (ac_collect 1 5 ex_notes)) = 3"
    by (simp_all add: ex_oc_eval)
  have cl: "oc_classify (fst (ac_collect 1 5 ex_notes)) (snd (ac_collect 1 5 ex_notes)) [0, -1, -1, 1, -1, -1, -1] = ([0], [1])"
    by (simp add: ex_oc_eval)
  have m: "oc_match (1 / 5) [0] (fst (ac_collect 1 5 ex_notes), snd (ac_collect 1 5 ex_notes), [0, -1, -1, 1, -1, -1, -1], []) [1] =
     Some (fst (ac_collect 1 5 ex_notes), snd (ac_collect 1 5 ex_notes), [0, -1, -1, 1, -1, -1, -1], [1])"
    by (simp add: ex_oc_eval)
  obtain W where w: "\<forall>pc\<in>set [0]. col_walk (fst (ac_collect 1 5 ex_notes)) (snd (ac_collect 1 5 ex_notes) ! pc) = Some (W pc)"
      "mset (concat (map W [0]) @ [1]) = mset [0..<length (fst (ac_collect 1 5 ex_notes))]"
    using oc_match_partition [OF c h ne(1) cl m] by blast
  have "col_walk (fst (ac_collect 1 5 ex_notes)) (snd (ac_collect 1 5 ex_notes) ! 0) = Some (W 0) \<and>
        mset (W 0 @ [1]) = mset [0..<3]"
    using w ne(2) by simp
  then show ?thesis using h ne cl m by blast
qed

end
