(* ===== verification/Pages.thy ===== *)
theory Pages
  imports Collect_Page
begin

text \<open>
  The page and system lists of \<open>src/libmscore/layout.cpp\<close>: \<open>Score::addPage\<close>,
  \<open>Score::getEmptyPage\<close> (reuse or append a page, number and place it),
  \<open>Score::getNextSystem\<close> (reuse or create a system and give it one staff per staff of
  the score), \<open>checkDivider\<close> and the divider pass of \<open>layoutPage\<close>, and the page
  list \<open>doLayout\<close> leaves: the pages of the page loop of \<open>Collect_Page\<close>, placed
  one after the other, the pages left from an earlier layout removed.  Pages and systems
  are values; the score's \<open>_pages\<close> and \<open>_systems\<close> are lists of them.
\<close>

subsection \<open>Pages\<close>

text \<open>A page: its number, position and systems with their \<open>y\<close>.\<close>

record 's page =
  pg_no :: nat
  pg_x :: qreal
  pg_y :: qreal
  pg_systems :: "('s \<times> qreal) list"

text \<open>
  What the placement of pages reads: the page size (\<open>page->layout()\<close>),
  \<open>MScore::verticalOrientation()\<close>, \<open>MScore::verticalPageGap\<close>,
  \<open>horizontalPageGapOdd\<close> and \<open>Even\<close>, and the score's \<open>_pageNumberOffset\<close>.
\<close>

record page_geom =
  pgg_width :: qreal
  pgg_height :: qreal
  pgg_vertical :: bool
  pgg_vgap :: qreal
  pgg_hgap_odd :: qreal
  pgg_hgap_even :: qreal
  pgg_no_offset :: int

text \<open>The part of \<open>LayoutContext\<close> the page code keeps: \<open>curPage\<close>, \<open>pageOldSystem\<close>.\<close>

record 's page_lc =
  plc_cur_page :: nat
  plc_page_old_system :: "'s option"

definition new_page :: "nat \<Rightarrow> 's page" where
  "new_page n = \<lparr>pg_no = n, pg_x = 0, pg_y = 0, pg_systems = []\<rparr>"

text \<open>\<open>Score::addPage()\<close>: a new page numbered with the list's length, appended.\<close>

definition addPage :: "'s page list \<Rightarrow> 's page list" where
  "addPage pages = pages @ [new_page (length pages)]"

text \<open>
  \<open>Score::getEmptyPage(lc)\<close>: the page at \<open>curPage\<close>, or a new one past the end; its
  number is \<open>curPage\<close>, it is placed after the previous page (below it, or right of it
  with the gap for the parity of its number), and its systems are cleared.  The result
  holds the index of the page.
\<close>

definition getEmptyPage :: "page_geom \<Rightarrow> 's page list \<Rightarrow> 's page_lc \<Rightarrow> 's page list \<times> 's page_lc \<times> nat" where
  "getEmptyPage pg pages lc =
     (let cur = plc_cur_page lc;
          (pages1, idx, old) = (if length pages \<le> cur then (addPage pages, length pages, None)
                                else (pages, cur, if pg_systems (pages ! cur) = [] then None
                                                  else Some (fst (last (pg_systems (pages ! cur))))));
          (x, y) = (if pgg_vertical pg then
                      (0, if cur = 0 then 0 else pg_y (pages1 ! (cur - 1)) + pgg_height pg + pgg_vgap pg)
                    else
                      (if cur = 0 then 0
                       else pg_x (pages1 ! (cur - 1)) + pgg_width pg +
                            (if odd (int cur + pgg_no_offset pg) then pgg_hgap_odd pg else pgg_hgap_even pg), 0))
      in (pages1[idx := (pages1 ! idx)\<lparr>pg_no := cur, pg_x := x, pg_y := y, pg_systems := []\<rparr>],
          lc\<lparr>plc_cur_page := Suc cur, plc_page_old_system := old\<rparr>, idx))"

text \<open>
  One round of \<open>while (collectPage(lc))\<close> on the page list: \<open>getEmptyPage\<close>, then the
  systems \<open>collectPage\<close> appends to the page, at the positions \<open>layoutPage\<close> gives.
\<close>

definition dl_page :: "page_geom \<Rightarrow> 's page list \<times> 's page_lc \<Rightarrow> ('s \<times> qreal) list \<Rightarrow> 's page list \<times> 's page_lc" where
  "dl_page pg st placed =
     (let (pages1, lc1, idx) = getEmptyPage pg (fst st) (snd st)
      in (pages1[idx := (pages1 ! idx)\<lparr>pg_systems := placed\<rparr>], lc1))"

text \<open>\<open>while (_pages.size() > lc.curPage) _pages.takeLast();\<close>\<close>

function dl_trim :: "'s page list \<Rightarrow> nat \<Rightarrow> 's page list" where
  "dl_trim pages cur = (if cur < length pages then dl_trim (butlast pages) cur else pages)"
  by pat_completeness auto
termination by (relation "measure (\<lambda>(pages, cur). length pages)") auto

text \<open>
  The page list \<open>doLayout\<close> leaves, from the score's earlier pages: for an empty score
  one page, numbered 0 at the origin; otherwise the pages of the page loop over the
  systems \<open>collectSystem\<close> makes (\<open>Collect_Page.layout_pages\<close>), from
  \<open>curPage = 0\<close>, and the pages left over removed.
\<close>

definition doLayout_pages ::
  "cs_style \<Rightarrow> (mbase \<times> qreal \<times> qreal) list cp_style \<Rightarrow> page_geom \<Rightarrow>
   (mbase \<times> qreal \<times> qreal) list page list \<Rightarrow> mbase list \<Rightarrow> (mbase \<times> qreal \<times> qreal) list page list option" where
  "doLayout_pages sty psty pg pages0 ms =
     (if ms = [] then Some [new_page 0]
      else Option.bind (layout_pages psty (systems_of sty ms)) (\<lambda>pls.
             let (pages, lc) = foldl (dl_page pg) (pages0, \<lparr>plc_cur_page = 0, plc_page_old_system = None\<rparr>) pls
             in Some (dl_trim pages (plc_cur_page lc))))"

subsection \<open>Systems\<close>

text \<open>
  A system: its staves (\<open>SysStaff\<close> values of type \<open>'st\<close>) and its measures
  (identified by number).  \<open>sys_lc\<close> is the part of \<open>LayoutContext\<close> and the score
  that \<open>getNextSystem\<close> touches: \<open>systemList\<close> (systems of an earlier layout, to be
  reused), the score's \<open>_systems\<close>, \<open>systemOldMeasure\<close> and \<open>curSystem\<close>.
\<close>

record 'st system =
  sys_staves :: "'st list"
  sys_measures :: "nat list"

record 'st sys_lc =
  slc_system_list :: "'st system list"
  slc_systems :: "'st system list"
  slc_system_old_measure :: "nat option"
  slc_cur_system :: "'st system option"

definition new_system :: "'st system" where
  "new_system = \<lparr>sys_staves = [], sys_measures = []\<rparr>"

text \<open>\<open>for (int i = system->staves()->size(); i < nstaves; ++i) system->insertStaff(i);\<close>\<close>

function gns_insert :: "'st \<Rightarrow> nat \<Rightarrow> nat \<Rightarrow> 'st list \<Rightarrow> 'st list" where
  "gns_insert ns n i xs = (if i < n then gns_insert ns n (Suc i) (take i xs @ ns # drop i xs) else xs)"
  by pat_completeness auto
termination by (relation "measure (\<lambda>(ns, n, i, xs). n - i)") auto

text \<open>\<open>for (int i = 0; i < dn; ++i) system->removeStaff(system->staves()->size()-1);\<close>\<close>

fun gns_remove :: "nat \<Rightarrow> 'st list \<Rightarrow> 'st list" where
  "gns_remove 0 xs = xs"
| "gns_remove (Suc k) xs = gns_remove k (butlast xs)"

text \<open>
  \<open>Score::getNextSystem(lc)\<close>: the first system of \<open>systemList\<close> (its measures
  cleared, the last one remembered in \<open>systemOldMeasure\<close>) or a new one, appended to
  the score's systems; unless the current measure base is a vertical box, it gets as many
  staves as the score (new staves \<open>ns\<close> added at the end, surplus ones removed from the
  end).
\<close>

definition getNextSystem :: "bool \<Rightarrow> nat \<Rightarrow> 'st \<Rightarrow> 'st sys_lc \<Rightarrow> 'st sys_lc" where
  "getNextSystem isVBox nstaves ns lc =
     (let (system, rest, old) = (case slc_system_list lc of
                                   [] \<Rightarrow> (new_system, [], None)
                                 | s # ss \<Rightarrow> (s\<lparr>sys_measures := []\<rparr>, ss,
                                              if sys_measures s = [] then None else Some (last (sys_measures s))));
          system' = (if isVBox then system
                     else let st1 = gns_insert ns nstaves (length (sys_staves system)) (sys_staves system);
                              dn = int (length st1) - int nstaves
                          in system\<lparr>sys_staves := gns_remove (nat dn) st1\<rparr>)
      in lc\<lparr>slc_system_list := rest, slc_systems := slc_systems lc @ [system'],
            slc_system_old_measure := old, slc_cur_system := Some system'\<rparr>)"

subsection \<open>System dividers\<close>

record divider =
  dv_left :: bool
  dv_generated :: bool
  dv_y :: qreal

text \<open>
  \<open>checkDivider(left, s, sdd)\<close> on the system's left or right divider: with the style
  \<open>dividerLeft\<close> / \<open>dividerRight\<close> on, the divider (a new generated one if there is
  none) is placed at half its height \<open>dh\<close> below \<open>sdd\<close>; with the style off a
  generated divider is deleted and a user's one removed through the undo stack (the flag).
\<close>

definition checkDivider :: "bool \<Rightarrow> bool \<Rightarrow> bool \<Rightarrow> qreal \<Rightarrow> qreal \<Rightarrow> divider option \<Rightarrow> divider option \<times> bool" where
  "checkDivider left styleLeft styleRight dh sdd dv =
     (if (if left then styleLeft else styleRight) then
        let d = (case dv of None \<Rightarrow> \<lparr>dv_left = left, dv_generated = True, dv_y = 0\<rparr> | Some d \<Rightarrow> d)
        in (Some (d\<lparr>dv_y := dh * 0.5 + sdd\<rparr>), False)
      else case dv of
             None \<Rightarrow> (None, False)
           | Some d \<Rightarrow> (None, \<not> dv_generated d))"

text \<open>
  The divider part of the stretch loop of \<open>layoutPage\<close>, on the systems at their final
  positions with their (left, right) dividers: after each stretchable gap both dividers of
  the system above it are checked, at the middle \<open>sdd\<close> of the gap.  The count is the
  number of dividers removed through the undo stack.
\<close>

fun lpd_loop ::
  "'s cp_style \<Rightarrow> bool \<Rightarrow> bool \<Rightarrow> (bool \<Rightarrow> qreal) \<Rightarrow> ('s \<times> qreal) list \<Rightarrow>
   (divider option \<times> divider option) list \<Rightarrow> (divider option \<times> divider option) list \<times> nat" where
  "lpd_loop sty sL sR dh ((s1, y1) # (s2, y2) # rest) ((l, r) # ds) =
     (let (ds', u) = lpd_loop sty sL sR dh ((s2, y2) # rest) ds
      in if lp_stretchable sty s1 s2 then
           let h1 = ps_height (cp_geom sty s1);
               sdd = (y2 - y1 - h1) * 0.5 + h1;
               (l', ul) = checkDivider True sL sR (dh True) sdd l;
               (r', ur) = checkDivider False sL sR (dh False) sdd r
           in ((l', r') # ds', u + (if ul then 1 else 0) + (if ur then 1 else 0))
         else ((l, r) # ds', u))"
| "lpd_loop sty sL sR dh ps ds = (ds, 0)"

text \<open>
  The dividers after \<open>layoutPage(page, restHeight)\<close>: without stretching every divider
  of the page's systems is removed (\<open>s->remove(sd); delete sd;\<close>), otherwise the
  stretch loop checks them.
\<close>

definition layoutPage_dividers ::
  "'s cp_style \<Rightarrow> bool \<Rightarrow> bool \<Rightarrow> (bool \<Rightarrow> qreal) \<Rightarrow> ('s \<times> qreal) list \<Rightarrow> qreal \<Rightarrow>
   (divider option \<times> divider option) list \<Rightarrow> (divider option \<times> divider option) list \<times> nat" where
  "layoutPage_dividers sty sL sR dh placed restHeight ds =
     (if lp_gaps sty placed = 0 \<or> cp_no_vstretch sty \<or> cp_mode sty = LM_SYSTEM then (map (\<lambda>_. (None, None)) ds, 0)
      else lpd_loop sty sL sR dh (layoutPage sty placed restHeight) ds)"

subsection \<open>The page loop as a step relation\<close>

text \<open>
  One iteration of \<open>while (collectPage(lc))\<close> in \<open>doLayout\<close>: while systems are
  left, \<open>collectPage\<close> fills the next page (\<open>getEmptyPage\<close>, the systems that fit,
  \<open>layoutPage\<close>).  A state is the page list, the page part of \<open>LayoutContext\<close> and
  the systems not yet on a page.
\<close>

inductive dl_step :: "'s cp_style \<Rightarrow> page_geom \<Rightarrow> 's page list \<times> 's page_lc \<times> 's list \<Rightarrow>
    's page list \<times> 's page_lc \<times> 's list \<Rightarrow> bool" for sty pg where
  "collectPage sty ss = Some (placed, rest, rh) \<Longrightarrow>
   dl_step sty pg (pages, lc, ss) (fst (dl_page pg (pages, lc) (layoutPage sty placed rh)),
                                   snd (dl_page pg (pages, lc) (layoutPage sty placed rh)), rest)"

subsection \<open>Reference: where page \<open>i\<close> goes\<close>

fun pg_pos :: "page_geom \<Rightarrow> nat \<Rightarrow> qreal \<times> qreal" where
  "pg_pos pg 0 = (0, 0)"
| "pg_pos pg (Suc i) =
     (if pgg_vertical pg then (0, snd (pg_pos pg i) + pgg_height pg + pgg_vgap pg)
      else (fst (pg_pos pg i) + pgg_width pg +
            (if odd (int (Suc i) + pgg_no_offset pg) then pgg_hgap_odd pg else pgg_hgap_even pg), 0))"

definition pg_expected :: "page_geom \<Rightarrow> nat \<Rightarrow> ('s \<times> qreal) list \<Rightarrow> 's page" where
  "pg_expected pg i sys = \<lparr>pg_no = i, pg_x = fst (pg_pos pg i), pg_y = snd (pg_pos pg i), pg_systems = sys\<rparr>"


subsection \<open>Fixtures\<close>

text \<open>An A4 page in vertical orientation with a gap of 20 between pages.\<close>

definition ex_pg :: page_geom where
  "ex_pg = \<lparr>pgg_width = 595, pgg_height = 842, pgg_vertical = True, pgg_vgap = 20, pgg_hgap_odd = 0,
     pgg_hgap_even = 0, pgg_no_offset = 0\<rparr>"

subsection \<open>The page list\<close>

declare dl_trim.simps [simp del]

lemma page_upd_all [simp]:
  "(r :: 's page)\<lparr>pg_no := a, pg_x := b, pg_y := c, pg_systems := d\<rparr> =
   \<lparr>pg_no = a, pg_x = b, pg_y = c, pg_systems = d\<rparr>"
  by (cases r) simp

lemma getEmptyPage_at:
  assumes "length pages \<ge> plc_cur_page lc"
    "0 < plc_cur_page lc \<Longrightarrow> pages ! (plc_cur_page lc - 1) = pg_expected pg (plc_cur_page lc - 1) sys"
  shows "getEmptyPage pg pages lc =
    (let k = plc_cur_page lc;
         pages1 = (if length pages \<le> k then addPage pages else pages)
     in (pages1[k := pg_expected pg k []], lc\<lparr>plc_cur_page := Suc k,
         plc_page_old_system := (if length pages \<le> k \<or> pg_systems (pages ! k) = [] then None
                                 else Some (fst (last (pg_systems (pages ! k)))))\<rparr>, k))"
proof -
  let ?k = "plc_cur_page lc"
  have idx: "(if length pages \<le> ?k then length pages else ?k) = ?k" using assms(1) by simp
  have prev: "0 < ?k \<Longrightarrow> (if length pages \<le> ?k then addPage pages else pages) ! (?k - 1) = pg_expected pg (?k - 1) sys"
    using assms by (cases ?k) (auto simp: addPage_def nth_append)
  have len: "?k < length (if length pages \<le> ?k then addPage pages else pages)" using assms(1) by (auto simp: addPage_def)
  show ?thesis
    using idx prev len
    by (cases ?k) (auto simp: getEmptyPage_def Let_def pg_expected_def)
qed


lemma expected_upd_systems [simp]: "(pg_expected pg i sys)\<lparr>pg_systems := sys'\<rparr> = pg_expected pg i sys'"
  by (simp add: pg_expected_def)

lemma dl_fold:
  assumes "foldl (dl_page pg) (pages0, \<lparr>plc_cur_page = 0, plc_page_old_system = None\<rparr>) pls = (pages, lc)"
  shows "plc_cur_page lc = length pls \<and> length pages = max (length pages0) (length pls) \<and>
         (\<forall>i<length pls. pages ! i = pg_expected pg i (pls ! i)) \<and>
         (\<forall>i. length pls \<le> i \<and> i < length pages \<longrightarrow> pages ! i = pages0 ! i)"
  using assms
proof (induction pls arbitrary: pages lc rule: rev_induct)
  case Nil
  then show ?case by auto
next
  case (snoc x xs)
  obtain pages' lc' where f: "foldl (dl_page pg) (pages0, \<lparr>plc_cur_page = 0, plc_page_old_system = None\<rparr>) xs = (pages', lc')"
    by fastforce
  note IH = snoc.IH [OF f]
  let ?k = "length xs"
  have ge: "plc_cur_page lc' \<le> length pages'" using IH by simp
  have prev: "0 < plc_cur_page lc' \<Longrightarrow> pages' ! (plc_cur_page lc' - 1) = pg_expected pg (plc_cur_page lc' - 1) (xs ! (?k - 1))"
    using IH by simp
  define pages1 where "pages1 = (if length pages' \<le> ?k then addPage pages' else pages')"
  have g: "getEmptyPage pg pages' lc' = (pages1[?k := pg_expected pg ?k []],
     lc'\<lparr>plc_cur_page := Suc ?k, plc_page_old_system := (if length pages' \<le> ?k \<or> pg_systems (pages' ! ?k) = [] then None
                                 else Some (fst (last (pg_systems (pages' ! ?k)))))\<rparr>, ?k)"
    using getEmptyPage_at [OF ge prev] IH by (simp add: Let_def pages1_def)
  have l1: "?k < length pages1" using IH by (auto simp: pages1_def addPage_def)
  have "(pages, lc) = dl_page pg (pages', lc') x" using snoc.prems f by simp
  then have st: "pages = pages1[?k := pg_expected pg ?k x]" "plc_cur_page lc = Suc ?k"
    using g l1 by (simp_all add: dl_page_def)
  have same: "\<And>i. i < length pages' \<Longrightarrow> pages1 ! i = pages' ! i" by (simp add: pages1_def addPage_def nth_append)
  have len1: "length pages1 = max (length pages0) (Suc ?k)" using IH by (auto simp: pages1_def addPage_def)
  show ?case
  proof (intro conjI allI impI)
    show "plc_cur_page lc = length (xs @ [x])" using st by simp
    show "length pages = max (length pages0) (length (xs @ [x]))" using st len1 by simp
  next
    fix i assume "i < length (xs @ [x])"
    then show "pages ! i = pg_expected pg i ((xs @ [x]) ! i)"
      using st l1 IH same by (cases "i = ?k") (auto simp: nth_append)
  next
    fix i assume "length (xs @ [x]) \<le> i \<and> i < length pages"
    then show "pages ! i = pages0 ! i" using st IH same len1 by (auto simp: pages1_def addPage_def)
  qed
qed

lemma dl_trim_take: "dl_trim pages cur = take cur pages"
  by (induction pages cur rule: dl_trim.induct) (subst dl_trim.simps, auto simp: butlast_conv_take min_def)




text \<open>
  C35: \<open>doLayout\<close> leaves exactly the pages the page loop built: page \<open>i\<close> is numbered
  \<open>i\<close>, placed after page \<open>i - 1\<close>, and holds the \<open>i\<close>-th page's systems; the
  systems read page after page are the systems of the score; pages of an earlier layout
  beyond them are removed.
\<close>

theorem doLayout_pages_placed:
  "\<exists>pls. doLayout_pages sty psty pg pages0 ms =
           Some (if ms = [] then [new_page 0] else map (\<lambda>i. pg_expected pg i (pls ! i)) [0..<length pls]) \<and>
         concat (map (map fst) pls) = systems_of sty ms"
proof (cases "ms = []")
  case True
  then show ?thesis
    by (intro exI [of _ "[map (\<lambda>s. (s, 0)) (systems_of sty ms)]"]) (simp add: doLayout_pages_def comp_def del: systems_of.simps)
next
  case False
  obtain pls where p: "layout_pages psty (systems_of sty ms) = Some pls" "concat (map (map fst) pls) = systems_of sty ms"
    using layout_pages_total [of psty "systems_of sty ms"] by blast
  obtain pages lc where f: "foldl (dl_page pg) (pages0, \<lparr>plc_cur_page = 0, plc_page_old_system = None\<rparr>) pls = (pages, lc)"
    by (cases "foldl (dl_page pg) (pages0, \<lparr>plc_cur_page = 0, plc_page_old_system = None\<rparr>) pls") blast
  note inv = dl_fold [OF f]
  have t: "take (length pls) pages = map (\<lambda>i. pg_expected pg i (pls ! i)) [0..<length pls]"
    using inv by (intro nth_equalityI) simp_all
  have "doLayout_pages sty psty pg pages0 ms = Some (dl_trim pages (plc_cur_page lc))"
    unfolding doLayout_pages_def if_not_P [OF False] p(1) Option.bind.simps f by (simp del: systems_of.simps)
  then show ?thesis using False p(2) t inv by (intro exI [of _ pls]) (simp add: dl_trim_take del: systems_of.simps)
qed




subsection \<open>\<open>getNextSystem\<close>\<close>

declare gns_insert.simps [simp del]

lemma gns_insert_app: "i = length xs \<Longrightarrow> gns_insert ns n i xs = xs @ replicate (n - length xs) ns"
proof (induction ns n i xs rule: gns_insert.induct)
  case (1 ns n i xs)
  show ?case
  proof (cases "i < n")
    case True
    then have "gns_insert ns n i xs = gns_insert ns n (Suc i) (xs @ [ns])" using "1.prems" by (simp add: gns_insert.simps)
    also have "\<dots> = xs @ [ns] @ replicate (n - Suc (length xs)) ns" using "1.IH" True "1.prems" by simp
    also have "\<dots> = xs @ replicate (n - length xs) ns"
    proof -
      have "n - length xs = Suc (n - Suc (length xs))" using True "1.prems" by simp
      then show ?thesis by simp
    qed
    finally show ?thesis using "1.prems" by simp
  qed (use "1.prems" in \<open>simp add: gns_insert.simps\<close>)
qed

lemma gns_remove_take: "gns_remove k xs = take (length xs - k) xs"
  by (induction k arbitrary: xs) (simp_all add: butlast_conv_take ac_simps)



lemma gns_adjust:
  "gns_remove (nat (int (length (gns_insert ns n (length xs) xs)) - int n)) (gns_insert ns n (length xs) xs)
     = take n xs @ replicate (n - length xs) ns"
proof (cases "length xs \<le> n")
  case True
  then show ?thesis by (simp add: gns_insert_app gns_remove_take)
next
  case False
  then have "nat (int (length xs) - int n) = length xs - n" by simp
  then show ?thesis using False by (simp add: gns_insert_app gns_remove_take)
qed

text \<open>
  A system \<open>getNextSystem\<close> gives to a measure (not a vertical box) has one staff per
  staff of the score: the staves of the reused system, cut or extended by new staves at the
  end; its measures are cleared, and it is appended to the score's systems.
\<close>

theorem getNextSystem_staves:
  "\<exists>s. slc_cur_system (getNextSystem False n ns lc) = Some s \<and>
       sys_staves s = take n (sys_staves (case slc_system_list lc of [] \<Rightarrow> new_system | s0 # _ \<Rightarrow> s0)) @
                      replicate (n - length (sys_staves (case slc_system_list lc of [] \<Rightarrow> new_system | s0 # _ \<Rightarrow> s0))) ns \<and>
       sys_measures s = [] \<and> slc_systems (getNextSystem False n ns lc) = slc_systems lc @ [s] \<and>
       slc_system_list (getNextSystem False n ns lc) = tl (slc_system_list lc)"
proof (cases "slc_system_list lc")
  case Nil
  show ?thesis using gns_adjust [of ns n "[]"] Nil
    by (simp add: getNextSystem_def new_system_def Let_def del: gns_remove.simps)
next
  case (Cons s0 ss)
  show ?thesis using gns_adjust [of ns n "sys_staves s0"] Cons
    by (simp add: getNextSystem_def Let_def del: gns_remove.simps)
qed


subsection \<open>Dividers\<close>

lemma lpd_loop_length: "length ds = length ps \<Longrightarrow> length (fst (lpd_loop sty sL sR dh ps ds)) = length ds"
  by (induction sty sL sR dh ps ds rule: lpd_loop.induct) (auto simp: Let_def split: prod.splits)

lemma lpd_loop_Cons:
  "fst (lpd_loop sty sL sR dh ((s1, y1) # (s2, y2) # rest) ((l, r) # ds)) =
   (if lp_stretchable sty s1 s2 then
      (let h1 = ps_height (cp_geom sty s1);
           sdd = (y2 - y1 - h1) * 0.5 + h1
       in (fst (checkDivider True sL sR (dh True) sdd l), fst (checkDivider False sL sR (dh False) sdd r)))
    else (l, r)) # fst (lpd_loop sty sL sR dh ((s2, y2) # rest) ds)"
  by (simp add: Let_def split: prod.splits)

lemma lpd_loop_nth:
  assumes "length ds = length ps" "Suc i < length ps"
  shows "fst (lpd_loop sty sL sR dh ps ds) ! i =
    (if lp_stretchable sty (fst (ps ! i)) (fst (ps ! Suc i)) then
       (let h1 = ps_height (cp_geom sty (fst (ps ! i)));
            sdd = (snd (ps ! Suc i) - snd (ps ! i) - h1) * 0.5 + h1
        in (fst (checkDivider True sL sR (dh True) sdd (fst (ds ! i))),
            fst (checkDivider False sL sR (dh False) sdd (snd (ds ! i)))))
     else ds ! i)"
  using assms
proof (induction ps arbitrary: ds i)
  case (Cons p ps)
  obtain s1 y1 where p: "p = (s1, y1)" by fastforce
  obtain p2 rest where ps: "ps = p2 # rest" using Cons.prems by (cases ps) auto
  obtain s2 y2 where p2: "p2 = (s2, y2)" by fastforce
  obtain d ds' where ds: "ds = d # ds'" using Cons.prems by (cases ds) auto
  obtain l r where d: "d = (l, r)" by fastforce
  have e: "fst (lpd_loop sty sL sR dh (p # ps) ds) =
    (if lp_stretchable sty s1 s2 then
      (let h1 = ps_height (cp_geom sty s1);
           sdd = (y2 - y1 - h1) * 0.5 + h1
       in (fst (checkDivider True sL sR (dh True) sdd l), fst (checkDivider False sL sR (dh False) sdd r)))
    else (l, r)) # fst (lpd_loop sty sL sR dh ps ds')"
    unfolding p ps p2 ds d by (rule lpd_loop_Cons)
  show ?case
  proof (cases i)
    case 0
    then show ?thesis using e p ps p2 ds d by (simp add: Let_def)
  next
    case (Suc j)
    then show ?thesis using e Cons.IH [of ds' j] Cons.prems ds p by simp
  qed
qed simp

text \<open>
  With both divider styles on and the page stretched, the system above each stretchable
  gap carries a left and a right divider, each half its height below the middle of the
  gap between the systems at their final positions.
\<close>

theorem layoutPage_dividers_placed:
  assumes "\<not> (lp_gaps sty placed = 0 \<or> cp_no_vstretch sty \<or> cp_mode sty = LM_SYSTEM)"
    "length ds = length placed" "Suc i < length placed"
    "lp_stretchable sty (fst (placed ! i)) (fst (placed ! Suc i))"
  shows "\<exists>l r. fst (layoutPage_dividers sty True True dh placed rh ds) ! i = (Some l, Some r) \<and>
           dv_y l = dh True * 0.5 + ((snd (layoutPage sty placed rh ! Suc i) - snd (layoutPage sty placed rh ! i)
                     - ps_height (cp_geom sty (fst (placed ! i)))) * 0.5 + ps_height (cp_geom sty (fst (placed ! i)))) \<and>
           dv_y r = dh False * 0.5 + ((snd (layoutPage sty placed rh ! Suc i) - snd (layoutPage sty placed rh ! i)
                     - ps_height (cp_geom sty (fst (placed ! i)))) * 0.5 + ps_height (cp_geom sty (fst (placed ! i))))"
proof -
  let ?P = "layoutPage sty placed rh"
  have f: "map fst ?P = map fst placed" by (rule layoutPage_fst)
  then have l: "length ?P = length placed" by (metis length_map)
  have fi: "\<And>k. k < length placed \<Longrightarrow> fst (?P ! k) = fst (placed ! k)" using f l by (metis nth_map)
  show ?thesis
    using lpd_loop_nth [of ds ?P i sty True True dh] assms l fi [of i] fi [of "Suc i"]
    by (auto simp: layoutPage_dividers_def Let_def checkDivider_def split: option.splits)
qed

text \<open>
  Removing dividers: \<open>checkDivider\<close> removes a divider a user added through the undo
  stack, but \<open>layoutPage\<close>, on a page it does not stretch, deletes every divider of the
  page's systems, a user's as well, and issues no undo command.
\<close>

theorem layoutPage_deletes_user_divider:
  assumes "\<not> dv_generated d"
  shows "checkDivider True False sR h sdd (Some d) = (None, True) \<and>
         layoutPage_dividers (sty\<lparr>cp_no_vstretch := True\<rparr>) sL sR dh placed rh [(Some d, Some d)] = ([(None, None)], 0)"
  using assms by (simp add: checkDivider_def layoutPage_dividers_def)



subsection \<open>The page loop\<close>

lemma dl_step_shorter: "dl_step sty pg s t \<Longrightarrow> length (snd (snd t)) < length (snd (snd s))"
proof (induction rule: dl_step.induct)
  case (1 ss placed rest rh pages lc)
  then have "placed \<noteq> [] \<and> map fst placed @ rest = ss" using collectPage_shape by blast
  then show ?case by auto
qed

lemma dl_step_exists: "ss \<noteq> [] \<Longrightarrow> \<exists>t. dl_step sty pg (pages, lc, ss) t"
proof -
  assume "ss \<noteq> []"
  then obtain x r where ss: "ss = x # r" by (cases ss) auto
  obtain placed rest rh where "cp_loop sty None (cp_top_margin sty) [] x r = (placed, rest, rh)"
    by (rule prod_cases3)
  then have "collectPage sty ss = Some (placed, rest, rh)" by (simp only: ss collectPage_def list.case)
  then show ?thesis by (blast intro: dl_step.intros)
qed

lemma dl_step_none: "\<not> dl_step sty pg (pages, lc, []) t"
  by (auto elim: dl_step.cases simp: collectPage_def)



lemma dl_wf: "wfP (\<lambda>t s. dl_step sty pg s t)"
  by (rule wfp_if_convertible_to_nat [of _ "\<lambda>s. length (snd (snd s))"]) (rule dl_step_shorter)

lemma dl_stuck_iff: "(\<nexists>t. dl_step sty pg s t) \<longleftrightarrow> snd (snd s) = []"
proof -
  obtain pages lc ss where s: "s = (pages, lc, ss)" by (cases s) auto
  show ?thesis
  proof
    assume n: "\<nexists>t. dl_step sty pg s t"
    show "snd (snd s) = []"
    proof (rule ccontr)
      assume "snd (snd s) \<noteq> []"
      then have "ss \<noteq> []" using s by simp
      then obtain t where "dl_step sty pg (pages, lc, ss) t" using dl_step_exists by blast
      then show False using n s by blast
    qed
  next
    assume "snd (snd s) = []"
    then have "ss = []" using s by simp
    then show "\<nexists>t. dl_step sty pg s t" using dl_step_none [of sty pg pages lc] s by blast
  qed
qed


lemma dl_reach: "\<exists>t. (dl_step sty pg)\<^sup>*\<^sup>* s t \<and> snd (snd t) = []"
proof (induction s rule: measure_induct_rule [of "\<lambda>s. length (snd (snd s))"])
  case (less s)
  show ?case
  proof (cases "snd (snd s) = []")
    case True
    then show ?thesis by blast
  next
    case False
    then obtain t where st: "dl_step sty pg s t" using dl_stuck_iff by blast
    have "length (snd (snd t)) < length (snd (snd s))" using dl_step_shorter [OF st] .
    then obtain u where "(dl_step sty pg)\<^sup>*\<^sup>* t u" "snd (snd u) = []" using less by blast
    then show ?thesis using st converse_rtranclp_into_rtranclp [of "dl_step sty pg" s t u] by blast
  qed
qed

end
