(* ===== verification/Ties_Fingering.thy ===== *)
theory Ties_Fingering
  imports Layout_Prelude
begin

text \<open>
  Two helpers of \<open>src/libmscore/layout.cpp\<close> that repair or place single elements:
  \<open>Score::layoutFingering\<close>, the offset of a fingering number from its note, and
  \<open>Score::connectTies\<close>, which reconnects ties without end note, old-format glissandos
  without start note, spanners without end element and two-note tremolos without second
  chord.  The score's objects are an explicit store: notes and chords are numbered, and
  the links between them (a note's tie forward and back, its spanners, a chord's tremolo)
  are fields of a state record indexed by those numbers.  What \<open>connectTies\<close> asks of
  code outside \<open>src/\<close> (\<open>searchTieNote\<close>, \<open>searchTieNote114\<close>,
  \<open>Glissando::guessInitialNote\<close>) is an interface record.
\<close>

subsection \<open>\<open>layoutFingering\<close>\<close>

datatype text_style = TS_FINGERING | TS_RH_GUITAR_FINGERING | TS_STRING_NUMBER | TS_OTHER

text \<open>
  What \<open>layoutFingering\<close> reads: the fingering's text style, the part's number of
  staves and the staff's index in the part, whether the measure has voices on the staff,
  the chord's stem direction, beam, number of notes and stem (its height), the note's head
  width and height, and the spatium.
\<close>

record fing =
  fg_style :: text_style
  fg_part_staves :: int
  fg_rstaff :: int
  fg_voices :: bool
  fg_up :: bool
  fg_beam :: bool
  fg_notes :: nat
  fg_stem :: "qreal option"
  fg_head_width :: qreal
  fg_head_height :: qreal
  fg_spatium :: qreal

text \<open>
  \<open>layoutFingering(f)\<close>: nothing for a null fingering or another text style; otherwise
  the user offset \<open>(x, y)\<close> it sets and whether it switches autoplace off
  (\<open>x != 0 && y != 0\<close>).
\<close>

definition layoutFingering :: "fing option \<Rightarrow> (qreal \<times> qreal \<times> bool) option" where
  "layoutFingering fo =
     (case fo of
        None \<Rightarrow> None
      | Some f \<Rightarrow>
          if fg_style f \<noteq> TS_FINGERING \<and> fg_style f \<noteq> TS_RH_GUITAR_FINGERING \<and> fg_style f \<noteq> TS_STRING_NUMBER
          then None
          else
            let n = fg_part_staves f;
                below = (if fg_voices f then \<not> fg_up f else 1 < n \<and> fg_rstaff f = n - 1);
                tight = fg_voices f \<and> \<not> fg_beam f;
                sp = fg_spatium f;
                fh = fg_head_height f;
                (x, y) =
                  (if fg_notes f = 1 then
                     let x0 = fg_head_width f * 0.5
                     in if below then
                          let y0 = fh + sp * 0.4
                          in if tight then (if fg_stem f \<noteq> None then x0 + 0.5 * sp else x0, y0 + 0.5 * sp)
                             else (case fg_stem f of
                                     Some h \<Rightarrow> if \<not> fg_up f then (x0 - sp * 0.4, y0 + h) else (x0, y0)
                                   | None \<Rightarrow> (x0, y0))
                        else
                          let y0 = - fg_head_height f - sp * 0.4
                          in if tight then (if fg_stem f \<noteq> None then x0 - 0.5 * sp else x0, y0 - 0.5 * sp)
                             else (case fg_stem f of
                                     Some h \<Rightarrow> if fg_up f then (x0 + sp * 0.4, y0 - h) else (x0, y0)
                                   | None \<Rightarrow> (x0, y0))
                   else (0 - sp, 0))
            in Some (x, y, x \<noteq> 0 \<and> y \<noteq> 0))"

subsection \<open>\<open>connectTies\<close>\<close>

text \<open>
  A spanner attached to a note (in its \<open>spannerFor\<close> or \<open>spannerBack\<close> list): whether
  it is a glissando, its start and end note.
\<close>

record spanner =
  sp_gliss :: bool
  sp_start :: "nat option"
  sp_end :: "nat option"

text \<open>
  The links \<open>connectTies\<close> reads and writes: a note's tie forward (\<open>None\<close>: no tie;
  \<open>Some None\<close>: a tie without end note; \<open>Some (Some m)\<close>: a tie ending at \<open>m\<close>), the
  start note of its tie back, its spanner lists, and a chord's tremolo (two-note or not,
  and its two chords once set).
\<close>

record ct_state =
  cs_tie_for :: "nat \<Rightarrow> nat option option"
  cs_tie_back :: "nat \<Rightarrow> nat option"
  cs_span_back :: "nat \<Rightarrow> spanner list"
  cs_span_for :: "nat \<Rightarrow> spanner list"
  cs_tremolo :: "nat \<Rightarrow> (bool \<times> (nat \<times> nat) option) option"

record ct_iface =
  ci_search_tie :: "nat \<Rightarrow> nat option"
  ci_search_tie114 :: "nat \<Rightarrow> nat option"
  ci_guess_initial :: "nat \<Rightarrow> nat option"

text \<open>An element of a chord-rest segment on a track: a chord (number, notes, measure) or another chord-rest.\<close>

datatype ct_el = CE_Chord nat "nat list" nat | CE_Other

text \<open>
  The tie of note \<open>n\<close>: a tie without end note gets the note \<open>searchTieNote\<close> finds
  (\<open>searchTieNote114\<close> for files of version 1.14 and older), which gets the tie back; if
  none is found the tie is deleted, unless \<open>silent\<close>.
\<close>

definition ct_tie :: "bool \<Rightarrow> int \<Rightarrow> ct_iface \<Rightarrow> nat \<Rightarrow> ct_state \<Rightarrow> ct_state" where
  "ct_tie silent version ci n st =
     (if cs_tie_for st n = Some None then
        let nnote = (if version \<le> 114 then ci_search_tie114 ci n else ci_search_tie ci n)
        in case nnote of
             None \<Rightarrow> if \<not> silent then st\<lparr>cs_tie_for := (cs_tie_for st)(n := None)\<rparr> else st
           | Some m \<Rightarrow> st\<lparr>cs_tie_for := (cs_tie_for st)(n := Some (Some m)),
                         cs_tie_back := (cs_tie_back st)(m := Some n)\<rparr>
      else st)"

text \<open>
  One spanner of \<open>n->spannerBack()\<close>: a glissando without start element is removed from
  the list; if \<open>guessInitialNote\<close> finds a note in chord \<open>c\<close> it starts there, ends at
  \<open>n\<close>, and is added to that note's spanners, else it is deleted.
\<close>

definition ct_gliss :: "ct_iface \<Rightarrow> nat \<Rightarrow> nat \<Rightarrow> ct_state \<Rightarrow> spanner \<Rightarrow> ct_state" where
  "ct_gliss ci c n st sp =
     (if sp_gliss sp \<and> sp_start sp = None then
        let st1 = st\<lparr>cs_span_back := (cs_span_back st)(n := remove1 sp (cs_span_back st n))\<rparr>
        in case ci_guess_initial ci c of
             None \<Rightarrow> st1
           | Some m \<Rightarrow> st1\<lparr>cs_span_for := (cs_span_for st1)(m := cs_span_for st1 m @ [sp\<lparr>sp_start := Some m, sp_end := Some n\<rparr>])\<rparr>
      else st)"

text \<open>One spanner of \<open>n->spannerFor()\<close>: removed and deleted if it has no end element.\<close>

definition ct_span_for :: "nat \<Rightarrow> ct_state \<Rightarrow> spanner \<Rightarrow> ct_state" where
  "ct_span_for n st sp =
     (if sp_end sp = None then st\<lparr>cs_span_for := (cs_span_for st)(n := remove1 sp (cs_span_for st n))\<rparr> else st)"

text \<open>
  The body of the loop over the notes of chord \<open>c\<close>.  The two spanner loops run over the
  lists as they are when the loop starts.
\<close>

definition ct_note :: "bool \<Rightarrow> int \<Rightarrow> ct_iface \<Rightarrow> nat \<Rightarrow> ct_state \<Rightarrow> nat \<Rightarrow> ct_state" where
  "ct_note silent version ci c st n =
     (let st1 = ct_tie silent version ci n st;
          st2 = foldl (ct_gliss ci c n) st1 (cs_span_back st1 n)
      in foldl (ct_span_for n) st2 (cs_span_for st2 n))"

text \<open>
  A two-note tremolo of chord \<open>c\<close> (in measure \<open>mc\<close>) without second chord: the first
  element on the track in the following chord-rest segments decides; a chord gets the
  tremolo (a two-note one without second chord, as the caller checks), which then joins
  the two chords, and \<open>c\<close> drops it if the chords are in
  different measures; another chord-rest leaves it unconnected.
\<close>

fun ct_tremolo_search :: "nat \<Rightarrow> nat \<Rightarrow> nat \<Rightarrow> ct_el option list list \<Rightarrow> ct_state \<Rightarrow> ct_state" where
  "ct_tremolo_search i c mc [] st = st"
| "ct_tremolo_search i c mc (ls # lss) st =
     (case ls ! i of
        None \<Rightarrow> ct_tremolo_search i c mc lss st
      | Some CE_Other \<Rightarrow> st
      | Some (CE_Chord nc _ mnc) \<Rightarrow>
          let st1 = st\<lparr>cs_tremolo := (cs_tremolo st)(nc := Some (True, Some (c, nc)), c := Some (True, Some (c, nc)))\<rparr>
          in if mc \<noteq> mnc then st1\<lparr>cs_tremolo := (cs_tremolo st1)(c := None)\<rparr> else st1)"

definition ct_chord :: "bool \<Rightarrow> int \<Rightarrow> ct_iface \<Rightarrow> nat \<Rightarrow> ct_el option list list \<Rightarrow> ct_state \<Rightarrow> ct_el option \<Rightarrow> ct_state" where
  "ct_chord silent version ci i later st e =
     (case e of
        Some (CE_Chord c notes mc) \<Rightarrow>
          let st1 = foldl (ct_note silent version ci c) st notes
          in (case cs_tremolo st1 c of
                Some (True, None) \<Rightarrow> ct_tremolo_search i c mc later st1
              | _ \<Rightarrow> st1)
      | _ \<Rightarrow> st)"

text \<open>The loop over the tracks of a segment, then over the chord-rest segments in order.\<close>

fun ct_segs :: "bool \<Rightarrow> int \<Rightarrow> ct_iface \<Rightarrow> nat \<Rightarrow> ct_el option list list \<Rightarrow> ct_state \<Rightarrow> ct_state" where
  "ct_segs silent version ci tracks [] st = st"
| "ct_segs silent version ci tracks (s # ss) st =
     ct_segs silent version ci tracks ss
       (foldl (\<lambda>st i. ct_chord silent version ci i ss st (s ! i)) st [0..<tracks])"

text \<open>
  \<open>Score::connectTies(silent)\<close> on the chord-rest segments of the score, each a list of
  \<open>nstaves * VOICES\<close> track slots; nothing for a score without measures.
\<close>

definition connectTies :: "bool \<Rightarrow> int \<Rightarrow> ct_iface \<Rightarrow> nat \<Rightarrow> bool \<Rightarrow> ct_el option list list \<Rightarrow> ct_state \<Rightarrow> ct_state" where
  "connectTies silent version ci nstaves hasMeasure segs st =
     (if \<not> hasMeasure then st else ct_segs silent version ci (nstaves * VOICES) segs st)"

text \<open>The notes of the chords \<open>connectTies\<close> visits, in the order it visits them.\<close>

definition el_notes :: "ct_el option \<Rightarrow> nat list" where
  "el_notes e = (case e of Some (CE_Chord c ns mc) \<Rightarrow> ns | _ \<Rightarrow> [])"

definition ct_chord_notes :: "nat \<Rightarrow> ct_el option list list \<Rightarrow> nat list" where
  "ct_chord_notes tracks segs = concat (map (\<lambda>s. concat (map (\<lambda>i. el_notes (s ! i)) [0..<tracks])) segs)"

text \<open>The tie links of a state, and the tie repair of \<open>ct_tie\<close> run over a list of notes.\<close>

definition tie_links :: "ct_state \<Rightarrow> (nat \<Rightarrow> nat option option) \<times> (nat \<Rightarrow> nat option)" where
  "tie_links st = (cs_tie_for st, cs_tie_back st)"

definition ct_ties :: "bool \<Rightarrow> int \<Rightarrow> ct_iface \<Rightarrow> ct_state \<Rightarrow> nat list \<Rightarrow> ct_state" where
  "ct_ties silent version ci = foldl (\<lambda>st n. ct_tie silent version ci n st)"

definition tie_search :: "int \<Rightarrow> ct_iface \<Rightarrow> nat \<Rightarrow> nat option" where
  "tie_search version ci = (if version \<le> 114 then ci_search_tie114 ci else ci_search_tie ci)"

text \<open>What a tie without end note becomes when \<open>ct_tie\<close> visits its note.\<close>

definition tie_fix :: "bool \<Rightarrow> int \<Rightarrow> ct_iface \<Rightarrow> nat \<Rightarrow> nat option option" where
  "tie_fix silent version ci n =
     (case tie_search version ci n of None \<Rightarrow> if silent then Some None else None | Some m \<Rightarrow> Some (Some m))"

text \<open>
  A small score for the examples: one staff, two chord-rest segments; chord 0 (note 1,
  whose tie has no end note, and a two-note tremolo without second chord) in measure 0, then a
  rest on the same track, then chord 1 (note 2) in measure 0.
\<close>

definition ex_ct_segs :: "ct_el option list list" where
  "ex_ct_segs = [[Some (CE_Chord 0 [1] 0), None, None, None],
                 [Some CE_Other, None, None, None],
                 [Some (CE_Chord 1 [2] 0), None, None, None]]"

definition ex_ct_state :: ct_state where
  "ex_ct_state = \<lparr>cs_tie_for = (\<lambda>_. None)(1 := Some None), cs_tie_back = (\<lambda>_. None),
                  cs_span_back = (\<lambda>_. []), cs_span_for = (\<lambda>_. []),
                  cs_tremolo = (\<lambda>_. None)(0 := Some (True, None))\<rparr>"

definition ex_ct_iface :: ct_iface where
  "ex_ct_iface = \<lparr>ci_search_tie = (\<lambda>_. None)(1 := Some 2), ci_search_tie114 = (\<lambda>_. None), ci_guess_initial = (\<lambda>_. None)\<rparr>"

text \<open>A fingering on the single note of a stem-down chord on the first staff of a piano, in a measure with voices.\<close>

definition ex_fing :: fing where
  "ex_fing = \<lparr>fg_style = TS_FINGERING, fg_part_staves = 2, fg_rstaff = 0, fg_voices = True, fg_up = False,
              fg_beam = False, fg_notes = 1, fg_stem = Some 3, fg_head_width = 6 / 5, fg_head_height = 1,
              fg_spatium = 1\<rparr>"

subsection \<open>The tie links after \<open>connectTies\<close>\<close>

lemma ct_gliss_links [simp]: "tie_links (ct_gliss ci c n st sp) = tie_links st"
  by (simp add: ct_gliss_def tie_links_def Let_def split: option.split)

lemma ct_span_for_links [simp]: "tie_links (ct_span_for n st sp) = tie_links st"
  by (simp add: ct_span_for_def tie_links_def)

lemma ct_tremolo_search_links [simp]: "tie_links (ct_tremolo_search i c mc lss st) = tie_links st"
  by (induction i c mc lss st rule: ct_tremolo_search.induct)
     (simp_all add: tie_links_def Let_def split: option.split ct_el.split)

lemma ct_tie_cong:
  "tie_links st1 = tie_links st2 \<Longrightarrow> tie_links (ct_tie silent version ci n st1) = tie_links (ct_tie silent version ci n st2)"
  by (simp add: ct_tie_def tie_links_def Let_def split: option.split)

lemma ct_ties_cong:
  "tie_links st1 = tie_links st2 \<Longrightarrow> tie_links (ct_ties silent version ci st1 ns) = tie_links (ct_ties silent version ci st2 ns)"
proof (induction ns arbitrary: st1 st2)
  case (Cons n ns)
  show ?case
    using Cons.IH [OF ct_tie_cong [OF Cons.prems]] by (simp only: ct_ties_def foldl_Cons)
qed (simp add: ct_ties_def)

lemma ct_note_links: "tie_links (ct_note silent version ci c st n) = tie_links (ct_tie silent version ci n st)"
  by (simp add: ct_note_def Let_def foldl_keeps)

lemma ct_chord_links:
  "tie_links (ct_chord silent version ci i later st e) = tie_links (ct_ties silent version ci st (el_notes e))"
proof -
  have hn: "tie_links (foldl (ct_note silent version ci c) st ns) = tie_links (ct_ties silent version ci st ns)" for c ns st
  proof (induction ns arbitrary: st)
    case (Cons n ns)
    have "tie_links (foldl (ct_note silent version ci c) st (n # ns))
          = tie_links (ct_ties silent version ci (ct_note silent version ci c st n) ns)"
      by (simp add: Cons.IH)
    also have "\<dots> = tie_links (ct_ties silent version ci (ct_tie silent version ci n st) ns)"
      by (rule ct_ties_cong [OF ct_note_links])
    finally show ?case
      by (simp add: ct_ties_def)
  qed (simp add: ct_ties_def)
  then show ?thesis
    by (simp add: ct_chord_def el_notes_def Let_def ct_ties_def split: option.split ct_el.split prod.split bool.split)
qed

lemma ct_ties_append: "ct_ties silent version ci st (xs @ ys) = ct_ties silent version ci (ct_ties silent version ci st xs) ys"
  by (simp add: ct_ties_def)

lemma ct_tracks_links:
  "tie_links (foldl (\<lambda>st i. ct_chord silent version ci i ss st (s ! i)) st js)
   = tie_links (ct_ties silent version ci st (concat (map (\<lambda>i. el_notes (s ! i)) js)))"
proof (induction js arbitrary: st rule: rev_induct)
  case (snoc i js)
  let ?st = "foldl (\<lambda>st i. ct_chord silent version ci i ss st (s ! i)) st js"
  have "tie_links (ct_chord silent version ci i ss ?st (s ! i))
        = tie_links (ct_ties silent version ci (ct_ties silent version ci st (concat (map (\<lambda>i. el_notes (s ! i)) js))) (el_notes (s ! i)))"
    unfolding ct_chord_links by (rule ct_ties_cong [OF snoc.IH])
  then show ?case
    by (simp add: ct_ties_append)
qed (simp add: ct_ties_def)

text \<open>
  The tie links after the segment loop are those of the tie repair alone, run over the
  notes in the order the loop visits them: the glissando, spanner and tremolo repairs do
  not touch them.
\<close>

lemma ct_segs_links:
  "tie_links (ct_segs silent version ci tracks segs st)
   = tie_links (ct_ties silent version ci st (ct_chord_notes tracks segs))"
proof (induction segs arbitrary: st)
  case (Cons s ss)
  let ?st = "foldl (\<lambda>st i. ct_chord silent version ci i ss st (s ! i)) st [0..<tracks]"
  have "tie_links (ct_segs silent version ci tracks ss ?st)
        = tie_links (ct_ties silent version ci (ct_ties silent version ci st (concat (map (\<lambda>i. el_notes (s ! i)) [0..<tracks]))) (ct_chord_notes tracks ss))"
    unfolding Cons.IH by (rule ct_ties_cong [OF ct_tracks_links])
  then show ?case
    by (simp add: ct_chord_notes_def ct_ties_append)
qed (simp add: ct_chord_notes_def ct_ties_def)

lemma ct_tie_for_eq:
  "cs_tie_for (ct_tie silent version ci n st) =
     (cs_tie_for st)(n := if cs_tie_for st n = Some None then tie_fix silent version ci n else cs_tie_for st n)"
  by (auto simp: ct_tie_def tie_search_def tie_fix_def Let_def split: option.split)

lemma ct_tie_for_other: "k \<noteq> n \<Longrightarrow> cs_tie_for (ct_tie silent version ci n st) k = cs_tie_for st k"
  by (simp add: ct_tie_for_eq)

lemma ct_tie_back_eq:
  "cs_tie_back (ct_tie silent version ci n st) =
     (if cs_tie_for st n = Some None
      then (case tie_search version ci n of None \<Rightarrow> cs_tie_back st | Some m \<Rightarrow> (cs_tie_back st)(m := Some n))
      else cs_tie_back st)"
  by (simp add: ct_tie_def tie_search_def Let_def split: option.split)

lemma tie_fix_dangling: "tie_fix silent version ci n = Some None \<Longrightarrow> silent \<and> tie_search version ci n = None"
  by (simp add: tie_fix_def split: option.splits if_splits)

lemma ct_ties_tie_for:
  "cs_tie_for (ct_ties silent version ci st ns) =
     (\<lambda>k. if k \<in> set ns \<and> cs_tie_for st k = Some None then tie_fix silent version ci k else cs_tie_for st k)"
proof (induction ns arbitrary: st)
  case (Cons n ns)
  have step: "ct_ties silent version ci st (n # ns) = ct_ties silent version ci (ct_tie silent version ci n st) ns"
    by (simp add: ct_ties_def)
  show ?case
  proof (rule ext)
    fix k
    show "cs_tie_for (ct_ties silent version ci st (n # ns)) k =
          (if k \<in> set (n # ns) \<and> cs_tie_for st k = Some None then tie_fix silent version ci k else cs_tie_for st k)"
      unfolding step Cons.IH ct_tie_for_eq
      by (cases "k = n") auto
  qed
qed (simp add: ct_ties_def)

text \<open>The back link of a repaired tie survives the rest of the loop when no other dangling tie finds the same note.\<close>

lemma ct_ties_back:
  assumes found: "tie_search version ci n = Some m"
    and uniq: "\<forall>k. k \<noteq> n \<longrightarrow> cs_tie_for st k = Some None \<longrightarrow> tie_search version ci k \<noteq> Some m"
    and start: "(cs_tie_for st n = Some None \<and> n \<in> set ns) \<or> (cs_tie_for st n = Some (Some m) \<and> cs_tie_back st m = Some n)"
  shows "cs_tie_for (ct_ties silent version ci st ns) n = Some (Some m) \<and> cs_tie_back (ct_ties silent version ci st ns) m = Some n"
  using uniq start
proof (induction ns arbitrary: st)
  case (Cons k ns)
  let ?st = "ct_tie silent version ci k st"
  have step: "ct_ties silent version ci st (k # ns) = ct_ties silent version ci ?st ns"
    by (simp add: ct_ties_def)
  have uniq': "\<forall>j. j \<noteq> n \<longrightarrow> cs_tie_for ?st j = Some None \<longrightarrow> tie_search version ci j \<noteq> Some m"
    using Cons.prems(1) by (auto simp: ct_tie_for_eq split: if_splits)
  have "(cs_tie_for ?st n = Some None \<and> n \<in> set ns) \<or> (cs_tie_for ?st n = Some (Some m) \<and> cs_tie_back ?st m = Some n)"
  proof (cases "k = n")
    case True
    then show ?thesis
      using Cons.prems(2) found by (auto simp: ct_tie_for_eq ct_tie_back_eq tie_fix_def)
  next
    case False
    then show ?thesis
      using Cons.prems found by (auto simp: ct_tie_for_other ct_tie_back_eq split: option.split)
  qed
  then show ?case
    unfolding step using Cons.IH [OF uniq'] by blast
qed (simp add: ct_ties_def)

lemma ct_links_connect:
  "tie_links (connectTies silent version ci nstaves True segs st)
   = tie_links (ct_ties silent version ci st (ct_chord_notes (nstaves * VOICES) segs))"
  by (simp add: connectTies_def ct_segs_links)

subsection \<open>The spanner repairs\<close>

lemma ct_span_for_fold:
  "mset (cs_span_for (foldl (ct_span_for n) st xs) n) = mset (cs_span_for st n) - mset (filter (\<lambda>sp. sp_end sp = None) xs)"
proof (induction xs arbitrary: st)
  case (Cons x xs)
  have step: "foldl (ct_span_for n) st (x # xs) = foldl (ct_span_for n) (ct_span_for n st x) xs"
    by simp
  show ?case
    unfolding step Cons.IH by (simp add: ct_span_for_def diff_diff_add_mset)
qed simp

text \<open>After the loop body for note \<open>n\<close>, every spanner in \<open>n->spannerFor()\<close> has an end element.\<close>

lemma ct_note_span_for_ended:
  "sp \<in> set (cs_span_for (ct_note silent version ci c st n) n) \<Longrightarrow> sp_end sp \<noteq> None"
proof -
  let ?L = "cs_span_for (foldl (ct_gliss ci c n) (ct_tie silent version ci n st) (cs_span_back (ct_tie silent version ci n st) n)) n"
  have "mset (cs_span_for (ct_note silent version ci c st n) n) = mset ?L - mset (filter (\<lambda>sp. sp_end sp = None) ?L)"
    by (simp add: ct_note_def Let_def ct_span_for_fold)
  also have "\<dots> = mset (filter (\<lambda>sp. \<not> sp_end sp = None) ?L)"
    by (rule mset_minus_filter)
  finally have "set (cs_span_for (ct_note silent version ci c st n) n) = set (filter (\<lambda>sp. \<not> sp_end sp = None) ?L)"
    by (rule mset_eq_setD)
  then show "sp \<in> set (cs_span_for (ct_note silent version ci c st n) n) \<Longrightarrow> sp_end sp \<noteq> None"
    by simp
qed

subsection \<open>The tremolo search\<close>

lemma ct_tremolo_search_find:
  "ct_tremolo_search i c mc lss st =
     (case find (\<lambda>ls. ls ! i \<noteq> None) lss of
        Some ls \<Rightarrow> (case ls ! i of
                     Some (CE_Chord nc _ mnc) \<Rightarrow>
                       st\<lparr>cs_tremolo := (cs_tremolo st)(nc := Some (True, Some (c, nc)),
                                                        c := if mc = mnc then Some (True, Some (c, nc)) else None)\<rparr>
                   | _ \<Rightarrow> st)
      | None \<Rightarrow> st)"
  by (induction i c mc lss st rule: ct_tremolo_search.induct)
     (auto simp: Let_def split: option.split ct_el.split)

subsection \<open>The claims\<close>

text \<open>
  C21: after \<open>connectTies(silent)\<close> the forward tie of every note is what it was, except
  for the notes of the visited chords whose tie had no end note: such a tie now ends at the
  note \<open>searchTieNote\<close> (or \<open>searchTieNote114\<close>) finds; if none is found it is
  deleted, or, when \<open>silent\<close>, left without end note.
\<close>

theorem connectTies_tie_for:
  "cs_tie_for (connectTies silent version ci nstaves True segs st) =
     (\<lambda>k. if k \<in> set (ct_chord_notes (nstaves * VOICES) segs) \<and> cs_tie_for st k = Some None
          then tie_fix silent version ci k else cs_tie_for st k)"
  using arg_cong [OF ct_links_connect, of fst] by (simp add: tie_links_def ct_ties_tie_for)

text \<open>
  C30: a tie of a visited note that had no end note and for which the search finds note
  \<open>m\<close> ends at \<open>m\<close>, and \<open>m\<close> has it as its tie back, when no other dangling tie
  finds \<open>m\<close>.
\<close>

theorem connectTies_tie_back:
  assumes "n \<in> set (ct_chord_notes (nstaves * VOICES) segs)"
    and "cs_tie_for st n = Some None"
    and "tie_search version ci n = Some m"
    and "\<forall>k. k \<noteq> n \<longrightarrow> cs_tie_for st k = Some None \<longrightarrow> tie_search version ci k \<noteq> Some m"
  shows "cs_tie_for (connectTies silent version ci nstaves True segs st) n = Some (Some m)
         \<and> cs_tie_back (connectTies silent version ci nstaves True segs st) m = Some n"
  using ct_ties_back [OF assms(3,4), of "ct_chord_notes (nstaves * VOICES) segs" silent] assms(1,2)
        ct_links_connect [of silent version ci nstaves segs st]
  by (simp add: tie_links_def)

theorem connectTies_tie_back_witness:
  "1 \<in> set (ct_chord_notes (1 * VOICES) ex_ct_segs) \<and> cs_tie_for ex_ct_state 1 = Some None
   \<and> tie_search 300 ex_ct_iface 1 = Some 2
   \<and> cs_tie_for (connectTies False 300 ex_ct_iface 1 True ex_ct_segs ex_ct_state) 1 = Some (Some 2)
   \<and> cs_tie_back (connectTies False 300 ex_ct_iface 1 True ex_ct_segs ex_ct_state) 2 = Some 1"
proof -
  have h: "1 \<in> set (ct_chord_notes (1 * VOICES) ex_ct_segs)" "cs_tie_for ex_ct_state 1 = Some None"
    "tie_search 300 ex_ct_iface 1 = Some 2"
    "\<forall>k. k \<noteq> 1 \<longrightarrow> cs_tie_for ex_ct_state k = Some None \<longrightarrow> tie_search 300 ex_ct_iface k \<noteq> Some 2"
    by (simp_all add: ct_chord_notes_def ex_ct_segs_def el_notes_def ex_ct_state_def tie_search_def ex_ct_iface_def upt_conv_Cons)
  show ?thesis
    using h connectTies_tie_back [OF h, of False] by simp
qed

text \<open>
  C32: a fingering on a single note is placed below the note (\<open>y > 0\<close>) when the chord
  is stem-down in a measure with voices, or, without voices, on the last staff of a
  multi-staff part; otherwise above it (\<open>y < 0\<close>).
\<close>

theorem layoutFingering_side:
  assumes "fg_style f \<noteq> TS_OTHER" and "fg_notes f = 1" and "0 < fg_spatium f"
    and "0 \<le> fg_head_height f" and "\<forall>h. fg_stem f = Some h \<longrightarrow> 0 \<le> h"
    and "layoutFingering (Some f) = Some (x, y, a)"
  shows "if (if fg_voices f then \<not> fg_up f else 1 < fg_part_staves f \<and> fg_rstaff f = fg_part_staves f - 1)
         then 0 < y else y < 0"
  using assms by (cases "fg_style f") (auto simp: layoutFingering_def Let_def split: option.splits if_splits)

theorem layoutFingering_side_witness:
  "fg_style ex_fing \<noteq> TS_OTHER \<and> fg_notes ex_fing = 1 \<and> 0 < fg_spatium ex_fing
   \<and> 0 \<le> fg_head_height ex_fing \<and> fg_stem ex_fing = Some 3
   \<and> layoutFingering (Some ex_fing) = Some (11 / 10, 19 / 10, True) \<and> 0 < (19 / 10 :: real)"
proof -
  have h: "fg_style ex_fing \<noteq> TS_OTHER" "fg_notes ex_fing = 1" "0 < fg_spatium ex_fing"
    "0 \<le> fg_head_height ex_fing" "\<forall>h. fg_stem ex_fing = Some h \<longrightarrow> 0 \<le> h"
    "layoutFingering (Some ex_fing) = Some (11 / 10, 19 / 10, True)"
    by (simp_all add: ex_fing_def layoutFingering_def Let_def)
  show ?thesis
    using h layoutFingering_side [OF h] by (simp add: ex_fing_def)
qed

text \<open>
  On the example score, \<open>connectTies\<close> ends the tie of note 1 at note 2, but the
  tremolo of chord 0 stays without second chord: the next element on its track is a rest.
\<close>

lemma connectTies_example:
  "cs_tie_for (connectTies False 300 ex_ct_iface 1 True ex_ct_segs ex_ct_state) 1 = Some (Some 2)
   \<and> cs_tremolo (connectTies False 300 ex_ct_iface 1 True ex_ct_segs ex_ct_state) 0 = Some (True, None)"
  by (simp add: connectTies_def ex_ct_segs_def ex_ct_state_def ex_ct_iface_def upt_conv_Cons ct_chord_def
      ct_note_def ct_tie_def ct_gliss_def ct_span_for_def Let_def)

text \<open>A fingering on a note of a chord of several notes is moved one spatium left and keeps autoplace.\<close>

lemma layoutFingering_chord:
  "fg_style f \<noteq> TS_OTHER \<Longrightarrow> fg_notes f \<noteq> 1 \<Longrightarrow> layoutFingering (Some f) = Some (- fg_spatium f, 0, False)"
  by (cases "fg_style f") (simp_all add: layoutFingering_def Let_def)

end
