(* ===== verification/Next_Measure.thy ===== *)
theory Next_Measure
  imports Layout_Prelude
begin

text \<open>
  The part of \<open>Score::getNextMeasure\<close> (\<open>src/libmscore/layout.cpp\<close>) that advances the
  measure cursor and does the bookkeeping for one measure: its tick, the first measure's
  reset of the tempo and time signature maps, the pause of a section break, the longest
  breath of a segment, the tempo change that an articulation's time stretch asks for,
  the time signatures each staff records, the time signature map event for a change of
  measure length or nominal time signature, and the tick the next measure starts at.  The
  element layout calls of that function (\<open>layout0\<close>, \<open>layoutArticulations\<close>,
  \<open>createBeams\<close>, \<open>layoutChords1\<close>, \<open>Chord::layout\<close>, \<open>createShapes\<close>) do not
  touch this state and are left out here; \<open>createBeams\<close> and \<open>layoutChords1\<close> are
  modelled in their own theories.  \<open>TempoMap\<close> and \<open>TimeSigMap\<close> live outside
  \<open>src/\<close>: they are ordered maps from ticks, modelled as association lists sorted by
  tick.
\<close>

subsection \<open>Ordered maps from ticks\<close>

text \<open>\<open>std::map\<close> insertion (replacing the entry at an equal key) into a list sorted by key.\<close>

fun am_upd :: "tick \<Rightarrow> 'v \<Rightarrow> (tick \<times> 'v) list \<Rightarrow> (tick \<times> 'v) list" where
  "am_upd k v [] = [(k, v)]"
| "am_upd k v ((k', v') # xs) =
     (if k < k' then (k, v) # (k', v') # xs
      else if k = k' then (k, v) # xs
      else (k', v') # am_upd k v xs)"

text \<open>The value in effect at tick \<open>t\<close>: that of the last key not after \<open>t\<close>, or the default.\<close>

definition am_at :: "'v \<Rightarrow> tick \<Rightarrow> (tick \<times> 'v) list \<Rightarrow> 'v" where
  "am_at d t xs = (case filter (\<lambda>(k, _). k \<le> t) xs of [] \<Rightarrow> d | ys \<Rightarrow> snd (last ys))"

subsection \<open>Tempo and time signature maps\<close>

text \<open>
  A \<open>TempoMap\<close> event: a tempo change, a pause, or both at one tick.  \<open>tempo(tick)\<close> is
  the tempo of the last event with a tempo at or before the tick (2.0 when none);
  \<open>setTempo\<close> and \<open>setPause\<close> set one part of the event at a tick and keep the other;
  \<open>find(tick)\<close> looks for an event at exactly that tick.
\<close>

record tevent =
  te_tempo :: "real option"
  te_pause :: "real option"

type_synonym tempo_map = "(tick \<times> tevent) list"

definition tm_event :: "tick \<Rightarrow> tempo_map \<Rightarrow> tevent" where
  "tm_event t tm = (case map_of tm t of Some e \<Rightarrow> e | None \<Rightarrow> \<lparr>te_tempo = None, te_pause = None\<rparr>)"

definition setTempo :: "tick \<Rightarrow> real \<Rightarrow> tempo_map \<Rightarrow> tempo_map" where
  "setTempo t v tm = am_upd t ((tm_event t tm)\<lparr>te_tempo := Some v\<rparr>) tm"

definition setPause :: "tick \<Rightarrow> real \<Rightarrow> tempo_map \<Rightarrow> tempo_map" where
  "setPause t p tm = am_upd t ((tm_event t tm)\<lparr>te_pause := Some p\<rparr>) tm"

definition tempo_at :: "tick \<Rightarrow> tempo_map \<Rightarrow> real" where
  "tempo_at t tm = am_at 2 t (map (\<lambda>(k, e). (k, the (te_tempo e))) (filter (\<lambda>(k, e). te_tempo e \<noteq> None) tm))"

text \<open>A fraction as numerator and denominator: \<open>identical\<close> compares both.\<close>

type_synonym frac = "int \<times> int"

text \<open>A \<open>SigEvent\<close>: the actual measure length, the nominal time signature, the measure number.\<close>

type_synonym sig_map = "(tick \<times> frac \<times> frac \<times> int) list"

subsection \<open>Measures and their segments\<close>

text \<open>A chord-rest as the tempo stretch reads it: its actual ticks and the time stretch of each articulation.\<close>

record nm_cr =
  cr_actual :: tick
  cr_stretches :: "real list"

text \<open>
  The segments \<open>getNextMeasure\<close> looks at, with their tick relative to the measure: a
  breath segment (the pause of the breath on each track, if there is one), a time
  signature segment (the time signature on each staff's first track, if any), a
  chord-rest segment (the chord-rest on each track), and any other segment.
\<close>

datatype nm_kind =
    NS_Breath "real option list"
  | NS_TimeSig "nat option list"
  | NS_ChordRest "nm_cr option list"
  | NS_Other

record nm_seg =
  sg_rel :: tick
  sg_kind :: nm_kind

record nm_measure =
  ms_ticks :: tick
  ms_len :: frac
  ms_timesig :: frac
  ms_no :: int
  ms_section_break :: bool
  ms_pause :: real
  ms_segs :: "nm_seg list"

text \<open>A measure base: a measure, or a frame (\<open>True\<close> for a vertical box).\<close>

datatype nm_base = NB_Measure nm_measure | NB_Box bool

text \<open>
  The state the bookkeeping reads and writes: \<open>lc.tick\<close>, \<open>lc.sig\<close>,
  \<open>lc.prevMeasure\<close>, the tick each base was placed at (\<open>moveTicks\<close>, \<open>setTick\<close>),
  the tempo map, the time signature map, and each staff's time signatures by tick.
\<close>

record nm_state =
  nm_tick :: tick
  nm_sig :: frac
  nm_prev :: "nm_base option"
  nm_placed :: "tick list"
  nm_tempo :: tempo_map
  nm_sigmap :: sig_map
  nm_staff_ts :: "nat \<Rightarrow> (tick \<times> nat) list"

subsection \<open>One measure\<close>

text \<open>The breath segment: the longest pause of its breaths, set at the segment's tick when not zero.\<close>

definition nm_breath :: "tick \<Rightarrow> real option list \<Rightarrow> tempo_map \<Rightarrow> tempo_map" where
  "nm_breath t bs tm =
     (let length = foldl (\<lambda>l b. case b of Some p \<Rightarrow> max l p | None \<Rightarrow> l) 0 bs
      in if length \<noteq> 0 then setPause t length tm else tm)"

text \<open>
  The time stretch of a chord-rest segment: the maximum time stretch of the
  articulations seen so far, over the chord-rests of the segment in track order; the first
  chord-rest at which it is neither 0 nor 1 divides the tempo at the segment's tick by it,
  restores the old tempo one tick before the chord-rest's end unless an event is already
  there, and ends the loop.
\<close>

fun nm_stretch :: "tick \<Rightarrow> real \<Rightarrow> nm_cr option list \<Rightarrow> tempo_map \<Rightarrow> tempo_map" where
  "nm_stretch t stretch [] tm = tm"
| "nm_stretch t stretch (None # es) tm = nm_stretch t stretch es tm"
| "nm_stretch t stretch (Some cr # es) tm =
     (let stretch' = foldl max stretch (cr_stretches cr)
      in if stretch' \<noteq> 0 \<and> stretch' \<noteq> 1 then
           let otempo = tempo_at t tm;
               tm1 = setTempo t (otempo / stretch') tm;
               etick = t + cr_actual cr - 1
           in if map_of tm1 etick = None then setTempo etick otempo tm1 else tm1
         else nm_stretch t stretch' es tm)"

text \<open>The time signature segment: each staff records the time signature on its first track.\<close>

definition nm_timesigs :: "tick \<Rightarrow> nat option list \<Rightarrow> (nat \<Rightarrow> (tick \<times> nat) list) \<Rightarrow> nat \<Rightarrow> (tick \<times> nat) list" where
  "nm_timesigs t tss sts staffIdx =
     (if staffIdx < length tss then
        (case tss ! staffIdx of Some ts \<Rightarrow> am_upd t ts (sts staffIdx) | None \<Rightarrow> sts staffIdx)
      else sts staffIdx)"

text \<open>The segment loop of \<open>getNextMeasure\<close> for a measure at tick \<open>t\<close>.\<close>

definition nm_segment :: "bool \<Rightarrow> tick \<Rightarrow> nm_state \<Rightarrow> nm_seg \<Rightarrow> nm_state" where
  "nm_segment master t st sg =
     (let ts = t + sg_rel sg
      in case sg_kind sg of
           NS_Breath bs \<Rightarrow> st\<lparr>nm_tempo := nm_breath ts bs (nm_tempo st)\<rparr>
         | NS_TimeSig tss \<Rightarrow> st\<lparr>nm_staff_ts := nm_timesigs ts tss (nm_staff_ts st)\<rparr>
         | NS_ChordRest crs \<Rightarrow> if master then st\<lparr>nm_tempo := nm_stretch ts 0 crs (nm_tempo st)\<rparr> else st
         | NS_Other \<Rightarrow> st)"

text \<open>
  The first measure of a master score resets the maps: tempo 2.0 at tick 0, and a time
  signature event at tick 0 with the measure's length.
\<close>

definition nm_first :: "bool \<Rightarrow> nm_measure \<Rightarrow> nm_state \<Rightarrow> nm_state" where
  "nm_first master m st =
     (if master \<and> nm_prev st = None then
        st\<lparr>nm_sig := ms_len m, nm_tempo := setTempo 0 2 [], nm_sigmap := [(0, (ms_len m, ms_timesig m, 0))]\<rparr>
      else st)"

text \<open>
  The time signature map event at the measure's tick when its length is not identical to
  \<open>lc.sig\<close>, or when the previous base is a measure with another nominal time signature.
\<close>

definition nm_sig_update :: "bool \<Rightarrow> nm_measure \<Rightarrow> nm_state \<Rightarrow> nm_state" where
  "nm_sig_update master m st =
     (if master \<and> (ms_len m \<noteq> nm_sig st
                    \<or> (case nm_prev st of Some (NB_Measure pm) \<Rightarrow> ms_timesig m \<noteq> ms_timesig pm | _ \<Rightarrow> False))
      then st\<lparr>nm_sig := ms_len m, nm_sigmap := am_upd (nm_tick st) (ms_len m, ms_timesig m, ms_no m) (nm_sigmap st)\<rparr>
      else st)"

text \<open>
  One measure, from \<open>moveTicks\<close> to \<open>lc.tick += measure->ticks()\<close>; the section
  break pause goes at the measure's end.
\<close>

definition nm_measure :: "bool \<Rightarrow> nm_measure \<Rightarrow> nm_state \<Rightarrow> nm_state" where
  "nm_measure master m st =
     (let t = nm_tick st;
          st1 = nm_first master m (st\<lparr>nm_placed := nm_placed st @ [t]\<rparr>);
          st2 = (if ms_section_break m \<and> ms_pause m \<noteq> 0
                 then st1\<lparr>nm_tempo := setPause (t + ms_ticks m) (ms_pause m) (nm_tempo st1)\<rparr> else st1);
          st3 = foldl (nm_segment master t) st2 (ms_segs m);
          st4 = nm_sig_update master m st3
      in st4\<lparr>nm_tick := t + ms_ticks m\<rparr>)"

subsection \<open>The measure cursor\<close>

text \<open>
  The bases \<open>getNextMeasure\<close> hands out, in order: all of them with \<open>_showVBox\<close>
  (\<open>next()\<close>), only the measures without it (\<open>nextMeasure()\<close>); in line mode the
  vertical boxes are skipped.
\<close>

definition nm_cursor :: "bool \<Rightarrow> bool \<Rightarrow> nm_base list \<Rightarrow> nm_base list" where
  "nm_cursor showVBox lineMode bs =
     filter (\<lambda>b. case b of NB_Measure _ \<Rightarrow> True | NB_Box vbox \<Rightarrow> showVBox \<and> \<not> (lineMode \<and> vbox)) bs"

text \<open>
  One call of \<open>getNextMeasure\<close> on the base it hands out: a frame gets \<open>lc.tick\<close>; a
  measure is processed; either becomes \<open>lc.prevMeasure\<close> of the next call.
\<close>

definition getNextMeasure_step :: "bool \<Rightarrow> nm_state \<Rightarrow> nm_base \<Rightarrow> nm_state" where
  "getNextMeasure_step master st b =
     (case b of
        NB_Box _ \<Rightarrow> st\<lparr>nm_placed := nm_placed st @ [nm_tick st], nm_prev := Some b\<rparr>
      | NB_Measure m \<Rightarrow> (nm_measure master m st)\<lparr>nm_prev := Some b\<rparr>)"

text \<open>The calls of \<open>getNextMeasure\<close> over a score, as \<open>doLayout\<close> makes them (without multi-measure rests).\<close>

definition nm_run :: "bool \<Rightarrow> bool \<Rightarrow> bool \<Rightarrow> nm_base list \<Rightarrow> nm_state \<Rightarrow> nm_state" where
  "nm_run master showVBox lineMode bs st = foldl (getNextMeasure_step master) st (nm_cursor showVBox lineMode bs)"

text \<open>Where each base handed out starts: a measure moves the tick on by its length, a frame does not.\<close>

fun nm_starts :: "tick \<Rightarrow> nm_base list \<Rightarrow> tick list" where
  "nm_starts t [] = []"
| "nm_starts t (NB_Measure m # bs) = t # nm_starts (t + ms_ticks m) bs"
| "nm_starts t (NB_Box v # bs) = t # nm_starts t bs"

definition base_ticks :: "nm_base \<Rightarrow> tick" where
  "base_ticks b = (case b of NB_Measure m \<Rightarrow> ms_ticks m | NB_Box _ \<Rightarrow> 0)"

text \<open>
  What the time signature map satisfies between two calls: sorted by tick, every event
  before \<open>lc.tick\<close>, and the last event's length is \<open>lc.sig\<close>.
\<close>

definition sig_inv :: "nm_state \<Rightarrow> bool" where
  "sig_inv st =
     (sorted_wrt (<) (map fst (nm_sigmap st)) \<and> (\<forall>k \<in> set (map fst (nm_sigmap st)). k < nm_tick st)
      \<and> nm_sigmap st \<noteq> [] \<and> fst (snd (last (nm_sigmap st))) = nm_sig st)"

text \<open>
  Examples: a measure of the given length and nominal time signature without segments,
  and a layout context before the first call (\<open>lc.tick\<close> 0, \<open>lc.sig\<close> the default
  fraction 0/1, no previous base) over a time signature map holding the events given.
\<close>

definition ex_nm :: "tick \<Rightarrow> frac \<Rightarrow> nm_measure" where
  "ex_nm ticks len = \<lparr>ms_ticks = ticks, ms_len = len, ms_timesig = len, ms_no = 0,
                      ms_section_break = False, ms_pause = 0, ms_segs = []\<rparr>"

definition ex_nm_state :: "sig_map \<Rightarrow> nm_state" where
  "ex_nm_state sm = \<lparr>nm_tick = 0, nm_sig = (0, 1), nm_prev = None, nm_placed = [], nm_tempo = [],
                      nm_sigmap = sm, nm_staff_ts = (\<lambda>_. [])\<rparr>"

subsection \<open>Ordered maps\<close>

lemma am_upd_mem: "(x, y) \<in> set (am_upd k v xs) \<Longrightarrow> x = k \<or> (\<exists>y'. (x, y') \<in> set xs)"
  by (induction xs) (auto split: if_splits)

lemma am_upd_sorted: "sorted_wrt (<) (map fst xs) \<Longrightarrow> sorted_wrt (<) (map fst (am_upd k v xs))"
proof (induction xs)
  case (Cons p xs)
  then show ?case
    by (cases p) (fastforce dest: am_upd_mem intro: less_trans)
qed simp

lemma am_upd_last: "\<forall>k' \<in> set (map fst xs). k' < k \<Longrightarrow> am_upd k v xs = xs @ [(k, v)]"
  by (induction xs) auto

lemma am_at_snoc: "am_at d t (xs @ [(k, v)]) = (if k \<le> t then v else am_at d t xs)"
  by (cases "k \<le> t") (simp_all add: am_at_def list.case_eq_if)

subsection \<open>Ticks\<close>

text \<open>The bookkeeping of a measure changes neither \<open>lc.tick\<close> nor the placed ticks.\<close>

lemma nm_segment_tick [simp]:
  "nm_tick (nm_segment master t st sg) = nm_tick st"
  "nm_placed (nm_segment master t st sg) = nm_placed st"
  "nm_sigmap (nm_segment master t st sg) = nm_sigmap st"
  "nm_sig (nm_segment master t st sg) = nm_sig st"
  "nm_prev (nm_segment master t st sg) = nm_prev st"
  by (simp_all add: nm_segment_def Let_def split: nm_kind.split)

lemma nm_segments_keep:
  "nm_tick (foldl (nm_segment master t) st sgs) = nm_tick st"
  "nm_placed (foldl (nm_segment master t) st sgs) = nm_placed st"
  "nm_sigmap (foldl (nm_segment master t) st sgs) = nm_sigmap st"
  "nm_sig (foldl (nm_segment master t) st sgs) = nm_sig st"
  "nm_prev (foldl (nm_segment master t) st sgs) = nm_prev st"
  by (rule foldl_keeps, simp)+

lemma nm_measure_tick:
  "nm_tick (nm_measure master m st) = nm_tick st + ms_ticks m"
  "nm_placed (nm_measure master m st) = nm_placed st @ [nm_tick st]"
  by (simp_all add: nm_measure_def Let_def nm_segments_keep nm_first_def nm_sig_update_def)

lemma nm_step_tick:
  "nm_tick (getNextMeasure_step master st b) = nm_tick st + base_ticks b"
  "nm_placed (getNextMeasure_step master st b) = nm_placed st @ [nm_tick st]"
  by (simp_all add: getNextMeasure_step_def base_ticks_def nm_measure_tick split: nm_base.split)

lemma nm_steps_tick:
  "nm_placed (foldl (getNextMeasure_step master) st bs) = nm_placed st @ nm_starts (nm_tick st) bs
   \<and> nm_tick (foldl (getNextMeasure_step master) st bs) = nm_tick st + sum_list (map base_ticks bs)"
proof (induction bs arbitrary: st)
  case (Cons b bs)
  show ?case
    by (cases b) (simp_all add: Cons.IH nm_step_tick base_ticks_def algebra_simps)
qed simp

lemma am_at_last: "xs \<noteq> [] \<Longrightarrow> \<forall>k \<in> set (map fst xs). k \<le> t \<Longrightarrow> am_at d t xs = snd (last xs)"
proof -
  assume "xs \<noteq> []" and "\<forall>k \<in> set (map fst xs). k \<le> t"
  then have "filter (\<lambda>(k, _). k \<le> t) xs = xs"
    by (auto simp: filter_id_conv)
  with \<open>xs \<noteq> []\<close> show ?thesis
    by (simp add: am_at_def list.case_eq_if)
qed

subsection \<open>The time signature map\<close>

lemma nm_first_keeps [simp]:
  "nm_sig (nm_first master m (st\<lparr>nm_placed := p\<rparr>)) = nm_sig (nm_first master m st)"
  "nm_sigmap (nm_first master m (st\<lparr>nm_placed := p\<rparr>)) = nm_sigmap (nm_first master m st)"
  "nm_prev (nm_first master m st) = nm_prev st"
  "nm_tick (nm_first master m st) = nm_tick st"
  by (simp_all add: nm_first_def)

lemma nm_measure_split:
  "\<exists>st3. nm_measure master m st = (nm_sig_update master m st3)\<lparr>nm_tick := nm_tick st + ms_ticks m\<rparr>
         \<and> nm_sig st3 = nm_sig (nm_first master m st) \<and> nm_sigmap st3 = nm_sigmap (nm_first master m st)
         \<and> nm_prev st3 = nm_prev st \<and> nm_tick st3 = nm_tick st"
  unfolding nm_measure_def Let_def
  by (rule exI, rule conjI [OF refl]) (simp add: nm_segments_keep)

lemma nm_sig_update_fields:
  "nm_sigmap (nm_sig_update master m st) =
     (if master \<and> (ms_len m \<noteq> nm_sig st
                  \<or> (case nm_prev st of Some (NB_Measure pm) \<Rightarrow> ms_timesig m \<noteq> ms_timesig pm | _ \<Rightarrow> False))
      then am_upd (nm_tick st) (ms_len m, ms_timesig m, ms_no m) (nm_sigmap st) else nm_sigmap st)"
  "nm_sig (nm_sig_update master m st) =
     (if master \<and> (ms_len m \<noteq> nm_sig st
                  \<or> (case nm_prev st of Some (NB_Measure pm) \<Rightarrow> ms_timesig m \<noteq> ms_timesig pm | _ \<Rightarrow> False))
      then ms_len m else nm_sig st)"
  by (auto simp: nm_sig_update_def split: option.split nm_base.split)

lemma nm_measure_sigmap:
  "nm_sigmap (nm_measure master m st) =
     (if master \<and> (ms_len m \<noteq> nm_sig (nm_first master m st)
                  \<or> (case nm_prev st of Some (NB_Measure pm) \<Rightarrow> ms_timesig m \<noteq> ms_timesig pm | _ \<Rightarrow> False))
      then am_upd (nm_tick st) (ms_len m, ms_timesig m, ms_no m) (nm_sigmap (nm_first master m st))
      else nm_sigmap (nm_first master m st))"
  "nm_sig (nm_measure master m st) =
     (if master \<and> (ms_len m \<noteq> nm_sig (nm_first master m st)
                  \<or> (case nm_prev st of Some (NB_Measure pm) \<Rightarrow> ms_timesig m \<noteq> ms_timesig pm | _ \<Rightarrow> False))
      then ms_len m else nm_sig (nm_first master m st))"
proof -
  obtain st3 where e: "nm_measure master m st = (nm_sig_update master m st3)\<lparr>nm_tick := nm_tick st + ms_ticks m\<rparr>"
    "nm_sig st3 = nm_sig (nm_first master m st)" "nm_sigmap st3 = nm_sigmap (nm_first master m st)"
    "nm_prev st3 = nm_prev st" "nm_tick st3 = nm_tick st"
    using nm_measure_split by blast
  show "nm_sigmap (nm_measure master m st) =
     (if master \<and> (ms_len m \<noteq> nm_sig (nm_first master m st)
                  \<or> (case nm_prev st of Some (NB_Measure pm) \<Rightarrow> ms_timesig m \<noteq> ms_timesig pm | _ \<Rightarrow> False))
      then am_upd (nm_tick st) (ms_len m, ms_timesig m, ms_no m) (nm_sigmap (nm_first master m st))
      else nm_sigmap (nm_first master m st))"
    using e by (auto simp: nm_sig_update_fields split: option.split nm_base.split)
  show "nm_sig (nm_measure master m st) =
     (if master \<and> (ms_len m \<noteq> nm_sig (nm_first master m st)
                  \<or> (case nm_prev st of Some (NB_Measure pm) \<Rightarrow> ms_timesig m \<noteq> ms_timesig pm | _ \<Rightarrow> False))
      then ms_len m else nm_sig (nm_first master m st))"
    using e by (auto simp: nm_sig_update_fields split: option.split nm_base.split)
qed

text \<open>A measure after the first: the invariant is kept, the lookup at the measure's tick gives its length, earlier lookups stay.\<close>

lemma sig_inv_snoc:
  assumes inv: "sig_inv st" and pos: "0 < ms_ticks m"
    and map': "nm_sigmap st' = nm_sigmap st @ [(nm_tick st, ms_len m, ms_timesig m, ms_no m)]"
    and sig': "nm_sig st' = ms_len m" and tick': "nm_tick st' = nm_tick st + ms_ticks m"
  shows "sig_inv st'"
proof -
  have s: "sorted_wrt (<) (map fst (nm_sigmap st))" and b: "\<forall>k \<in> set (map fst (nm_sigmap st)). k < nm_tick st"
    using inv by (simp_all add: sig_inv_def)
  have "sorted_wrt (<) (map fst (nm_sigmap st'))"
    using s b by (simp add: map' sorted_wrt_append)
  moreover have "\<forall>k \<in> set (map fst (nm_sigmap st')). k < nm_tick st'"
    using b pos by (fastforce simp: map' tick')
  ultimately show ?thesis
    by (simp add: sig_inv_def map' sig')
qed

lemma sig_inv_same:
  assumes inv: "sig_inv st" and pos: "0 < ms_ticks m"
    and map': "nm_sigmap st' = nm_sigmap st" and sig': "nm_sig st' = nm_sig st"
    and tick': "nm_tick st' = nm_tick st + ms_ticks m"
  shows "sig_inv st'"
proof -
  have "\<forall>k \<in> set (map fst (nm_sigmap st')). k < nm_tick st'"
    using inv pos by (fastforce simp: sig_inv_def map' tick')
  then show ?thesis
    using inv by (simp add: sig_inv_def map' sig')
qed

text \<open>A measure after the first: the invariant is kept, the lookup at the measure's tick gives its length, earlier lookups stay.\<close>

lemma nm_measure_sig:
  assumes inv: "sig_inv st" and prev: "nm_prev st \<noteq> None" and pos: "0 < ms_ticks m" and master
  shows "sig_inv (nm_measure master m st)
         \<and> fst (am_at d (nm_tick st) (nm_sigmap (nm_measure master m st))) = ms_len m
         \<and> (\<forall>t < nm_tick st. am_at d t (nm_sigmap (nm_measure master m st)) = am_at d t (nm_sigmap st))"
proof -
  let ?st' = "nm_measure master m st"
  have first: "nm_first x m st = st" for x
    using prev by (auto simp: nm_first_def)
  have below: "\<forall>k \<in> set (map fst (nm_sigmap st)). k < nm_tick st"
    using inv by (simp add: sig_inv_def)
  have tick': "nm_tick ?st' = nm_tick st + ms_ticks m"
    by (simp add: nm_measure_tick)
  let ?C = "ms_len m \<noteq> nm_sig st
            \<or> (case nm_prev st of Some (NB_Measure pm) \<Rightarrow> ms_timesig m \<noteq> ms_timesig pm | _ \<Rightarrow> False)"
  show ?thesis
  proof (cases ?C)
    case True
    have map': "nm_sigmap ?st' = nm_sigmap st @ [(nm_tick st, ms_len m, ms_timesig m, ms_no m)]"
      using True \<open>master\<close> below by (simp add: nm_measure_sigmap(1) first am_upd_last)
    have sig': "nm_sig ?st' = ms_len m"
      using True \<open>master\<close> by (simp add: nm_measure_sigmap(2) first)
    have "sig_inv ?st'"
      by (rule sig_inv_snoc [OF inv pos map' sig' tick'])
    then show ?thesis
      by (simp add: map' am_at_snoc)
  next
    case False
    have map': "nm_sigmap ?st' = nm_sigmap st"
      using False by (simp add: nm_measure_sigmap(1) first)
    have sig': "nm_sig ?st' = nm_sig st"
      using False by (simp add: nm_measure_sigmap(2) first)
    have "sig_inv ?st'"
      by (rule sig_inv_same [OF inv pos map' sig' tick'])
    moreover have "am_at d (nm_tick st) (nm_sigmap st) = snd (last (nm_sigmap st))"
      using inv below by (intro am_at_last) (auto simp: sig_inv_def)
    moreover have "ms_len m = nm_sig st"
      using False by blast
    ultimately show ?thesis
      using inv by (simp add: map' sig_inv_def)
  qed
qed

text \<open>The first measure of a master score with no base before it: the maps start afresh.\<close>

lemma nm_measure_first_sig:
  assumes prev: "nm_prev st = None" and pos: "0 < ms_ticks m" and nonneg: "0 \<le> nm_tick st" and master
  shows "sig_inv (nm_measure master m st)
         \<and> fst (am_at d (nm_tick st) (nm_sigmap (nm_measure master m st))) = ms_len m"
proof -
  have map': "nm_sigmap (nm_measure master m st) = [(0, ms_len m, ms_timesig m, 0)]"
    and sig': "nm_sig (nm_measure master m st) = ms_len m"
    using prev \<open>master\<close> by (simp_all add: nm_measure_sigmap nm_first_def nm_sig_update_def)
  show ?thesis
    using pos nonneg by (simp add: sig_inv_def map' sig' nm_measure_tick am_at_def)
qed

lemma nm_box_step [simp]:
  "nm_sigmap (getNextMeasure_step master st (NB_Box v)) = nm_sigmap st"
  "nm_sig (getNextMeasure_step master st (NB_Box v)) = nm_sig st"
  "nm_prev (getNextMeasure_step master st b) = Some b"
  by (simp_all add: getNextMeasure_step_def split: nm_base.split)

lemma nm_starts_Cons: "nm_starts t (b # bs) = t # nm_starts (t + base_ticks b) bs"
  by (cases b) (simp_all add: base_ticks_def)

lemma nm_cursor_subset: "set (nm_cursor showVBox lineMode bs) \<subseteq> set bs"
  by (auto simp: nm_cursor_def)

lemma nm_step_sig:
  assumes master and inv: "sig_inv st" and prev: "nm_prev st \<noteq> None"
    and pos: "\<forall>m. b = NB_Measure m \<longrightarrow> 0 < ms_ticks m"
  shows "sig_inv (getNextMeasure_step master st b)
         \<and> (\<forall>t < nm_tick st. am_at d t (nm_sigmap (getNextMeasure_step master st b)) = am_at d t (nm_sigmap st))
         \<and> (\<forall>m. b = NB_Measure m \<longrightarrow> fst (am_at d (nm_tick st) (nm_sigmap (getNextMeasure_step master st b))) = ms_len m)"
proof (cases b)
  case (NB_Measure m)
  then show ?thesis
    using nm_measure_sig [OF inv prev _ \<open>master\<close>, of m d] pos
    by (simp add: getNextMeasure_step_def sig_inv_def)
next
  case (NB_Box v)
  then show ?thesis
    using inv by (simp add: getNextMeasure_step_def sig_inv_def)
qed

lemma nm_steps_sig:
  assumes master
  shows "sig_inv st \<Longrightarrow> nm_prev st \<noteq> None \<Longrightarrow> \<forall>m. NB_Measure m \<in> set bs \<longrightarrow> 0 < ms_ticks m \<Longrightarrow>
         sig_inv (foldl (getNextMeasure_step master) st bs)
         \<and> (\<forall>t < nm_tick st. am_at d t (nm_sigmap (foldl (getNextMeasure_step master) st bs)) = am_at d t (nm_sigmap st))
         \<and> (\<forall>(t, b) \<in> set (zip (nm_starts (nm_tick st) bs) bs).
              \<forall>m. b = NB_Measure m \<longrightarrow> fst (am_at d t (nm_sigmap (foldl (getNextMeasure_step master) st bs))) = ms_len m)"
proof (induction bs arbitrary: st)
  case (Cons b bs)
  let ?st1 = "getNextMeasure_step master st b"
  have pos: "\<forall>m. b = NB_Measure m \<longrightarrow> 0 < ms_ticks m"
    using Cons.prems(3) by simp
  have step: "sig_inv ?st1"
    "\<forall>t < nm_tick st. am_at d t (nm_sigmap ?st1) = am_at d t (nm_sigmap st)"
    "\<forall>m. b = NB_Measure m \<longrightarrow> fst (am_at d (nm_tick st) (nm_sigmap ?st1)) = ms_len m"
    using nm_step_sig [OF \<open>master\<close> Cons.prems(1,2) pos] by blast+
  have tick1: "nm_tick ?st1 = nm_tick st + base_ticks b"
    by (simp add: nm_step_tick)
  have ge: "nm_tick st \<le> nm_tick ?st1" and gt: "\<forall>m. b = NB_Measure m \<longrightarrow> nm_tick st < nm_tick ?st1"
    using pos unfolding tick1 by (auto simp: base_ticks_def split: nm_base.split)
  have IH: "sig_inv (foldl (getNextMeasure_step master) ?st1 bs)"
    "\<forall>t < nm_tick ?st1. am_at d t (nm_sigmap (foldl (getNextMeasure_step master) ?st1 bs)) = am_at d t (nm_sigmap ?st1)"
    "\<forall>(t, b) \<in> set (zip (nm_starts (nm_tick ?st1) bs) bs).
       \<forall>m. b = NB_Measure m \<longrightarrow> fst (am_at d t (nm_sigmap (foldl (getNextMeasure_step master) ?st1 bs))) = ms_len m"
    using Cons.IH [OF step(1)] Cons.prems(3) by auto
  let ?fin = "foldl (getNextMeasure_step master) ?st1 bs"
  have earlier: "\<forall>t < nm_tick st. am_at d t (nm_sigmap ?fin) = am_at d t (nm_sigmap st)"
    using IH(2) step(2) ge by auto
  have head: "\<forall>m. b = NB_Measure m \<longrightarrow> fst (am_at d (nm_tick st) (nm_sigmap ?fin)) = ms_len m"
    using IH(2) step(3) gt by auto
  have rest: "\<forall>(t, b) \<in> set (zip (nm_starts (nm_tick st + base_ticks b) bs) bs).
       \<forall>m. b = NB_Measure m \<longrightarrow> fst (am_at d t (nm_sigmap ?fin)) = ms_len m"
    using IH(3) by (simp only: tick1)
  show ?case
    unfolding foldl_Cons nm_starts_Cons zip_Cons_Cons list.set(2) ball_simps(7)
    using IH(1) earlier head rest by simp
qed (simp add: sig_inv_def)

subsection \<open>The claims\<close>

text \<open>
  C37: over the bases \<open>getNextMeasure\<close> hands out, each is placed at the tick where
  the previous one ended (a frame takes no time), and \<open>lc.tick\<close> ends at the start plus
  the measures' lengths in ticks.
\<close>

theorem nm_run_placed:
  "nm_placed (nm_run master showVBox lineMode bs st)
     = nm_placed st @ nm_starts (nm_tick st) (nm_cursor showVBox lineMode bs)
   \<and> nm_tick (nm_run master showVBox lineMode bs st)
     = nm_tick st + sum_list (map base_ticks (nm_cursor showVBox lineMode bs))"
  unfolding nm_run_def by (rule nm_steps_tick)

text \<open>
  C15: in a master score whose first base handed out is a measure, after the calls of
  \<open>getNextMeasure\<close> the time signature map gives every measure, at the tick it was
  placed at, its own length, and holds no event at or after the end of the last measure.
\<close>

theorem nm_run_sigmap:
  assumes master and "nm_prev st = None" and "0 \<le> nm_tick st"
    and cur: "nm_cursor showVBox lineMode bs = NB_Measure m0 # cs"
    and pos: "\<forall>m. NB_Measure m \<in> set bs \<longrightarrow> 0 < ms_ticks m"
  shows "(\<forall>(t, b) \<in> set (zip (nm_starts (nm_tick st) (nm_cursor showVBox lineMode bs)) (nm_cursor showVBox lineMode bs)).
            \<forall>m. b = NB_Measure m \<longrightarrow> fst (am_at d t (nm_sigmap (nm_run master showVBox lineMode bs st))) = ms_len m)
         \<and> (\<forall>k \<in> set (map fst (nm_sigmap (nm_run master showVBox lineMode bs st))). k < nm_tick (nm_run master showVBox lineMode bs st))"
proof -
  let ?st1 = "getNextMeasure_step master st (NB_Measure m0)"
  have m0: "0 < ms_ticks m0" and cs: "\<forall>m. NB_Measure m \<in> set cs \<longrightarrow> 0 < ms_ticks m"
    using pos nm_cursor_subset [of showVBox lineMode bs] cur by auto
  have first: "sig_inv ?st1" "fst (am_at d (nm_tick st) (nm_sigmap ?st1)) = ms_len m0"
    using nm_measure_first_sig [OF assms(2) m0 assms(3) \<open>master\<close>, of d]
    by (simp_all add: getNextMeasure_step_def sig_inv_def)
  have tick1: "nm_tick ?st1 = nm_tick st + ms_ticks m0"
    by (simp add: nm_step_tick base_ticks_def)
  have run: "nm_run master showVBox lineMode bs st = foldl (getNextMeasure_step master) ?st1 cs"
    by (simp add: nm_run_def cur)
  have IH: "sig_inv (foldl (getNextMeasure_step master) ?st1 cs)"
    "\<forall>t < nm_tick ?st1. am_at d t (nm_sigmap (foldl (getNextMeasure_step master) ?st1 cs)) = am_at d t (nm_sigmap ?st1)"
    "\<forall>(t, b) \<in> set (zip (nm_starts (nm_tick ?st1) cs) cs).
       \<forall>m. b = NB_Measure m \<longrightarrow> fst (am_at d t (nm_sigmap (foldl (getNextMeasure_step master) ?st1 cs))) = ms_len m"
    using nm_steps_sig [OF \<open>master\<close> first(1) _ cs, of d] by simp_all
  have head: "fst (am_at d (nm_tick st) (nm_sigmap (foldl (getNextMeasure_step master) ?st1 cs))) = ms_len m0"
    using IH(2) first(2) m0 by (simp add: tick1)
  show ?thesis
    unfolding run cur nm_starts.simps zip_Cons_Cons list.set(2) ball_simps(7)
    using head IH(1,3) m0 by (auto simp: tick1 sig_inv_def)
qed

theorem nm_run_sigmap_witness:
  "nm_prev (ex_nm_state []) = None \<and> 0 \<le> nm_tick (ex_nm_state [])
   \<and> nm_cursor True False [NB_Measure (ex_nm 1920 (4, 4)), NB_Measure (ex_nm 1440 (3, 4)), NB_Box True, NB_Measure (ex_nm 1920 (4, 4))]
       = NB_Measure (ex_nm 1920 (4, 4)) # [NB_Measure (ex_nm 1440 (3, 4)), NB_Box True, NB_Measure (ex_nm 1920 (4, 4))]
   \<and> fst (am_at ((0, 1), (0, 1), 0) 1920 (nm_sigmap (nm_run True True False
       [NB_Measure (ex_nm 1920 (4, 4)), NB_Measure (ex_nm 1440 (3, 4)), NB_Box True, NB_Measure (ex_nm 1920 (4, 4))]
       (ex_nm_state [])))) = (3, 4)
   \<and> fst (am_at ((0, 1), (0, 1), 0) 3360 (nm_sigmap (nm_run True True False
       [NB_Measure (ex_nm 1920 (4, 4)), NB_Measure (ex_nm 1440 (3, 4)), NB_Box True, NB_Measure (ex_nm 1920 (4, 4))]
       (ex_nm_state [])))) = (4, 4)"
proof -
  let ?bs = "[NB_Measure (ex_nm 1920 (4, 4)), NB_Measure (ex_nm 1440 (3, 4)), NB_Box True, NB_Measure (ex_nm 1920 (4, 4))]"
  have h: "nm_prev (ex_nm_state []) = None" "0 \<le> nm_tick (ex_nm_state [])"
    "nm_cursor True False ?bs = NB_Measure (ex_nm 1920 (4, 4)) # [NB_Measure (ex_nm 1440 (3, 4)), NB_Box True, NB_Measure (ex_nm 1920 (4, 4))]"
    "\<forall>m. NB_Measure m \<in> set ?bs \<longrightarrow> 0 < ms_ticks m"
    by (auto simp: ex_nm_state_def nm_cursor_def ex_nm_def)
  have "(\<forall>(t, b) \<in> set (zip (nm_starts 0 (nm_cursor True False ?bs)) (nm_cursor True False ?bs)).
            \<forall>m. b = NB_Measure m \<longrightarrow> fst (am_at ((0, 1), (0, 1), 0) t (nm_sigmap (nm_run True True False ?bs (ex_nm_state [])))) = ms_len m)"
    using nm_run_sigmap [where master = True and d = "((0, 1), (0, 1), 0)", OF TrueI h(1) h(2) h(3) h(4)]
    by (simp add: ex_nm_state_def)
  then show ?thesis
    using h by (simp add: h(3) ex_nm_def)
qed

subsection \<open>Examples\<close>

text \<open>
  A score that opens with a title frame: the first measure is not treated as the first,
  so the maps are not reset, and an event left from an earlier layout (3/4 at tick 3840)
  survives though the measure placed there is 4/4.
\<close>

lemma nm_run_title_frame_stale:
  "nm_placed (nm_run True True False [NB_Box True, NB_Measure (ex_nm 1920 (4, 4)), NB_Measure (ex_nm 1920 (4, 4)), NB_Measure (ex_nm 1920 (4, 4))]
                (ex_nm_state [(3840, (3, 4), (3, 4), 3)])) = [0, 0, 1920, 3840]
   \<and> fst (am_at ((0, 1), (0, 1), 0) 3840
        (nm_sigmap (nm_run True True False [NB_Box True, NB_Measure (ex_nm 1920 (4, 4)), NB_Measure (ex_nm 1920 (4, 4)), NB_Measure (ex_nm 1920 (4, 4))]
                (ex_nm_state [(3840, (3, 4), (3, 4), 3)])))) = (3, 4)"
  by (simp add: nm_run_def nm_cursor_def getNextMeasure_step_def nm_measure_def nm_first_def nm_sig_update_def
      ex_nm_def ex_nm_state_def am_at_def)

text \<open>
  The time stretch carries over from one chord-rest of a segment to the next: after a
  chord-rest whose articulation has stretch 1, a later stretch of 1/2 is masked by the
  maximum and the tempo is not changed; alone, the same chord-rest halves the tempo.
\<close>

lemma nm_stretch_carry:
  "nm_stretch 0 0 [Some \<lparr>cr_actual = 480, cr_stretches = [1]\<rparr>, Some \<lparr>cr_actual = 480, cr_stretches = [1 / 2]\<rparr>] [] = []
   \<and> nm_stretch 0 0 [None, Some \<lparr>cr_actual = 480, cr_stretches = [1 / 2]\<rparr>] [] \<noteq> []"
  by (simp add: setTempo_def tm_event_def Let_def)

end
