(* ===== verification/System_Passes.thy ===== *)
theory System_Passes
  imports Layout_Helpers Collect_System
begin

text \<open>
  The element passes at the end of \<open>Score::collectSystem\<close> and \<open>Score::collectPage\<close>
  (\<open>src/libmscore/layout.cpp\<close>) that decide which elements are laid out and where their
  shapes go: the system's tick range, the beams, tempo texts, texts and dynamics of each
  chord-rest segment, the spanners laid out for the system with the vertical alignment of
  voltas, the spanner shapes added to the measures, and the flags collectSystem leaves in
  the layout context.  Element layout itself (\<open>layout()\<close>, \<open>layoutSystem\<close>,
  \<open>shape()\<close>) is outside \<open>src/\<close>: a call is recorded as an action in a trace, in the
  order the code makes it, and shapes are named by the element they come from.
\<close>

subsection \<open>Elements, segments and measures\<close>

text \<open>
  A note: its tie forward and the spanners it starts (numbers).  A grace chord: its beam
  (number, and whether the chord is the beam's first element), its notes, and the slurs
  among its elements.  A chord: its number, grace chords and notes.
\<close>

record snote =
  sn_tie :: "nat option"
  sn_spanners :: "nat list"

record sgrace =
  sg_beam :: "(nat \<times> bool) option"
  sg_notes :: "snote list"
  sg_slurs :: "nat list"

record schord =
  sc_id :: nat
  sc_graces :: "sgrace list"
  sc_notes :: "snote list"

text \<open>
  A chord-rest as these passes read it: its beam, if any (the beam's number, its
  \<open>beam_v\<close> data, and whether the chord-rest is the beam's first element), as
  \<open>isTopBeam\<close> and \<open>notTopBeam\<close> of \<open>Layout_Helpers\<close> take it.
\<close>

record scr =
  scr_beam :: "(nat \<times> beam_v \<times> bool) option"
  scr_chord :: "schord option"

definition scr_topbeam :: "scr \<Rightarrow> (beam_v \<times> bool) option" where
  "scr_topbeam cr = map_option snd (scr_beam cr)"

text \<open>
  The annotations of a segment: a tempo text (number, tempo, visible, staff), a rehearsal
  mark or staff text (number, visible, staff), a dynamic (number, visible, autoplace,
  staff), and any other.
\<close>

datatype sann =
    SA_Tempo nat real bool nat
  | SA_Text nat bool nat
  | SA_Dynamic nat bool bool nat
  | SA_Other

text \<open>An element on a track of a segment: a chord-rest, a bar line (its number), or another element.\<close>

datatype sel = SE_CR scr | SE_BarLine nat | SE_Other

record sseg =
  ss_tick :: tick
  ss_chordrest :: bool
  ss_els :: "sel option list"
  ss_anns :: "sann list"

text \<open>A measure: its number, tick, end tick, segments, and its section break (with \<open>startWithLongNames\<close>) if any.\<close>

record smeasure =
  sm_id :: nat
  sm_tick :: tick
  sm_end_tick :: tick
  sm_segs :: "sseg list"
  sm_section_break :: "bool option"

datatype smb = SMB_Measure smeasure | SMB_Box

text \<open>A hairpin of the spanner map: its number, ticks, and the dynamics at its start and end element.\<close>

record hairpin =
  hp_tick :: tick
  hp_tick2 :: tick
  hp_start_dyn :: "nat option"
  hp_end_dyn :: "nat option"

text \<open>The calls the passes make, in order.\<close>

datatype lay_action =
    LA_Beam nat
  | LA_Tempo tick real
  | LA_Layout nat
  | LA_Shape nat nat
  | LA_Autoplace nat
  | LA_LayoutSystem nat
  | LA_Arpeggio2 nat
  | LA_Layout2 nat

subsection \<open>The system's tick range\<close>

text \<open>\<open>stick\<close> and \<open>etick\<close>: the first measure's tick and the last measure's end tick, \<open>-1\<close> without measures.\<close>

definition cs_tick_range :: "smb list \<Rightarrow> tick \<times> tick" where
  "cs_tick_range mbs =
     foldl (\<lambda>(stick, etick) mb. case mb of
              SMB_Measure m \<Rightarrow> (if stick = -1 then sm_tick m else stick, sm_end_tick m)
            | SMB_Box \<Rightarrow> (stick, etick)) (-1, -1) mbs"

subsection \<open>Beams and annotations of a chord-rest segment\<close>

text \<open>A chord-rest on track \<open>i\<close>: a top beam is laid out and its shape added to the staff.\<close>

definition cs_cr :: "nat \<Rightarrow> sel option \<Rightarrow> lay_action list" where
  "cs_cr i e =
     (case e of
        Some (SE_CR cr) \<Rightarrow> (case scr_beam cr of
                      Some (bm, _) \<Rightarrow> if isTopBeam (scr_topbeam cr) then [LA_Beam bm, LA_Shape (i div VOICES) bm] else []
                    | None \<Rightarrow> [])
      | _ \<Rightarrow> [])"

text \<open>
  Whether a dynamic at \<open>tick\<close> is autoplaced: not when a hairpin of the spanner map
  overlapping the tick starts or ends at it.
\<close>

definition cs_do_autoplace :: "hairpin list \<Rightarrow> tick \<Rightarrow> nat \<Rightarrow> bool" where
  "cs_do_autoplace hps t d =
     (\<not> list_ex (\<lambda>h. hp_tick h \<le> t \<and> t \<le> hp_tick2 h \<and> (hp_start_dyn h = Some d \<or> hp_end_dyn h = Some d)) hps)"

definition cs_ann :: "hairpin list \<Rightarrow> tick \<Rightarrow> sann \<Rightarrow> lay_action list" where
  "cs_ann hps t a =
     (case a of
        SA_Tempo n tempo vis st \<Rightarrow> [LA_Tempo t tempo, LA_Layout n] @ (if vis then [LA_Shape st n] else [])
      | SA_Text n vis st \<Rightarrow> if vis then [LA_Layout n, LA_Shape st n] else []
      | SA_Dynamic n vis auto st \<Rightarrow>
          if vis then LA_Layout n # (if auto \<and> cs_do_autoplace hps t n then [LA_Autoplace n, LA_Shape st n] else [])
          else []
      | SA_Other \<Rightarrow> [])"

definition cs_segment :: "hairpin list \<Rightarrow> sseg \<Rightarrow> lay_action list" where
  "cs_segment hps s =
     (if ss_chordrest s
      then concat (map (\<lambda>(i, e). cs_cr i e) (enumerate 0 (ss_els s))) @ concat (map (cs_ann hps (ss_tick s)) (ss_anns s))
      else [])"

text \<open>The pass over the system's measures (frames skipped).\<close>

definition cs_elements :: "hairpin list \<Rightarrow> smb list \<Rightarrow> lay_action list" where
  "cs_elements hps mbs =
     concat (map (\<lambda>mb. case mb of SMB_Measure m \<Rightarrow> concat (map (cs_segment hps) (sm_segs m)) | SMB_Box \<Rightarrow> []) mbs)"

subsection \<open>Spanners of the system\<close>

text \<open>
  A spanner with its segment on this system: number, ticks, whether it is an ottava, a
  volta, whether the segment is autoplaced, the segment's user y offset, staff, and whether
  the segment is a lyrics line segment.
\<close>

record sspan =
  ssp_id :: nat
  ssp_tick :: tick
  ssp_tick2 :: tick
  ssp_ottava :: bool
  ssp_volta :: bool
  ssp_autoplace :: bool
  ssp_yoff :: real
  ssp_staff :: nat
  ssp_lyricsline :: bool

text \<open>\<open>spannerMap().findOverlapping(stick, etick)\<close>: the spanners whose closed tick interval meets \<open>[stick, etick]\<close>.\<close>

definition findOverlapping :: "sspan list \<Rightarrow> tick \<Rightarrow> tick \<Rightarrow> sspan list" where
  "findOverlapping sps stick etick = filter (\<lambda>sp. ssp_tick sp \<le> etick \<and> stick \<le> ssp_tick2 sp) sps"

text \<open>The spanners \<open>layoutSystem\<close> is called on: those strictly inside the system's range.\<close>

definition cs_managed :: "tick \<Rightarrow> tick \<Rightarrow> sspan \<Rightarrow> bool" where
  "cs_managed stick etick sp \<longleftrightarrow> ssp_tick sp < etick \<and> stick < ssp_tick2 sp"

text \<open>The ottava sanity check: an ottava of length 0 is extended to the end of the score.\<close>

definition cs_ottava_fix :: "tick \<Rightarrow> sspan \<Rightarrow> sspan" where
  "cs_ottava_fix lastEnd sp =
     (if ssp_ottava sp \<and> ssp_tick2 sp - ssp_tick sp = 0 then sp\<lparr>ssp_tick2 := lastEnd\<rparr> else sp)"

text \<open>The vertical alignment of the autoplaced volta segments: with more than one, all get the least user offset, at most 0.\<close>

definition cs_volta_y :: "sspan list \<Rightarrow> real" where
  "cs_volta_y vs = foldl (\<lambda>y ss. min y (ssp_yoff ss)) 0 vs"

definition cs_is_volta :: "sspan \<Rightarrow> bool" where
  "cs_is_volta sp \<longleftrightarrow> ssp_volta sp \<and> ssp_autoplace sp"

definition cs_align_voltas :: "sspan list \<Rightarrow> sspan list" where
  "cs_align_voltas laid =
     (let vs = filter cs_is_volta laid
      in if 1 < length vs
         then map (\<lambda>sp. if cs_is_volta sp then sp\<lparr>ssp_yoff := cs_volta_y vs\<rparr> else sp) laid
         else laid)"

text \<open>
  The spanner part of \<open>collectSystem\<close> for a system with range \<open>(stick, etick)\<close>: the
  spanners laid out (after the ottava check, with the voltas aligned) and the calls made,
  \<open>layoutSystem\<close> on each spanner in order and then \<open>layout()\<close> on each unmanaged spanner
  that reaches into the range.  Nothing for a system without measures (a frame).
\<close>

definition cs_spanners :: "tick \<Rightarrow> tick \<Rightarrow> tick \<Rightarrow> sspan list \<Rightarrow> sspan list \<Rightarrow> sspan list \<times> lay_action list" where
  "cs_spanners lastEnd stick etick spmap unmanaged =
     (if stick < etick then
        let laid = map (cs_ottava_fix lastEnd) (filter (cs_managed stick etick) (findOverlapping spmap stick etick))
        in (cs_align_voltas laid,
            map (LA_LayoutSystem \<circ> ssp_id) laid
            @ map (LA_Layout \<circ> ssp_id) (filter (\<lambda>sp. \<not> (etick \<le> ssp_tick sp \<or> ssp_tick2 sp < stick)) unmanaged))
      else ([], []))"

text \<open>
  The spanner segment shapes added to the measures: each segment of the system whose
  spanner meets a measure goes to that measure's staff shape (a lyrics line segment with
  another translation).  Result: measure, staff, spanner, lyrics line.
\<close>

definition cs_span_shapes :: "smb list \<Rightarrow> sspan list \<Rightarrow> (nat \<times> nat \<times> nat \<times> bool) list" where
  "cs_span_shapes mbs segs =
     concat (map (\<lambda>mb. case mb of
                    SMB_Measure m \<Rightarrow>
                      map (\<lambda>ss. (sm_id m, ssp_staff ss, ssp_id ss, ssp_lyricsline ss))
                        (filter (\<lambda>ss. ssp_tick ss < sm_end_tick m \<and> ssp_tick2 ss > sm_tick m) segs)
                  | SMB_Box \<Rightarrow> []) mbs)"

subsection \<open>The layout context after \<open>collectSystem\<close>\<close>

text \<open>
  \<open>lc.firstSystem\<close> and \<open>lc.startWithLongNames\<close> from the section break of the system's
  last measure (unchanged when the system has none), and \<open>lc.systemChanged\<close>: whether the
  system's last base differs from the one it had before (\<open>lc.systemOldMeasure\<close>).
\<close>

definition cs_last_measure :: "smb list \<Rightarrow> smeasure option" where
  "cs_last_measure mbs = (case filter (\<lambda>mb. mb \<noteq> SMB_Box) mbs of [] \<Rightarrow> None | xs \<Rightarrow> (case last xs of SMB_Measure m \<Rightarrow> Some m | SMB_Box \<Rightarrow> None))"

definition cs_lc_flags :: "layout_mode \<Rightarrow> smb option \<Rightarrow> smb list \<Rightarrow> bool \<times> bool \<Rightarrow> bool \<times> bool \<times> bool" where
  "cs_lc_flags mode oldMeasure mbs flags =
     (let (fs, lng) = (case cs_last_measure mbs of
                         Some lm \<Rightarrow> let fs = (sm_section_break lm \<noteq> None \<and> mode \<noteq> LM_FLOAT)
                                   in (fs, fs \<and> sm_section_break lm = Some True)
                       | None \<Rightarrow> flags)
      in (fs, lng, oldMeasure \<noteq> (if mbs = [] then None else Some (last mbs))))"

subsection \<open>The element pass of \<open>collectPage\<close>\<close>

text \<open>The ties and the spanners started by a list of notes.\<close>

definition cp_notes :: "snote list \<Rightarrow> lay_action list" where
  "cp_notes ns = concat (map (\<lambda>n. (case sn_tie n of Some t \<Rightarrow> [LA_Layout t] | None \<Rightarrow> []) @ map LA_Layout (sn_spanners n)) ns)"

text \<open>A grace chord: its beam when it is the beam's first element, its notes' ties and spanners, its slurs.\<close>

definition cp_grace :: "sgrace \<Rightarrow> lay_action list" where
  "cp_grace g =
     (case sg_beam g of Some (bm, True) \<Rightarrow> [LA_Beam bm] | _ \<Rightarrow> []) @ cp_notes (sg_notes g) @ map LA_Layout (sg_slurs g)"

text \<open>
  The element on a track: a chord-rest on a shown staff gets its beam laid out when it
  is not a top beam (cross-staff beams), then, for a chord, its grace chords, the second
  arpeggio pass and its notes' ties and spanners; a bar line is laid out.
\<close>

definition cp_el :: "(nat \<Rightarrow> bool) \<Rightarrow> nat \<Rightarrow> sel option \<Rightarrow> lay_action list" where
  "cp_el shown track e =
     (case e of
        Some (SE_CR cr) \<Rightarrow>
          if \<not> shown (track div VOICES) then []
          else (if notTopBeam (scr_topbeam cr) then (case scr_beam cr of Some (bm, _) \<Rightarrow> [LA_Beam bm] | None \<Rightarrow> []) else [])
               @ (case scr_chord cr of
                    Some c \<Rightarrow> concat (map cp_grace (sc_graces c)) @ [LA_Arpeggio2 (sc_id c)] @ cp_notes (sc_notes c)
                  | None \<Rightarrow> [])
      | Some (SE_BarLine n) \<Rightarrow> [LA_Layout n]
      | _ \<Rightarrow> [])"

definition seg_el :: "sseg \<Rightarrow> nat \<Rightarrow> sel option" where
  "seg_el s track = (if track < length (ss_els s) then ss_els s ! track else None)"

text \<open>A measure: the tracks, each over all segments, then \<open>Measure::layout2\<close>.\<close>

definition cp_measure :: "(nat \<Rightarrow> bool) \<Rightarrow> nat \<Rightarrow> smeasure \<Rightarrow> lay_action list" where
  "cp_measure shown tracks m =
     concat (map (\<lambda>track. concat (map (\<lambda>s. cp_el shown track (seg_el s track)) (sm_segs m))) [0..<tracks])
     @ [LA_Layout2 (sm_id m)]"

text \<open>The pass over the page's systems and their measures (frames skipped).\<close>

definition cp_elements :: "(nat \<Rightarrow> bool) \<Rightarrow> nat \<Rightarrow> smb list list \<Rightarrow> lay_action list" where
  "cp_elements shown tracks syss =
     concat (map (\<lambda>mbs. concat (map (\<lambda>mb. case mb of SMB_Measure m \<Rightarrow> cp_measure shown tracks m | SMB_Box \<Rightarrow> []) mbs)) syss)"

text \<open>\<open>lc.pageChanged\<close>: a system changed, or the page's last system is not the one it had.\<close>

definition cp_page_changed :: "bool \<Rightarrow> 'sys option \<Rightarrow> 'sys list \<Rightarrow> bool" where
  "cp_page_changed systemChanged pageOldSystem systems \<longleftrightarrow>
     systemChanged \<or> pageOldSystem \<noteq> (if systems = [] then None else Some (last systems))"

subsection \<open>Beams laid out by the two passes\<close>

text \<open>
  How often a beam should be laid out for the element on track \<open>i\<close>: once for a
  chord-rest that is the beam's first element when it is a top beam or its staff is shown,
  and once for each grace chord of it on a shown staff that starts the beam.
\<close>

definition beam_first :: "nat \<Rightarrow> scr \<Rightarrow> bool" where
  "beam_first b cr = (case scr_beam cr of Some (b', _, True) \<Rightarrow> b' = b | _ \<Rightarrow> False)"

definition grace_firsts :: "nat \<Rightarrow> scr \<Rightarrow> nat" where
  "grace_firsts b cr = (case scr_chord cr of Some c \<Rightarrow> length (filter (\<lambda>g. sg_beam g = Some (b, True)) (sc_graces c)) | None \<Rightarrow> 0)"

definition beam_expected :: "(nat \<Rightarrow> bool) \<Rightarrow> nat \<Rightarrow> nat \<Rightarrow> sel option \<Rightarrow> nat" where
  "beam_expected shown b i e =
     (case e of
        Some (SE_CR cr) \<Rightarrow> (if beam_first b cr \<and> (isTopBeam (scr_topbeam cr) \<or> shown (i div VOICES)) then 1 else 0)
                          + (if shown (i div VOICES) then grace_firsts b cr else 0)
      | _ \<Rightarrow> 0)"

definition n_beam_expected :: "(nat \<Rightarrow> bool) \<Rightarrow> nat \<Rightarrow> smb list list \<Rightarrow> nat" where
  "n_beam_expected shown b syss =
     sum_list (map (\<lambda>mbs. sum_list (map (\<lambda>mb. case mb of
         SMB_Measure m \<Rightarrow> sum_list (map (\<lambda>s. sum_list (map (\<lambda>(i, e). beam_expected shown b i e) (enumerate 0 (ss_els s)))) (sm_segs m))
       | SMB_Box \<Rightarrow> 0) mbs)) syss)"

text \<open>The segments of a score: every one has a slot per track, and chord-rests only in chord-rest segments.\<close>

definition seg_wf :: "nat \<Rightarrow> sseg \<Rightarrow> bool" where
  "seg_wf tracks s \<longleftrightarrow> length (ss_els s) = tracks \<and> (ss_chordrest s \<or> list_all (\<lambda>e. case e of Some (SE_CR _) \<Rightarrow> False | _ \<Rightarrow> True) (ss_els s))"

definition syss_wf :: "nat \<Rightarrow> smb list list \<Rightarrow> bool" where
  "syss_wf tracks syss \<longleftrightarrow>
     list_all (list_all (\<lambda>mb. case mb of SMB_Measure m \<Rightarrow> list_all (seg_wf tracks) (sm_segs m) | SMB_Box \<Rightarrow> True)) syss"

text \<open>How often \<open>collectSystem\<close> lays out beam \<open>b\<close> for an element: once for a top beam's first chord-rest.\<close>

definition cs_beam_el :: "nat \<Rightarrow> sel option \<Rightarrow> nat" where
  "cs_beam_el b e = (case e of Some (SE_CR cr) \<Rightarrow> if beam_first b cr \<and> isTopBeam (scr_topbeam cr) then 1 else 0 | _ \<Rightarrow> 0)"

text \<open>
  An example measure on one staff: a chord-rest starting beam 7, a normal beam, and one
  starting beam 8, a cross-staff beam, in one chord-rest segment.
\<close>

definition ex_beam_cr :: "nat \<Rightarrow> bool \<Rightarrow> sel option" where
  "ex_beam_cr b cross = Some (SE_CR \<lparr>scr_beam = Some (b, \<lparr>bv_cross = cross, bv_moves = [0]\<rparr>, True), scr_chord = None\<rparr>)"

definition ex_beam_measure :: smeasure where
  "ex_beam_measure = \<lparr>sm_id = 0, sm_tick = 0, sm_end_tick = 1920,
     sm_segs = [\<lparr>ss_tick = 0, ss_chordrest = True, ss_els = [ex_beam_cr 7 False, ex_beam_cr 8 True, None, None], ss_anns = []\<rparr>],
     sm_section_break = None\<rparr>"

text \<open>Two volta segments laid out on one system, with user offsets -3 and 2.\<close>

definition ex_volta :: "nat \<Rightarrow> real \<Rightarrow> sspan" where
  "ex_volta n y = \<lparr>ssp_id = n, ssp_tick = 0, ssp_tick2 = 1920, ssp_ottava = False, ssp_volta = True,
                   ssp_autoplace = True, ssp_yoff = y, ssp_staff = 0, ssp_lyricsline = False\<rparr>"

subsection \<open>Counting the beam layouts\<close>

lemma isTopBeam_first: "isTopBeam (Some (bv, first)) \<Longrightarrow> first"
  by (cases first) (simp_all add: isTopBeam_def)

lemma cs_cr_beams:
  "count_list (cs_cr i e) (LA_Beam b) = cs_beam_el b e"
  by (auto simp: cs_cr_def cs_beam_el_def beam_first_def scr_topbeam_def isTopBeam_def count_list_if
           split: option.split sel.split prod.split bool.split)

lemma count_layouts_beams [simp]: "count_list (map LA_Layout xs) (LA_Beam b) = 0"
  by (induction xs) simp_all

lemma cs_ann_beams [simp]: "count_list (cs_ann hps t a) (LA_Beam b) = 0"
  by (simp add: cs_ann_def split: sann.split)

lemma cp_notes_beams [simp]: "count_list (cp_notes ns) (LA_Beam b) = 0"
  by (induction ns) (simp_all add: cp_notes_def count_list_concat split: option.split)

lemma cp_graces_beams:
  "count_list (concat (map cp_grace gs)) (LA_Beam b) = length (filter (\<lambda>g. sg_beam g = Some (b, True)) gs)"
  by (induction gs) (auto simp: cp_grace_def count_list_if split: option.split prod.split bool.split)

lemma cp_el_beams:
  "count_list (cp_el shown i e) (LA_Beam b) =
     (case e of
        Some (SE_CR cr) \<Rightarrow> if shown (i div VOICES)
                          then (if beam_first b cr \<and> \<not> isTopBeam (scr_topbeam cr) then 1 else 0) + grace_firsts b cr
                          else 0
      | _ \<Rightarrow> 0)"
proof -
  have chord: "count_list (case scr_chord cr of
                    Some c \<Rightarrow> concat (map cp_grace (sc_graces c)) @ [LA_Arpeggio2 (sc_id c)] @ cp_notes (sc_notes c)
                  | None \<Rightarrow> []) (LA_Beam b) = grace_firsts b cr" for cr
    by (simp add: grace_firsts_def cp_graces_beams split: option.split)
  have beam: "count_list (if notTopBeam (scr_topbeam cr) then (case scr_beam cr of Some (bm, _) \<Rightarrow> [LA_Beam bm] | None \<Rightarrow> []) else [])
                (LA_Beam b) = (if beam_first b cr \<and> \<not> isTopBeam (scr_topbeam cr) then 1 else 0)" for cr
    by (auto simp: count_list_if beam_first_def scr_topbeam_def notTopBeam_def isTopBeam_def
             split: option.split prod.split bool.split)
  show ?thesis
  proof (cases e)
    case (Some x)
    then show ?thesis
    proof (cases x)
      case (SE_CR cr)
      then show ?thesis
        using Some by (cases "shown (i div VOICES)") (simp_all add: cp_el_def chord beam)
    qed (simp_all add: cp_el_def)
  qed (simp add: cp_el_def)
qed

text \<open>For each element, the two passes together lay out its beams as often as expected.\<close>

lemma beams_el: "cs_beam_el b e + count_list (cp_el shown i e) (LA_Beam b) = beam_expected shown b i e"
proof (cases e)
  case (Some x)
  then show ?thesis
    by (cases x) (simp_all add: cs_beam_el_def cp_el_beams beam_expected_def)
qed (simp add: cs_beam_el_def cp_el_beams beam_expected_def)

lemma cs_segment_beams:
  "count_list (cs_segment hps s) (LA_Beam b) =
     (if ss_chordrest s then sum_list (map (\<lambda>i. cs_beam_el b (ss_els s ! i)) [0..<length (ss_els s)]) else 0)"
proof -
  have "count_list (concat (map (\<lambda>(i, e). cs_cr i e) (enumerate 0 (ss_els s)))) (LA_Beam b)
        = sum_list (map (\<lambda>(i, e). cs_beam_el b e) (enumerate 0 (ss_els s)))"
    by (simp add: count_list_concat comp_def case_prod_unfold cs_cr_beams)
  then show ?thesis
    by (simp add: cs_segment_def count_list_concat comp_def sum_list_enumerate)
qed

lemma cp_el_no_cr: "(case e of Some (SE_CR _) \<Rightarrow> False | _ \<Rightarrow> True) \<Longrightarrow> count_list (cp_el shown t e) (LA_Beam b) = 0"
  by (simp add: cp_el_beams split: option.splits sel.splits)

lemma expected_no_cr: "(case e of Some (SE_CR _) \<Rightarrow> False | _ \<Rightarrow> True) \<Longrightarrow> beam_expected shown b i e = 0"
  by (simp add: beam_expected_def split: option.splits sel.splits)

text \<open>A segment: the beams of \<open>collectSystem\<close> and those of \<open>collectPage\<close> over its tracks add up to the expected ones.\<close>

lemma seg_beams:
  assumes "seg_wf tracks s"
  shows "count_list (cs_segment hps s) (LA_Beam b)
         + sum_list (map (\<lambda>t. count_list (cp_el shown t (seg_el s t)) (LA_Beam b)) [0..<tracks])
         = sum_list (map (\<lambda>(i, e). beam_expected shown b i e) (enumerate 0 (ss_els s)))"
proof -
  have len: "length (ss_els s) = tracks"
    using assms by (simp add: seg_wf_def)
  have el: "map (\<lambda>t. count_list (cp_el shown t (seg_el s t)) (LA_Beam b)) [0..<tracks]
            = map (\<lambda>t. count_list (cp_el shown t (ss_els s ! t)) (LA_Beam b)) [0..<tracks]"
    by (rule map_cong) (simp_all add: seg_el_def len)
  show ?thesis
  proof (cases "ss_chordrest s")
    case True
    then show ?thesis
      by (simp add: cs_segment_beams el len sum_list_enumerate sum_list_addf [symmetric] beams_el)
  next
    case False
    then have nocr: "\<forall>e \<in> set (ss_els s). (case e of Some (SE_CR _) \<Rightarrow> False | _ \<Rightarrow> True)"
      using assms by (simp add: seg_wf_def list_all_iff)
    have z1: "(\<Sum>t\<leftarrow>[0..<tracks]. count_list (cp_el shown t (ss_els s ! t)) (LA_Beam b)) = 0"
      using nocr len by (auto simp: sum_list_eq_0_iff cp_el_no_cr)
    have z2: "(\<Sum>i\<leftarrow>[0..<length (ss_els s)]. beam_expected shown b i (ss_els s ! i)) = 0"
      using nocr by (auto simp: sum_list_eq_0_iff expected_no_cr)
    show ?thesis
      using False by (simp add: cs_segment_beams el sum_list_enumerate z1 z2)
  qed
qed

lemma measure_beams:
  assumes "list_all (seg_wf tracks) (sm_segs m)"
  shows "count_list (concat (map (cs_segment hps) (sm_segs m))) (LA_Beam b) + count_list (cp_measure shown tracks m) (LA_Beam b)
         = sum_list (map (\<lambda>s. sum_list (map (\<lambda>(i, e). beam_expected shown b i e) (enumerate 0 (ss_els s)))) (sm_segs m))"
proof -
  have "count_list (cp_measure shown tracks m) (LA_Beam b)
        = sum_list (map (\<lambda>t. sum_list (map (\<lambda>s. count_list (cp_el shown t (seg_el s t)) (LA_Beam b)) (sm_segs m))) [0..<tracks])"
    by (simp add: cp_measure_def count_list_concat comp_def)
  also have "\<dots> = sum_list (map (\<lambda>s. sum_list (map (\<lambda>t. count_list (cp_el shown t (seg_el s t)) (LA_Beam b)) [0..<tracks])) (sm_segs m))"
    by (rule sum_list_swap)
  finally have cp: "count_list (cp_measure shown tracks m) (LA_Beam b) = \<dots>" .
  have cs: "count_list (concat (map (cs_segment hps) (sm_segs m))) (LA_Beam b)
            = sum_list (map (\<lambda>s. count_list (cs_segment hps s) (LA_Beam b)) (sm_segs m))"
    by (simp add: count_list_concat comp_def)
  have eq: "sum_list (map (\<lambda>s. count_list (cs_segment hps s) (LA_Beam b)
                  + sum_list (map (\<lambda>t. count_list (cp_el shown t (seg_el s t)) (LA_Beam b)) [0..<tracks])) (sm_segs m))
        = sum_list (map (\<lambda>s. sum_list (map (\<lambda>(i, e). beam_expected shown b i e) (enumerate 0 (ss_els s)))) (sm_segs m))"
    using assms by (intro arg_cong [where f = sum_list] map_cong) (simp_all add: list_all_iff seg_beams)
  show ?thesis
    unfolding cs cp sum_list_addf [symmetric] by (rule eq)
qed

lemma sys_beams:
  assumes "list_all (\<lambda>mb. case mb of SMB_Measure m \<Rightarrow> list_all (seg_wf tracks) (sm_segs m) | SMB_Box \<Rightarrow> True) mbs"
  shows "count_list (cs_elements hps mbs) (LA_Beam b)
         + count_list (concat (map (\<lambda>mb. case mb of SMB_Measure m \<Rightarrow> cp_measure shown tracks m | SMB_Box \<Rightarrow> []) mbs)) (LA_Beam b)
         = sum_list (map (\<lambda>mb. case mb of
             SMB_Measure m \<Rightarrow> sum_list (map (\<lambda>s. sum_list (map (\<lambda>(i, e). beam_expected shown b i e) (enumerate 0 (ss_els s)))) (sm_segs m))
           | SMB_Box \<Rightarrow> 0) mbs)"
  using assms
proof (induction mbs)
  case (Cons mb mbs)
  then show ?case
  proof (cases mb)
    case (SMB_Measure m)
    then show ?thesis
      using Cons measure_beams [of tracks m hps b shown] by (simp add: cs_elements_def)
  qed (simp add: cs_elements_def)
qed (simp add: cs_elements_def)

subsection \<open>Spanners\<close>

lemma cs_volta_y_le: "cs_volta_y vs \<le> 0 \<and> (\<forall>v \<in> set vs. cs_volta_y vs \<le> ssp_yoff v)"
proof -
  have "foldl (\<lambda>y ss. min y (ssp_yoff ss)) y0 vs \<le> y0
        \<and> (\<forall>v \<in> set vs. foldl (\<lambda>y ss. min y (ssp_yoff ss)) y0 vs \<le> ssp_yoff v)" for y0
  proof (induction vs arbitrary: y0)
    case (Cons v vs)
    from Cons.IH [of "min y0 (ssp_yoff v)"] show ?case
      by auto
  qed simp
  then show ?thesis
    by (simp add: cs_volta_y_def)
qed

lemma cs_ottava_fix_id [simp]: "ssp_id (cs_ottava_fix lastEnd sp) = ssp_id sp"
  by (simp add: cs_ottava_fix_def)

text \<open>\<open>layoutSystem\<close> is called on exactly the spanners of the map that lie strictly inside the system's range, in map order.\<close>

lemma cs_spanners_laid_out:
  "stick < etick \<Longrightarrow>
   filter (\<lambda>a. case a of LA_LayoutSystem _ \<Rightarrow> True | _ \<Rightarrow> False) (snd (cs_spanners lastEnd stick etick spmap unm))
   = map (LA_LayoutSystem \<circ> ssp_id) (filter (cs_managed stick etick) spmap)"
proof -
  assume lt: "stick < etick"
  have "filter (cs_managed stick etick) (findOverlapping spmap stick etick) = filter (cs_managed stick etick) spmap"
    by (induction spmap) (auto simp: findOverlapping_def cs_managed_def)
  moreover have "filter (\<lambda>a. case a of LA_LayoutSystem _ \<Rightarrow> True | _ \<Rightarrow> False) (map (LA_LayoutSystem \<circ> ssp_id) xs) = map (LA_LayoutSystem \<circ> ssp_id) xs" for xs
    by (induction xs) simp_all
  moreover have "filter (\<lambda>a. case a of LA_LayoutSystem _ \<Rightarrow> True | _ \<Rightarrow> False) (map (LA_Layout \<circ> ssp_id) xs) = []" for xs
    by (induction xs) simp_all
  ultimately show ?thesis
    using lt by (simp add: cs_spanners_def Let_def)
qed

subsection \<open>The claims\<close>

text \<open>
  C4: over a layout, the beam passes of \<open>collectSystem\<close> (top beams, via
  \<open>isTopBeam\<close>) and of \<open>collectPage\<close> (the others, via \<open>notTopBeam\<close>, and grace
  beams) lay out each beam once for every chord-rest that starts it and is a top beam or
  on a shown staff, and once for every grace chord on a shown staff that starts it:
  no beam is laid out by both passes, and none on a shown staff is missed.
\<close>

theorem passes_beam_layouts:
  assumes "syss_wf tracks syss"
  shows "count_list (concat (map (cs_elements hps) syss) @ cp_elements shown tracks syss) (LA_Beam b)
         = n_beam_expected shown b syss"
  using assms
proof (induction syss)
  case (Cons mbs syss)
  have "list_all (\<lambda>mb. case mb of SMB_Measure m \<Rightarrow> list_all (seg_wf tracks) (sm_segs m) | SMB_Box \<Rightarrow> True) mbs"
    and "syss_wf tracks syss"
    using Cons.prems by (simp_all add: syss_wf_def)
  then show ?case
    using Cons.IH sys_beams [of tracks mbs hps b shown]
    by (simp add: cp_elements_def n_beam_expected_def)
qed (simp add: cp_elements_def n_beam_expected_def)

theorem passes_beam_layouts_witness:
  "syss_wf 4 [[SMB_Measure ex_beam_measure]]
   \<and> count_list (concat (map (cs_elements []) [[SMB_Measure ex_beam_measure]]) @ cp_elements (\<lambda>_. True) 4 [[SMB_Measure ex_beam_measure]]) (LA_Beam 7) = 1
   \<and> count_list (concat (map (cs_elements []) [[SMB_Measure ex_beam_measure]]) @ cp_elements (\<lambda>_. True) 4 [[SMB_Measure ex_beam_measure]]) (LA_Beam 8) = 1"
proof -
  have wf: "syss_wf 4 [[SMB_Measure ex_beam_measure]]"
    by (simp add: syss_wf_def seg_wf_def ex_beam_measure_def ex_beam_cr_def)
  have e: "n_beam_expected (\<lambda>_. True) 7 [[SMB_Measure ex_beam_measure]] = 1"
          "n_beam_expected (\<lambda>_. True) 8 [[SMB_Measure ex_beam_measure]] = 1"
    by (simp_all add: n_beam_expected_def ex_beam_measure_def ex_beam_cr_def beam_expected_def beam_first_def
                      grace_firsts_def isTopBeam_def scr_topbeam_def)
  show ?thesis
    using wf passes_beam_layouts [OF wf, of "[]" "\<lambda>_. True" 7] passes_beam_layouts [OF wf, of "[]" "\<lambda>_. True" 8] e
    by simp
qed

text \<open>
  C9: after the vertical alignment of \<open>collectSystem\<close>, all autoplaced volta segments
  of a system have one user y offset; with more than one, it is at most 0 and at most the
  offset each of them had.
\<close>

theorem cs_align_voltas_level:
  assumes "v \<in> set (cs_align_voltas laid)" and "w \<in> set (cs_align_voltas laid)"
    and "cs_is_volta v" and "cs_is_volta w"
  shows "ssp_yoff v = ssp_yoff w
         \<and> (1 < length (filter cs_is_volta laid) \<longrightarrow>
              ssp_yoff v \<le> 0 \<and> (\<forall>u \<in> set laid. cs_is_volta u \<longrightarrow> ssp_yoff v \<le> ssp_yoff u))"
proof (cases "1 < length (filter cs_is_volta laid)")
  case True
  let ?y = "cs_volta_y (filter cs_is_volta laid)"
  have "\<forall>x \<in> set (cs_align_voltas laid). cs_is_volta x \<longrightarrow> ssp_yoff x = ?y"
    using True by (auto simp: cs_align_voltas_def cs_is_volta_def)
  then show ?thesis
    using True assms cs_volta_y_le [of "filter cs_is_volta laid"] by auto
next
  case False
  then have same: "cs_align_voltas laid = laid"
    by (simp add: cs_align_voltas_def)
  have "length (filter cs_is_volta laid) \<le> 1"
    using False by simp
  moreover have "v \<in> set (filter cs_is_volta laid)" "w \<in> set (filter cs_is_volta laid)"
    using assms same by auto
  ultimately have "v = w"
    by (cases "filter cs_is_volta laid") (auto simp: le_Suc_eq)
  then show ?thesis
    using False by simp
qed

theorem cs_align_voltas_level_witness:
  "ex_volta 1 (-3) \<lparr>ssp_yoff := -3\<rparr> \<in> set (cs_align_voltas [ex_volta 1 (-3), ex_volta 2 2])
   \<and> ex_volta 2 2 \<lparr>ssp_yoff := -3\<rparr> \<in> set (cs_align_voltas [ex_volta 1 (-3), ex_volta 2 2])
   \<and> cs_is_volta (ex_volta 1 (-3) \<lparr>ssp_yoff := -3\<rparr>) \<and> cs_is_volta (ex_volta 2 2 \<lparr>ssp_yoff := -3\<rparr>)
   \<and> ssp_yoff (ex_volta 2 2 \<lparr>ssp_yoff := -3\<rparr>) = -3"
proof -
  have h: "ex_volta 1 (-3) \<lparr>ssp_yoff := -3\<rparr> \<in> set (cs_align_voltas [ex_volta 1 (-3), ex_volta 2 2])"
    "ex_volta 2 2 \<lparr>ssp_yoff := -3\<rparr> \<in> set (cs_align_voltas [ex_volta 1 (-3), ex_volta 2 2])"
    "cs_is_volta (ex_volta 1 (-3) \<lparr>ssp_yoff := -3\<rparr>)" "cs_is_volta (ex_volta 2 2 \<lparr>ssp_yoff := -3\<rparr>)"
    by (simp_all add: cs_align_voltas_def cs_is_volta_def ex_volta_def cs_volta_y_def)
  have "ssp_yoff (ex_volta 1 (-3) \<lparr>ssp_yoff := -3\<rparr>) = ssp_yoff (ex_volta 2 2 \<lparr>ssp_yoff := -3\<rparr>)"
    using cs_align_voltas_level [OF h] by blast
  then show ?thesis
    using h by simp
qed

end
