(* ===== verification/Create_MMRest.thy ===== *)
theory Create_MMRest
  imports MMRest
begin

text \<open>
  \<open>Score::createMMRest(m, lm, len)\<close> (\<open>src/libmscore/layout.cpp\<close>): the measure that
  replaces the run of empty measures from \<open>m\<close> to \<open>lm\<close>.  The measures of the run
  after \<open>m\<close> are marked, and the replacement (reused from \<open>m->mmRest()\<close> or new) is
  brought in line with the run: length, numbers, breaks, the end bar lines of \<open>lm\<close>, the
  repeat flags, the measure elements of \<open>lm\<close> and the markers of \<open>m\<close>, a measure rest
  on every staff, the clefs at the end of \<open>lm\<close>, the time signatures, ambitus and key
  signatures at the start of \<open>m\<close>, and the rehearsal marks, tempo texts, harmonies and
  staff texts of \<open>m\<close>'s first chord-rest segment.  Elements are values with a number;
  a clone keeps the value and records where it came from.  Undo commands are applied
  as the changes they make.
\<close>

subsection \<open>Data\<close>

text \<open>A measure element (\<open>Measure::el()\<close>): a marker, a jump, or another type, with its number.\<close>

datatype mel_type = MT_MARKER | MT_JUMP | MT_OTHER nat

record mel =
  me_type :: mel_type
  me_id :: nat

text \<open>
  Where an element of the replacement measure comes from: it is its own (from an earlier
  layout), a clone, or a linked clone of an element of the run.
\<close>

datatype msrc = MS_Own nat | MS_Clone nat | MS_Linked nat

text \<open>A segment with one element per staff (on the staff's first track), or absent.\<close>

type_synonym 'v staff_seg = "'v option list option"

text \<open>An annotation of a chord-rest segment: kind, track, number, and where it came from.\<close>

record mann =
  ma_kind :: ann_kind
  ma_track :: nat
  ma_src :: msrc

text \<open>The element on a staff's first track of the replacement's chord-rest segment.\<close>

datatype crel = CR_Existing nat | CR_MeasureRest tick

text \<open>
  What \<open>createMMRest\<close> reads of \<open>m\<close> and \<open>lm\<close>: number, tick, end tick, breaks,
  repeat flags, measure elements, the end bar line segment at the end tick (bar line type
  and \<open>generated\<close> per staff), the clef segment at the end tick, the time signature,
  ambitus and key signature segments at the tick (a key signature is its event and
  \<open>showCourtesy\<close>), the annotations of the chord-rest segment at the tick, and the
  bases before and after it.
\<close>

record cm_measure =
  cm_no :: int
  cm_tick :: tick
  cm_end_tick :: tick
  cm_page_break :: bool
  cm_line_break :: bool
  cm_repeat_start :: bool
  cm_repeat_end :: bool
  cm_els :: "mel list"
  cm_endbar :: "(barline_type \<times> bool) staff_seg"
  cm_clef :: "nat staff_seg"
  cm_timesig :: "((int \<times> int) \<times> nat) staff_seg"
  cm_ambitus :: "nat staff_seg"
  cm_keysig :: "(int \<times> bool) staff_seg"
  cm_cr_anns :: "(ann_kind \<times> nat \<times> nat) list option"
  cm_prev :: "nat option"
  cm_next :: "nat option"
  cm_next_measure :: "nat option"

text \<open>
  The replacement measure: length, tick, breaks, rest count, number, repeat flags,
  elements, end bar lines (with the tick of their segment), the first track of each staff
  in the chord-rest segment and its annotations, the clef, time signature, ambitus and key
  signature segments, and its links.
\<close>

record mmrest =
  mr_len :: tick
  mr_tick :: tick
  mr_page_break :: bool
  mr_line_break :: bool
  mr_count :: int
  mr_no :: int
  mr_repeat_start :: bool
  mr_repeat_end :: bool
  mr_els :: "(mel_type \<times> msrc) list"
  mr_endbar :: "(barline_type \<times> bool) staff_seg"
  mr_endbar_tick :: "tick option"
  mr_cr :: "crel option list"
  mr_anns :: "mann list"
  mr_clef :: "nat staff_seg"
  mr_timesig :: "((int \<times> int) \<times> nat) staff_seg"
  mr_ambitus :: "nat staff_seg"
  mr_keysig :: "(int \<times> bool) staff_seg"
  mr_prev :: "nat option"
  mr_next :: "nat option"

datatype cm_error = CM_NullSegment

subsection \<open>The run and the replacement measure\<close>

text \<open>
  The measures after \<open>m\<close> (by \<open>nextMeasure()\<close>) up to and including \<open>lm\<close> get rest
  count -1 and lose their own multi-measure rest: the count \<open>n\<close> of the run and the
  measures marked.
\<close>

fun cm_mark :: "nat list \<Rightarrow> nat \<Rightarrow> nat \<times> nat list" where
  "cm_mark [] lm = (1, [])"
| "cm_mark (mm # mms) lm = (if mm = lm then (2, [mm]) else (let (n, ms) = cm_mark mms lm in (Suc n, mm # ms)))"

text \<open>
  The replacement: \<open>m->mmRest()\<close> with the new length (its end bar line segment moved to
  the new end), or a new measure at \<open>m\<close>'s tick with \<open>lm\<close>'s breaks; then its rest
  count and number.
\<close>

definition cm_empty :: "nat \<Rightarrow> cm_measure \<Rightarrow> cm_measure \<Rightarrow> tick \<Rightarrow> mmrest" where
  "cm_empty nstaves m lm len =
     \<lparr>mr_len = len, mr_tick = cm_tick m, mr_page_break = cm_page_break lm, mr_line_break = cm_line_break lm,
      mr_count = 0, mr_no = 0, mr_repeat_start = False, mr_repeat_end = False, mr_els = [],
      mr_endbar = None, mr_endbar_tick = None, mr_cr = replicate nstaves None, mr_anns = [],
      mr_clef = None, mr_timesig = None, mr_ambitus = None, mr_keysig = None, mr_prev = None, mr_next = None\<rparr>"

definition cm_base :: "nat \<Rightarrow> cm_measure \<Rightarrow> cm_measure \<Rightarrow> mmrest option \<Rightarrow> tick \<Rightarrow> nat \<Rightarrow> mmrest" where
  "cm_base nstaves m lm old len n =
     (let r = (case old of
                 Some r \<Rightarrow>
                   if mr_len r \<noteq> len then
                     r\<lparr>mr_len := len,
                       mr_endbar_tick := (if mr_endbar_tick r = Some (mr_tick r + mr_len r) then Some (mr_tick r + len)
                                          else mr_endbar_tick r)\<rparr>
                   else r
               | None \<Rightarrow> cm_empty nstaves m lm len)
      in r\<lparr>mr_count := int n, mr_no := cm_no m\<rparr>)"

text \<open>The element of a staff in a segment's list, \<open>None\<close> past its end.\<close>

definition staff_at :: "'v option list \<Rightarrow> nat \<Rightarrow> 'v option" where
  "staff_at xs i = (if i < length xs then xs ! i else None)"

text \<open>
  The end bar lines of \<open>lm\<close>: each staff's bar line is cloned into the replacement's end
  bar line segment (got or created at \<open>lm\<close>'s end tick), or, if one is there with another
  type, that one takes the type and becomes generated.  Without an end bar line segment in
  \<open>lm\<close> nothing changes.
\<close>

definition cm_sync_endbar :: "nat \<Rightarrow> cm_measure \<Rightarrow> mmrest \<Rightarrow> mmrest" where
  "cm_sync_endbar nstaves lm r =
     (case cm_endbar lm of
        None \<Rightarrow> r
      | Some srcs \<Rightarrow>
          let ds = (if mr_endbar_tick r = Some (cm_end_tick lm) then (case mr_endbar r of Some ds \<Rightarrow> ds | None \<Rightarrow> [])
                    else replicate nstaves None)
          in r\<lparr>mr_endbar := Some (map (\<lambda>i. case staff_at srcs i of
                                              None \<Rightarrow> staff_at ds i
                                            | Some (t, g) \<Rightarrow> (case staff_at ds i of
                                                               None \<Rightarrow> Some (t, g)
                                                             | Some (t', g') \<Rightarrow> if t' \<noteq> t then Some (t, True) else Some (t', g')))
                                      [0..<nstaves]),
               mr_endbar_tick := Some (cm_end_tick lm)\<rparr>)"

text \<open>
  The measure elements: each element of \<open>lm\<close>, then each marker of \<open>m\<close>, takes the first
  element of the replacement's old list with the same type, or else a clone; old elements
  left over are deleted.
\<close>

fun cm_sync_els :: "(mel_type \<times> msrc) list \<Rightarrow> mel list \<Rightarrow> (mel_type \<times> msrc) list" where
  "cm_sync_els old [] = []"
| "cm_sync_els old (e # es) =
     (case find (\<lambda>p. fst p = me_type e) old of
        Some p \<Rightarrow> p # cm_sync_els (remove1 p old) es
      | None \<Rightarrow> (me_type e, MS_Clone (me_id e)) # cm_sync_els old es)"

definition cm_new_els :: "cm_measure \<Rightarrow> cm_measure \<Rightarrow> mel list" where
  "cm_new_els m lm = cm_els lm @ filter (\<lambda>e. me_type e = MT_MARKER) (cm_els m)"

text \<open>The chord-rest segment: a staff with nothing on its first track gets a measure rest of the replacement's length.\<close>

definition cm_rests :: "nat \<Rightarrow> tick \<Rightarrow> crel option list \<Rightarrow> crel option list" where
  "cm_rests nstaves len els =
     map (\<lambda>i. case staff_at els i of None \<Rightarrow> Some (CR_MeasureRest len) | Some e \<Rightarrow> Some e) [0..<nstaves]"

text \<open>
  The segments copied from the run (clef, time signature, ambitus, key signature): with
  a source segment, the replacement's segment (got or created) gets a clone of each
  staff's element where it has none and otherwise updates its element by \<open>upd\<close>; without
  one, the replacement's segment is removed (for key signatures only when empty).
\<close>

definition cm_sync_seg :: "nat \<Rightarrow> ('v \<Rightarrow> 'v \<Rightarrow> 'v) \<Rightarrow> bool \<Rightarrow> 'v staff_seg \<Rightarrow> 'v staff_seg \<Rightarrow> 'v staff_seg" where
  "cm_sync_seg nstaves upd only_empty src dst =
     (case src of
        Some srcs \<Rightarrow>
          let d = (case dst of Some ds \<Rightarrow> ds | None \<Rightarrow> replicate nstaves None)
          in Some (map (\<lambda>i. case staff_at srcs i of
                               None \<Rightarrow> staff_at d i
                             | Some v \<Rightarrow> (case staff_at d i of None \<Rightarrow> Some v | Some w \<Rightarrow> Some (upd w v)))
                    [0..<nstaves])
      | None \<Rightarrow> (case dst of
                   Some ds \<Rightarrow> if only_empty \<and> \<not> list_all (\<lambda>x. x = None) ds then dst else None
                 | None \<Rightarrow> None))"

text \<open>Clefs are kept as they are (the code has a TODO); time signature and ambitus take the source's value; a key signature takes the source's event and keeps its \<open>showCourtesy\<close>.\<close>

definition cm_clef_upd :: "nat \<Rightarrow> nat \<Rightarrow> nat" where
  "cm_clef_upd w v = w"

definition cm_keysig_upd :: "int \<times> bool \<Rightarrow> int \<times> bool \<Rightarrow> int \<times> bool" where
  "cm_keysig_upd w v = (if fst w \<noteq> fst v then (fst v, snd w) else w)"

subsection \<open>Annotations\<close>

definition cm_sync_kind :: "ann_kind \<Rightarrow> bool" where
  "cm_sync_kind k \<longleftrightarrow> k = AK_REHEARSAL \<or> k = AK_TEMPO \<or> k = AK_HARMONY \<or> k = AK_STAFF_TEXT"

text \<open>
  The annotations of \<open>m\<close>'s chord-rest segment of the four kinds that the replacement's
  segment has no annotation of the same kind and track for get a linked clone there.
\<close>

definition cm_add_anns :: "(ann_kind \<times> nat \<times> nat) list \<Rightarrow> mann list \<Rightarrow> mann list" where
  "cm_add_anns cs anns =
     foldl (\<lambda>s (k, t, n). if cm_sync_kind k \<and> \<not> list_ex (\<lambda>ee. ma_kind ee = k \<and> ma_track ee = t) s
                         then s @ [\<lparr>ma_kind = k, ma_track = t, ma_src = MS_Linked n\<rparr>] else s) anns cs"

text \<open>
  Then each annotation of the four kinds of the replacement's segment without one of the
  same kind and track in \<open>m\<close>'s segment is removed; the loop reads \<open>m\<close>'s segment without
  checking it, so it fails when \<open>m\<close> has no chord-rest segment at its tick.  The loop runs
  over the annotations as they are when it starts.
\<close>

definition cm_remove_step :: "(ann_kind \<times> nat \<times> nat) list option \<Rightarrow> cm_error + mann list \<Rightarrow> mann \<Rightarrow> cm_error + mann list" where
  "cm_remove_step cs acc e =
     (case acc of
        Inl err \<Rightarrow> Inl err
      | Inr l \<Rightarrow>
          if \<not> cm_sync_kind (ma_kind e) then Inr l
          else (case cs of
                  None \<Rightarrow> Inl CM_NullSegment
                | Some c \<Rightarrow> if list_ex (\<lambda>(k, t, _). k = ma_kind e \<and> t = ma_track e) c then Inr l else Inr (remove1 e l)))"

definition cm_anns :: "(ann_kind \<times> nat \<times> nat) list option \<Rightarrow> mann list \<Rightarrow> cm_error + mann list" where
  "cm_anns cs anns =
     (let s = (case cs of Some c \<Rightarrow> cm_add_anns c anns | None \<Rightarrow> anns)
      in foldl (cm_remove_step cs) (Inr s) s)"

subsection \<open>\<open>createMMRest\<close>\<close>

text \<open>
  The whole function: \<open>following\<close> are the measures after \<open>m\<close>, \<open>lmId\<close> the number of
  \<open>lm\<close>, \<open>old\<close> the replacement \<open>m\<close> already has.  Result: the measures marked, and the
  replacement.
\<close>

definition createMMRest ::
  "nat \<Rightarrow> bool \<Rightarrow> nat list \<Rightarrow> nat \<Rightarrow> cm_measure \<Rightarrow> cm_measure \<Rightarrow> mmrest option \<Rightarrow> tick \<Rightarrow> cm_error + nat list \<times> mmrest" where
  "createMMRest nstaves showVBox following lmId m lm old len =
     (let (n, marked) = cm_mark following lmId;
          r1 = cm_sync_endbar nstaves lm (cm_base nstaves m lm old len n);
          r2 = r1\<lparr>mr_repeat_start := cm_repeat_start m \<or> cm_repeat_start lm,
                  mr_repeat_end := cm_repeat_end m \<or> cm_repeat_end lm,
                  mr_els := cm_sync_els (mr_els r1) (cm_new_els m lm),
                  mr_cr := cm_rests nstaves (mr_len r1) (mr_cr r1)\<rparr>;
          r3 = r2\<lparr>mr_clef := cm_sync_seg nstaves cm_clef_upd False (cm_clef lm) (mr_clef r2),
                  mr_timesig := cm_sync_seg nstaves (\<lambda>w v. v) False (cm_timesig m) (mr_timesig r2),
                  mr_ambitus := cm_sync_seg nstaves (\<lambda>w v. v) False (cm_ambitus m) (mr_ambitus r2),
                  mr_keysig := cm_sync_seg nstaves cm_keysig_upd True (cm_keysig m) (mr_keysig r2)\<rparr>
      in case cm_anns (cm_cr_anns m) (mr_anns r3) of
           Inl err \<Rightarrow> Inl err
         | Inr anns \<Rightarrow> Inr (marked, r3\<lparr>mr_anns := anns,
                                        mr_next := (if showVBox then cm_next lm else cm_next_measure lm),
                                        mr_prev := cm_prev m\<rparr>))"

text \<open>The (kind, track) pairs of the annotations of the four kinds.\<close>

definition sync_pairs :: "mann list \<Rightarrow> (ann_kind \<times> nat) set" where
  "sync_pairs anns = set (map (\<lambda>a. (ma_kind a, ma_track a)) (filter (\<lambda>a. cm_sync_kind (ma_kind a)) anns))"

definition src_pairs :: "(ann_kind \<times> nat \<times> nat) list \<Rightarrow> (ann_kind \<times> nat) set" where
  "src_pairs cs = set (map (\<lambda>(k, t, _). (k, t)) (filter (\<lambda>(k, _, _). cm_sync_kind k) cs))"

text \<open>An annotation the removal loop keeps.\<close>

definition cm_kept :: "(ann_kind \<times> nat \<times> nat) list \<Rightarrow> mann \<Rightarrow> bool" where
  "cm_kept c e \<longleftrightarrow> \<not> (cm_sync_kind (ma_kind e) \<and> \<not> list_ex (\<lambda>(k, t, _). k = ma_kind e \<and> t = ma_track e) c)"

text \<open>An example: a two-staff run whose first measure has a tempo text and a harmony, with a replacement from an earlier layout that has a tempo text, a staff text and a fingering.\<close>

definition ex_cm :: "(ann_kind \<times> nat \<times> nat) list option \<Rightarrow> cm_measure" where
  "ex_cm anns =
     \<lparr>cm_no = 3, cm_tick = 0, cm_end_tick = 4, cm_page_break = False, cm_line_break = False,
      cm_repeat_start = False, cm_repeat_end = False, cm_els = [\<lparr>me_type = MT_MARKER, me_id = 5\<rparr>],
      cm_endbar = None, cm_clef = None, cm_timesig = None, cm_ambitus = None, cm_keysig = None,
      cm_cr_anns = anns, cm_prev = None, cm_next = None, cm_next_measure = None\<rparr>"

definition ex_old :: mmrest where
  "ex_old =
     (cm_empty 2 (ex_cm None) (ex_cm None) 4)\<lparr>mr_cr := [Some (CR_Existing 9), None],
        mr_anns := [\<lparr>ma_kind = AK_TEMPO, ma_track = 0, ma_src = MS_Own 1\<rparr>,
                   \<lparr>ma_kind = AK_STAFF_TEXT, ma_track = 4, ma_src = MS_Own 2\<rparr>,
                   \<lparr>ma_kind = AK_OTHER, ma_track = 0, ma_src = MS_Own 3\<rparr>]\<rparr>"

subsection \<open>Lemmas\<close>

lemma cm_mark_count: "fst (cm_mark following lmId) = Suc (length (snd (cm_mark following lmId)))"
  by (induction following) (auto split: prod.split)

lemma cm_mark_prefix: "snd (cm_mark following lmId) = (if lmId \<in> set following then takeWhile (\<lambda>mm. mm \<noteq> lmId) following @ [lmId] else following)"
  by (induction following) (auto split: prod.split)

lemma cm_rests_full: "i < nstaves \<Longrightarrow> cm_rests nstaves len els ! i \<noteq> None"
  by (simp add: cm_rests_def split: option.split)

lemma find_Some_P: "find P xs = Some x \<Longrightarrow> P x"
  by (induction xs) (auto split: if_splits)

lemma cm_sync_els_types: "map fst (cm_sync_els old es) = map me_type es"
proof (induction old es rule: cm_sync_els.induct)
  case (2 old e es)
  then show ?case
    by (auto split: option.split dest: find_Some_P)
qed simp

text \<open>Adding the linked clones keeps the annotations already there and gives every pair of \<open>m\<close> an annotation.\<close>

lemma cm_add_anns_keeps: "set anns \<subseteq> set (cm_add_anns cs anns)"
proof (induction cs arbitrary: anns)
  case (Cons c cs)
  obtain k t n where c: "c = (k, t, n)" by (cases c) auto
  show ?case
    using Cons.IH by (fastforce simp: cm_add_anns_def c)
qed (simp add: cm_add_anns_def)

lemma cm_add_anns_covers:
  "src_pairs cs \<subseteq> sync_pairs (cm_add_anns cs anns)"
proof (induction cs arbitrary: anns)
  case (Cons c cs)
  obtain k t n where c: "c = (k, t, n)" by (cases c) auto
  let ?s = "if cm_sync_kind k \<and> \<not> list_ex (\<lambda>ee. ma_kind ee = k \<and> ma_track ee = t) anns
            then anns @ [\<lparr>ma_kind = k, ma_track = t, ma_src = MS_Linked n\<rparr>] else anns"
  have step: "cm_add_anns (c # cs) anns = cm_add_anns cs ?s"
    by (simp add: cm_add_anns_def c)
  have new: "cm_sync_kind k \<Longrightarrow> (k, t) \<in> sync_pairs ?s"
    by (auto simp: sync_pairs_def list_ex_iff image_iff)
  have keep: "sync_pairs ?s \<subseteq> sync_pairs (cm_add_anns cs ?s)"
    using cm_add_anns_keeps [of ?s cs] by (auto simp: sync_pairs_def)
  have src: "src_pairs (c # cs) = (if cm_sync_kind k then {(k, t)} else {}) \<union> src_pairs cs"
    by (auto simp: src_pairs_def c)
  show ?case
  proof
    fix p
    assume "p \<in> src_pairs (c # cs)"
    then consider "cm_sync_kind k" "p = (k, t)" | "p \<in> src_pairs cs"
      unfolding src by (auto split: if_splits)
    then have "p \<in> sync_pairs (cm_add_anns cs ?s)"
    proof cases
      case 1
      then show ?thesis
        using keep [THEN subsetD, OF new [OF 1(1)]] by (simp only: 1(2))
    next
      case 2
      then show ?thesis
        using Cons.IH [of ?s] by (rule subsetD [rotated])
    qed
    then show "p \<in> sync_pairs (cm_add_anns (c # cs) anns)"
      by (simp only: step)
  qed
qed (simp add: src_pairs_def)

text \<open>The removal loop over its snapshot.\<close>

lemma cm_remove_fold:
  "foldl (cm_remove_step (Some c)) (Inr l) xs
   = Inr (foldl (\<lambda>l e. if cm_sync_kind (ma_kind e) \<and> \<not> list_ex (\<lambda>(k, t, _). k = ma_kind e \<and> t = ma_track e) c
                       then remove1 e l else l) l xs)"
  by (induction xs arbitrary: l) (simp_all add: cm_remove_step_def)

lemma remove_fold_mset:
  "mset (foldl (\<lambda>l e. if P e then remove1 e l else l) l xs) = mset l - mset (filter P xs)"
proof (induction xs arbitrary: l)
  case (Cons x xs)
  show ?case
    by (simp add: Cons.IH diff_diff_add_mset)
qed simp

lemma cm_anns_Some:
  "\<exists>l. cm_anns (Some c) anns = Inr l \<and> mset l = mset (filter (cm_kept c) (cm_add_anns c anns))"
proof -
  let ?s = "cm_add_anns c anns"
  let ?P = "\<lambda>e. cm_sync_kind (ma_kind e) \<and> \<not> list_ex (\<lambda>(k, t, _). k = ma_kind e \<and> t = ma_track e) c"
  have "cm_anns (Some c) anns = Inr (foldl (\<lambda>l e. if ?P e then remove1 e l else l) ?s ?s)"
    by (simp add: cm_anns_def Let_def cm_remove_fold)
  moreover have "mset (foldl (\<lambda>l e. if ?P e then remove1 e l else l) ?s ?s) = mset (filter (cm_kept c) ?s)"
    using remove_fold_mset [of ?P ?s ?s] mset_minus_filter [of ?s ?P] by (simp add: cm_kept_def)
  ultimately show ?thesis
    by blast
qed

lemma cm_add_anns_other:
  "filter (\<lambda>a. \<not> cm_sync_kind (ma_kind a)) (cm_add_anns cs anns) = filter (\<lambda>a. \<not> cm_sync_kind (ma_kind a)) anns"
proof (induction cs arbitrary: anns)
  case (Cons c cs)
  obtain k t n where c: "c = (k, t, n)" by (cases c) auto
  show ?case
    using Cons.IH by (simp add: cm_add_anns_def c)
qed (simp add: cm_add_anns_def)

lemma sync_pairs_kept: "sync_pairs (filter (cm_kept c) xs) = sync_pairs xs \<inter> src_pairs c"
proof (rule set_eqI)
  fix p :: "ann_kind \<times> nat"
  show "p \<in> sync_pairs (filter (cm_kept c) xs) \<longleftrightarrow> p \<in> sync_pairs xs \<inter> src_pairs c"
  proof (cases p)
    case (Pair k t)
    have "p \<in> src_pairs c \<longleftrightarrow> cm_sync_kind k \<and> (\<exists>n. (k, t, n) \<in> set c)"
      by (force simp: src_pairs_def Pair)
    moreover have "\<And>a. cm_sync_kind (ma_kind a) \<Longrightarrow> cm_kept c a \<longleftrightarrow> (\<exists>n. (ma_kind a, ma_track a, n) \<in> set c)"
      by (force simp: cm_kept_def list_ex_iff)
    ultimately show ?thesis
      by (auto simp: sync_pairs_def Pair)
  qed
qed

lemma sync_pairs_mset:
  assumes "mset xs = mset ys"
  shows "sync_pairs xs = sync_pairs ys"
proof -
  have "set xs = set ys"
    using assms by (rule mset_eq_setD)
  then show ?thesis
    by (simp add: sync_pairs_def)
qed

lemma cm_remove_step_Inl: "cm_remove_step cs (Inl e) x = Inl e"
  by (simp add: cm_remove_step_def)

lemma cm_remove_Inl: "foldl (cm_remove_step cs) (Inl e) xs = Inl e"
  by (induction xs) (simp_all add: cm_remove_step_Inl)

lemma cm_remove_None:
  "foldl (cm_remove_step None) (Inr l) xs
   = (if list_ex (\<lambda>a. cm_sync_kind (ma_kind a)) xs then Inl CM_NullSegment else Inr l)"
proof (induction xs)
  case (Cons x xs)
  have "cm_remove_step None (Inr l) x = (if cm_sync_kind (ma_kind x) then Inl CM_NullSegment else Inr l)"
    by (simp add: cm_remove_step_def)
  then show ?case
    using Cons.IH by (simp add: cm_remove_Inl)
qed simp

lemma cm_sync_endbar_fields:
  "mr_anns (cm_sync_endbar nstaves lm r) = mr_anns r \<and> mr_cr (cm_sync_endbar nstaves lm r) = mr_cr r
   \<and> mr_els (cm_sync_endbar nstaves lm r) = mr_els r \<and> mr_count (cm_sync_endbar nstaves lm r) = mr_count r
   \<and> mr_len (cm_sync_endbar nstaves lm r) = mr_len r"
  by (simp add: cm_sync_endbar_def Let_def split: option.split)

lemma cm_base_fields:
  "mr_anns (cm_base nstaves m lm old len n) = (case old of Some r0 \<Rightarrow> mr_anns r0 | None \<Rightarrow> [])
   \<and> mr_count (cm_base nstaves m lm old len n) = int n \<and> mr_len (cm_base nstaves m lm old len n) = len"
  by (simp add: cm_base_def cm_empty_def split: option.split)

text \<open>\<open>createMMRest\<close> fails exactly when the annotation pass fails, and otherwise returns the marked measures and a replacement with these fields.\<close>

lemma createMMRest_Inl:
  "createMMRest nstaves showVBox following lmId m lm old len = Inl e
   \<longleftrightarrow> cm_anns (cm_cr_anns m) (case old of Some r0 \<Rightarrow> mr_anns r0 | None \<Rightarrow> []) = Inl e"
  by (simp add: createMMRest_def Let_def cm_sync_endbar_fields cm_base_fields split: prod.split sum.split)

lemma createMMRest_Inr:
  assumes "createMMRest nstaves showVBox following lmId m lm old len = Inr (marked, r)"
  shows "marked = snd (cm_mark following lmId)
    \<and> cm_anns (cm_cr_anns m) (case old of Some r0 \<Rightarrow> mr_anns r0 | None \<Rightarrow> []) = Inr (mr_anns r)
    \<and> mr_count r = int (fst (cm_mark following lmId)) \<and> mr_len r = len
    \<and> mr_cr r = cm_rests nstaves len (mr_cr (cm_base nstaves m lm old len (fst (cm_mark following lmId))))
    \<and> mr_els r = cm_sync_els (mr_els (cm_base nstaves m lm old len (fst (cm_mark following lmId)))) (cm_new_els m lm)"
proof -
  obtain n ms where mk: "cm_mark following lmId = (n, ms)"
    by (cases "cm_mark following lmId") auto
  obtain anns where an: "cm_anns (cm_cr_anns m) (case old of Some r0 \<Rightarrow> mr_anns r0 | None \<Rightarrow> []) = Inr anns"
    using assms createMMRest_Inl [of nstaves showVBox following lmId m lm old len]
    by (cases "cm_anns (cm_cr_anns m) (case old of Some r0 \<Rightarrow> mr_anns r0 | None \<Rightarrow> [])") auto
  show ?thesis
    using assms by (clarsimp simp: createMMRest_def Let_def mk an cm_sync_endbar_fields cm_base_fields)
qed

lemma cm_kept_other:
  "filter (\<lambda>a. \<not> cm_sync_kind (ma_kind a)) (filter (cm_kept c) xs) = filter (\<lambda>a. \<not> cm_sync_kind (ma_kind a)) xs"
  by (induction xs) (auto simp: cm_kept_def)

text \<open>The annotation pass with a chord-rest segment in \<open>m\<close>: the (kind, track) pairs of the four kinds become those of \<open>m\<close>, and the other annotations stay.\<close>

lemma cm_anns_Some_pairs:
  assumes "cm_anns (Some c) anns = Inr l"
  shows "sync_pairs l = src_pairs c
    \<and> mset (filter (\<lambda>a. \<not> cm_sync_kind (ma_kind a)) l) = mset (filter (\<lambda>a. \<not> cm_sync_kind (ma_kind a)) anns)"
proof -
  have l: "mset l = mset (filter (cm_kept c) (cm_add_anns c anns))"
    using cm_anns_Some [of c anns] assms by auto
  have "sync_pairs l = sync_pairs (cm_add_anns c anns) \<inter> src_pairs c"
    using sync_pairs_mset [OF l] sync_pairs_kept by simp
  then have "sync_pairs l = src_pairs c"
    using cm_add_anns_covers [of c anns] by blast
  moreover have "mset (filter (\<lambda>a. \<not> cm_sync_kind (ma_kind a)) l)
      = mset (filter (\<lambda>a. \<not> cm_sync_kind (ma_kind a)) (filter (cm_kept c) (cm_add_anns c anns)))"
    by (simp only: mset_filter l)
  ultimately show ?thesis
    by (simp only: cm_kept_other cm_add_anns_other)
qed

text \<open>
  What every replacement \<open>createMMRest\<close> returns has: the measures marked are those after
  \<open>m\<close> up to \<open>lm\<close> (all of them when \<open>lm\<close> is not among them), the rest count is the number
  of measures of the run, the length is \<open>len\<close>, each staff has a rest or its old element
  on its first track, and the elements are those of \<open>lm\<close> and the markers of \<open>m\<close>.
\<close>

text \<open>
  C11: With a chord-rest segment at the tick of \<open>m\<close>, \<open>createMMRest\<close> returns a replacement
  whose rehearsal marks, tempo texts, harmonies and staff texts carry exactly the (kind,
  track) pairs of those of \<open>m\<close>'s segment, and whose other annotations are those the
  replacement had before.
\<close>

theorem createMMRest_anns:
  assumes "cm_cr_anns m = Some cs"
  shows "\<exists>marked r. createMMRest nstaves showVBox following lmId m lm old len = Inr (marked, r)
    \<and> sync_pairs (mr_anns r) = src_pairs cs
    \<and> mset (filter (\<lambda>a. \<not> cm_sync_kind (ma_kind a)) (mr_anns r))
      = mset (filter (\<lambda>a. \<not> cm_sync_kind (ma_kind a)) (case old of Some r0 \<Rightarrow> mr_anns r0 | None \<Rightarrow> []))"
proof -
  let ?a = "case old of Some r0 \<Rightarrow> mr_anns r0 | None \<Rightarrow> []"
  obtain l where l: "cm_anns (Some cs) ?a = Inr l"
    using cm_anns_Some [of cs ?a] by blast
  obtain marked r where res: "createMMRest nstaves showVBox following lmId m lm old len = Inr (marked, r)"
    using l assms createMMRest_Inl [of nstaves showVBox following lmId m lm old len]
    by (cases "createMMRest nstaves showVBox following lmId m lm old len") auto
  have "mr_anns r = l"
    using createMMRest_Inr [OF res] l assms by simp
  then show ?thesis
    using res cm_anns_Some_pairs [OF l] by blast
qed

theorem createMMRest_anns_witness:
  "\<exists>marked r. createMMRest 2 False [1, 2] 2 (ex_cm (Some [(AK_TEMPO, 0, 7), (AK_HARMONY, 4, 8)]))
       (ex_cm (Some [])) (Some ex_old) 12 = Inr (marked, r)
     \<and> sync_pairs (mr_anns r) = {(AK_TEMPO, 0), (AK_HARMONY, 4)}"
  using createMMRest_anns [of "ex_cm (Some [(AK_TEMPO, 0, 7), (AK_HARMONY, 4, 8)])" "[(AK_TEMPO, 0, 7), (AK_HARMONY, 4, 8)]"
      2 False "[1, 2]" 2 "ex_cm (Some [])" "Some ex_old" 12]
  by (simp add: ex_cm_def src_pairs_def cm_sync_kind_def) blast

text \<open>
  C16: Without a chord-rest segment at the tick of \<open>m\<close>, the removal loop reads the
  missing segment: \<open>createMMRest\<close> fails exactly when the replacement it reuses has a
  rehearsal mark, tempo text, harmony or staff text.
\<close>

theorem createMMRest_null_segment:
  assumes "cm_cr_anns m = None"
  shows "(createMMRest nstaves showVBox following lmId m lm old len = Inl CM_NullSegment)
    = list_ex (\<lambda>a. cm_sync_kind (ma_kind a)) (case old of Some r0 \<Rightarrow> mr_anns r0 | None \<Rightarrow> [])"
  using assms by (simp add: createMMRest_Inl cm_anns_def Let_def cm_remove_None)

theorem createMMRest_null_segment_witness:
  "createMMRest 2 False [1, 2] 2 (ex_cm None) (ex_cm None) (Some ex_old) 12 = Inl CM_NullSegment"
  using createMMRest_null_segment [of "ex_cm None" 2 False "[1, 2]" 2 "ex_cm None" "Some ex_old" 12]
  by (simp add: ex_cm_def ex_old_def cm_empty_def cm_sync_kind_def)

text \<open>
  C7: when \<open>createMMRest\<close> succeeds, the measures it marks as in the multimeasure rest are
  those of the stream up to and including the last one, its measure count is one more than
  their number and its length the given one, every staff holds a chord-rest, and its
  elements are the last measure's followed by the first measure's markers, in that order
  and matched by type.
\<close>

theorem createMMRest_shape:
  assumes "createMMRest nstaves showVBox following lmId m lm old len = Inr (marked, r)"
  shows "marked = (if lmId \<in> set following then takeWhile (\<lambda>mm. mm \<noteq> lmId) following @ [lmId] else following)
    \<and> mr_count r = int (Suc (length marked)) \<and> mr_len r = len
    \<and> length (mr_cr r) = nstaves \<and> None \<notin> set (mr_cr r)
    \<and> map fst (mr_els r) = map me_type (cm_els lm @ filter (\<lambda>e. me_type e = MT_MARKER) (cm_els m))"
  using createMMRest_Inr [OF assms] cm_mark_count [of following lmId]
  by (auto simp: cm_mark_prefix cm_sync_els_types cm_new_els_def cm_rests_def split: option.splits)

theorem createMMRest_shape_witness:
  "\<exists>marked r. createMMRest 2 False [1, 2] 2 (ex_cm (Some [])) (ex_cm (Some [])) (Some ex_old) 12 = Inr (marked, r)
     \<and> marked = [1, 2] \<and> mr_count r = 3 \<and> mr_len r = 12 \<and> length (mr_cr r) = 2 \<and> None \<notin> set (mr_cr r)
     \<and> map fst (mr_els r) = [MT_MARKER, MT_MARKER]"
proof -
  obtain l where "cm_anns (Some []) (mr_anns ex_old) = Inr l" using cm_anns_Some by blast
  then obtain marked r where e:
    "createMMRest 2 False [1, 2] 2 (ex_cm (Some [])) (ex_cm (Some [])) (Some ex_old) 12 = Inr (marked, r)"
    using createMMRest_Inl [of 2 False "[1, 2]" 2 "ex_cm (Some [])" "ex_cm (Some [])" "Some ex_old" 12]
    by (cases "createMMRest 2 False [1, 2] 2 (ex_cm (Some [])) (ex_cm (Some [])) (Some ex_old) 12") (auto simp: ex_cm_def)
  show ?thesis using createMMRest_shape [OF e] e by (auto simp: ex_cm_def)
qed

end
