(* ===== verification/Spec2Isabelle.thy ===== *)
theory Spec2Isabelle
  imports Springs Chord_Offsets Beams Collect_Page Note_Event MMRest Accidentals Layout_Helpers System_Header Min_Width Lyrics Chord_Notes Accidental_Columns Pages Ties_Fingering Next_Measure System_Passes Create_MMRest
begin

text \<open>
  \<^bold>\<open>Verification model of the MuseScore layout core.\<close>

  The program is \<open>src/libmscore/layout.cpp\<close>, the layout pass of MuseScore's
  notation library, and \<open>src/libmscore/noteevent.cpp\<close>.  \<open>Score::doLayout\<close>
  walks the measures of a score: \<open>getNextMeasure\<close> numbers each measure, collapses
  runs of empty measures into multi-measure rests and lays out the measure's chords
  (\<open>layoutChords1/2/3\<close>, \<open>createBeams\<close>); \<open>collectSystem\<close> gathers measures
  into a system of the page's width and spreads them with the spring model
  (\<open>respace\<close>, \<open>sff2\<close>); \<open>collectPage\<close> gathers systems into pages and
  \<open>layoutPage\<close> spreads them vertically.  The model is a shallow embedding: each
  C++ function is a HOL function of the same name (or the name with a suffix where
  HOL has it already), objects are records of the fields the code reads, loops are
  recursive functions, and lengths (\<open>qreal\<close>) are reals, so rounding is not
  modelled.  Everything the code only calls and that lives outside \<open>src/\<close>
  (shapes, element \<open>layout()\<close>, style lookups, the XML reader) is a parameter or
  a field of a record, and the theorems hold for every value of it.

  \<^bold>\<open>Theories.\<close>
  \<^item> \<open>Layout_Prelude\<close>: the types \<open>tick\<close>, \<open>staff_line\<close>, \<open>qreal\<close>,
    \<open>VOICES\<close>, C++ truncating \<open>/\<close> and \<open>%\<close> on \<open>int\<close>
    (\<open>cxx_div\<close>, \<open>cxx_mod\<close>), and the list and sum lemmas shared by the components
    (collection \<open>layout_simps\<close>).
  \<^item> \<open>Springs\<close>: \<open>struct Spring\<close>, the \<open>SpringMap\<close> multimap as a key-sorted
    list, \<open>sff2\<close> and \<open>respace\<close>.  Lemmas: the force \<open>sff2\<close> finds stretches
    the springs to exactly the width (C1), gaps stay at least their minimum.
  \<^item> \<open>Chord_Mirror\<close>: \<open>layoutChords2\<close> as a step function on a record of its loop
    variables (C2, C5: seconds split, width; no spurious mirroring; a user mirror wins).
  \<^item> \<open>Chord_Offsets\<close>: \<open>layoutChords1\<close> for one segment and staff: grouping by
    stem direction, the overlap scan, shared heads, the offset cascade (C6, C8, and the
    third-with-second scenario \<open>layoutChords1_second_inside_third\<close>).
  \<^item> \<open>Beams\<close>: the beam state machine shared by \<open>createBeams\<close> and
    \<open>beamGraceNotes\<close>, parametrised by the candidate-break test; \<open>Groups::endBeam\<close>
    (outside \<open>src/\<close>) is a parameter.  Beams are runs of consecutive chord-rests
    (C13; the same for grace notes), the scenario \<open>createBeams_rest_inside\<close>, and four quarters left unbeamed
    (\<open>createBeams_quarters\<close>).
  \<^item> \<open>Min_Width\<close>: \<open>computeMinWidth\<close>, with the shape queries of segments
    (\<open>minLeft\<close>, \<open>minHorizontalDistance\<close>, \<open>minRight\<close>) as an interface record
    and the segments' positions and widths as two lists.  The segments end up end to end,
    each at least its minimum distance wide (C10, by an invariant of the segment loop);
    the look-back loop stops at the nearest overlapping segment
    (\<open>computeMinWidth_nearest_only\<close>).
  \<^item> \<open>Collect_System\<close>: \<open>collectSystem\<close>'s measure loop with its fit test,
    breaks and line mode, and the placement of the collected measures
    (C18 to C20, C22).
  \<^item> \<open>Collect_Page\<close>: \<open>collectPage\<close>'s loop (distances, fit test, page breaks),
    \<open>layoutPage\<close>'s vertical spreading, and \<open>doLayout\<close> as
    \<open>collectSystem\<close> iterated over the measures and \<open>collectPage\<close> iterated over
    the systems: the page-break decision for the second system (C25), the \<open>userDist\<close>
    overflow (C26), the bound every later system of a page keeps (C27), and C28, C29.  The page loop \<open>while (collectPage(lc))\<close> is
    a \<open>partial_function\<close> in the option monad; C29 proves it returns on every
    input, with a measure on the remaining systems.
  \<^item> \<open>Pages\<close>: the score's page and system lists: \<open>addPage\<close>,
    \<open>getEmptyPage\<close> (reuse or append, number, place after the previous page),
    \<open>getNextSystem\<close> (reuse or create, one staff per staff of the score),
    \<open>checkDivider\<close> and the divider pass of \<open>layoutPage\<close>, and the page list
    \<open>doLayout\<close> leaves (\<open>doLayout_pages\<close>: the pages of the page loop, numbered
    and placed in order, leftover pages removed, C35).  The page loop is also an
    \<open>inductive\<close> step relation \<open>dl_step\<close>: it has no infinite run
    (\<open>dl_wf\<close>), it is stuck exactly when no system is left (\<open>dl_stuck_iff\<close>),
    and every state reaches the end of the score (\<open>dl_reach\<close>).
  \<^item> \<open>Note_Event\<close>: \<open>NoteEvent::read\<close>, \<open>write\<close>, \<open>operator==\<close>
    (the read/write round trip, C31); the property machinery is an interface record.
  \<^item> \<open>MMRest\<close>: \<open>validMMRestMeasure\<close>, \<open>breakMultiMeasureRest\<close>,
    \<open>LayoutContext::adjustMeasureNo\<close> and the multi-measure-rest branch of
    \<open>getNextMeasure\<close>; the loops of \<open>validMMRestMeasure\<close> against a declarative
    specification (C33), the run a rest replaces (C34; no section break inside it), an eight-measure
    example, and the double measure-number offset (\<open>getNextMeasure_mm_double_offset\<close>).
  \<^item> \<open>Accidentals\<close>: \<open>struct AcEl\<close>, \<open>resolveAccidentals\<close>,
    \<open>layoutAccidental\<close>, and the accidental part of \<open>layoutChords3\<close>: building the
    \<open>AcEl\<close> list with its pitch-class links (\<open>ac_collect\<close>, well formed by C40)
    and the zig-zag layout (\<open>zz_schedule\<close>, \<open>zz_layout\<close>) used when no
    accidentals are an octave apart.  The zig-zag places every accidental once, after
    its neighbours (C39), and every accidental ends left of the column offset (C38).
    The \<open>AcEl\<close> pointers of the code are indices into the list, so a neighbour is
    read with the position it was given.
  \<^item> \<open>Accidental_Columns\<close>: the octave-column branch of \<open>layoutChords3\<close>
    (\<open>lc3_accidentals\<close>): \<open>columnTop\<close> (\<open>oc_tops\<close>), the zig-zag order of the
    columns (\<open>oc_seq\<close>, \<open>oc_classify\<close>), slotting the unmatched accidentals
    into a column (\<open>oc_slot\<close>, \<open>oc_try\<close>, \<open>oc_match\<close>), laying out and
    aligning the columns (\<open>oc_lay_walk\<close>, \<open>oc_align_walk\<close>,
    \<open>oc_lay_cols\<close>), then the zig-zag on the rest, and the final positions relative to
    the notes (\<open>lc3_acc_pos\<close>).  Each loop over the \<open>next\<close> links is a
    \<open>partial_function\<close> in the option monad.  The invariant \<open>oc_inv\<close> (the
    columns' walks return and are disjoint, and leave out the accidentals still to be
    slotted) gives that the whole branch returns on the lists the note loop builds
    (C3), and that the columns and \<open>umi\<close> together hold every accidental once (C14).
  \<^item> \<open>System_Header\<close>: \<open>hideEmptyStaves\<close> (which staves a system shows:
    those not hidable or shown with notes, else the \<open>showIfEmpty\<close> staves, else the
    first, C12), \<open>cautionaryWidth\<close>
    (\<open>hasCourtesy\<close> only for courtesy elements already present) and
    \<open>addSystemHeader\<close>, whose undo commands are modelled as a decision per element
    (keep, create, change, remove).
  \<^item> \<open>Lyrics\<close>: \<open>findLyricsMaxY\<close>, \<open>findLyricsMinY\<close>,
    \<open>applyLyricsMax\<close>, \<open>applyLyricsMin\<close> and the alignment ranges of
    \<open>collectSystem\<close> for one staff, with \<open>Shape\<close> as an interface record.  Lyrics
    below the staff of a measure are aligned at one offset that clears every segment;
    lyrics above the staff are aligned only with the range \<open>SYSTEM\<close> (C17).
  \<^item> \<open>Chord_Notes\<close>: the note loop of \<open>layoutChords3\<close>: each
    notehead's x from its mirror flag and stem side (\<open>n3_x\<close>), the mirrored
    down-stem notes left of the origin (\<open>leftNotes\<close>), the leftmost note, the dot
    column of up-stem and down-stem chords, and each note's dot direction with the
    unison and second rules (\<open>n3_dot\<close>), one step per note from the highest
    (\<open>lc3_note\<close>, \<open>lc3_loop\<close>).  The dot column clears every dotted head (C24);
    \<open>leftNotes\<close> comes out sorted by line, which makes the \<open>break\<close> of
    \<open>layoutAccidental\<close>'s left-note loop a sound early exit (C23); the dots of a
    second move apart.  \<open>Note::setDotY\<close> is recorded as the direction it is given.
  \<^item> \<open>Layout_Helpers\<close>: \<open>searchNote\<close> against the specification its comment
    gives (C36) and the case it misses (past the last chord-rest it returns null),
    \<open>updateBarLineSpans\<close>, and \<open>isTopBeam\<close> / \<open>notTopBeam\<close>, which split
    the chord-rests that start a beam.
  \<^item> \<open>Ties_Fingering\<close>: \<open>layoutFingering\<close> (the offset of a fingering from
    its note: below or above the head by the voices, stem direction and staff of the part,
    C32) and \<open>connectTies\<close> on an explicit store: notes and chords are numbers,
    and a note's tie forward and back, its spanner lists and a chord's tremolo are maps in
    a state record; \<open>searchTieNote\<close>, \<open>searchTieNote114\<close> and
    \<open>Glissando::guessInitialNote\<close>, outside \<open>src/\<close>, are an interface
    record.  The tie links after the whole loop are those of the tie repair alone folded
    over the visited notes (\<open>ct_segs_links\<close>); from it, the forward tie of every
    note (C21) and the back link of every repaired tie (C30).  The spanner loops run over
    the lists as they are when they start; the tremolo search is a \<open>find\<close> over
    the later segments.
  \<^item> \<open>Next_Measure\<close>: the measure cursor and per-measure bookkeeping of
    \<open>getNextMeasure\<close> (without the multi-measure-rest branch, which is in
    \<open>MMRest\<close>): the bases handed out (\<open>nm_cursor\<close>: frames only with
    \<open>_showVBox\<close>, vertical boxes skipped in line mode), \<open>moveTicks\<close> and
    \<open>lc.tick\<close>, the reset of the maps at the first measure, the section-break pause,
    the longest breath, the tempo change for an articulation's time stretch, the staves'
    time signatures and the time signature map event (\<open>nm_measure\<close>,
    \<open>getNextMeasure_step\<close>, \<open>nm_run\<close>).  \<open>TempoMap\<close> and
    \<open>TimeSigMap\<close> are sorted association lists.  Each base is placed where the
    previous one ended (C37); when the first base is a measure the time signature map gives
    every measure its own length (C15), by the invariant \<open>sig_inv\<close>.
  \<^item> \<open>System_Passes\<close>: the element passes at the end of \<open>collectSystem\<close> and of
    \<open>collectPage\<close>, with element layout recorded as a trace of calls: the system's
    tick range, top beams (through \<open>isTopBeam\<close> of \<open>Layout_Helpers\<close>), tempo
    texts, texts and dynamics (a dynamic at a hairpin's end is not autoplaced), the
    spanners \<open>layoutSystem\<close> is called on (exactly those strictly inside the system's
    range, \<open>cs_spanners_laid_out\<close>), the ottava check, the vertical alignment of the
    voltas (one offset, at most 0 and at most each original, C9), unmanaged spanners, the
    spanner shapes per measure, the layout context flags, and the \<open>collectPage\<close> pass
    (cross-staff beams through \<open>notTopBeam\<close>, grace beams, ties, spanners, slurs,
    arpeggios, bar lines).  The two beam passes together lay out every beam once per
    chord-rest that starts it and is a top beam or on a shown staff (C4).
  \<^item> \<open>Create_MMRest\<close>: \<open>Score::createMMRest\<close>, the measure that replaces a
    run of empty measures: marking the run (\<open>cm_mark\<close>), reusing or creating the
    replacement (\<open>cm_base\<close>), the end bar lines (\<open>cm_sync_endbar\<close>), the measure
    elements matched by type (\<open>cm_sync_els\<close>), a measure rest on every empty staff
    (\<open>cm_rests\<close>), the clef, time signature, ambitus and key signature segments
    (\<open>cm_sync_seg\<close> with an update per kind), and the annotation passes
    (\<open>cm_add_anns\<close>, \<open>cm_remove_step\<close>, \<open>cm_anns\<close>).  Segments are lists
    with an element or nothing per staff; clones and linked clones record their source;
    undo commands are the changes they make; a read of a null segment is the error value
    \<open>CM_NullSegment\<close>.  The replacement's fields (C7), its
    annotations (C11), and the failure without a chord-rest segment in \<open>m\<close> (C16).

  \<^bold>\<open>Bounds and fuel.\<close>  No definition uses fuel.  Loops over a list recurse on
  the list; loops over indices (\<open>vm_tracks\<close>, the system and page collections)
  are \<open>function\<close>s with a measure on what is left.  The loops whose termination
  depends on the data are \<open>partial_function\<close>s in the option monad: the page loop,
  proved total (C29), and the walks along the accidental columns' \<open>next\<close> links,
  proved to return on the lists \<open>layoutChords3\<close> builds (C3).

  \<^bold>\<open>Findings.\<close>  The fit test of \<open>collectPage\<close> omits the staff
  \<open>userDist\<close> that placement adds (C26); \<open>getNextMeasure\<close> applies a measure's
  \<open>noOffset\<close> twice when multi-measure rests are on
  (\<open>getNextMeasure_mm_double_offset\<close>); \<open>searchNote\<close>
  returns null for a tick after the last chord-rest of the track; the look-back of
  \<open>computeMinWidth\<close> leaves a collision with a farther segment
  (\<open>computeMinWidth_nearest_only\<close>); lyrics above
  the staff are not aligned with the ranges \<open>MEASURE\<close> and \<open>SEGMENT\<close> (C17);
  \<open>connectTies(true)\<close> leaves a tie whose end note is not found without end note,
  (C21), and a two-note tremolo followed on its track by a rest without second chord
  (\<open>connectTies_example\<close>); in a measure with voices a stem-down fingering goes
  below the note on any staff, not only on the last staff of the part (C32); a score
  that opens with a frame never resets the tempo and time signature maps, so events of an
  earlier layout survive (\<open>nm_run_title_frame_stale\<close>); the time stretch of a
  chord-rest segment is a running maximum, so a stretch below 1 after one of 1 is lost
  (\<open>nm_stretch_carry\<close>); \<open>createMMRest\<close> reads the chord-rest segment of \<open>m\<close>
  without a null check once the replacement has a rehearsal mark, tempo text, harmony or
  staff text (C16), and removes annotations from the list its loop iterates over.

  \<^bold>\<open>Not modelled.\<close>  \<open>doLayoutRange\<close>
  (it splices relaid systems and pages into the existing lists), \<open>layoutSpanner\<close>
  and \<open>rebuildBspTree\<close> (they only call spanner layout and the BSP tree), and the
  element layout calls of \<open>getNextMeasure\<close> (\<open>layout0\<close>, \<open>Chord::layout\<close>,
  \<open>createShapes\<close>).  In \<open>connectTies\<close>, the tick, track and parent a repaired
  glissando gets (they follow from its start and end note).  In \<open>createMMRest\<close>, the
  \<open>layout()\<close> calls on updated time signatures and ambitus and the memory of deleted
  elements.  These compute with element
  shapes and bounding boxes or with object graphs built by code outside \<open>src/\<close>.
\<close>

end
